(* ===== verification/Prelude.thy ===== *)
theory Prelude
  imports Main "HOL-Library.Word"
begin

text \<open>
  Shared vocabulary of the development: the machine types of \<^verbatim>\<open>include/6502cc/emu_base.h\<close>
  (\<open>uint8\<close>, \<open>uint16\<close>), the little-endian composition of two bytes that the sources write as
  \<^verbatim>\<open>lo | (hi << 8)\<close>, and the facts about words, nibbles and byte-indexed tables that several
  components use. Facts that read single bits are collected under \<open>byte_simps\<close>, facts that read
  bytes and nibbles as numbers under \<open>num_simps\<close>, the definitions of the status-flag masks under
  \<open>flag_defs\<close>.
\<close>

unbundle bit_operations_syntax

named_theorems flag_defs "numeric values of the status register masks"
named_theorems byte_simps "single bits of composed bytes and words"
named_theorems num_simps "bytes, nibbles and sign bits as numbers"

type_synonym uint8 = "8 word"
type_synonym uint16 = "16 word"

section \<open>Bytes as numbers\<close>

lemma unat8_less [simp]: "unat (w :: uint8) < 256"
  using unsigned_less [of w, where ?'a = nat] by simp

lemma unat16_less [simp]: "unat (w :: uint16) < 65536"
  using unsigned_less [of w, where ?'a = nat] by simp

lemma unat8_le [simp]: "unat (w :: uint8) \<le> 255"
  using unat8_less [of w] by linarith

lemma unat_ucast_8_16 [simp]: "unat (ucast (w :: uint8) :: uint16) = unat w"
proof -
  have "unat w < 65536"
    using unat8_less [of w] by linarith
  then have "unat w mod 65536 = unat w"
    by (rule mod_less)
  then show ?thesis
    by (simp add: unsigned_ucast_eq take_bit_eq_mod)
qed

lemma uint_ucast_8_16 [simp]: "uint (ucast (w :: uint8) :: uint16) = uint w"
  using unat_ucast_8_16 [of w] by (metis of_nat_unat)

lemma unat_low_nibble [num_simps]: "unat ((w :: uint8) AND 0x0F) = unat w mod 16"
proof -
  have "(0x0F :: uint8) = mask 4"
    by (simp add: mask_eq_exp_minus_1)
  then have "w AND 0x0F = take_bit 4 w"
    by (simp only: take_bit_eq_mask)
  then show ?thesis
    by (simp only: unsigned_take_bit_eq) (simp add: take_bit_eq_mod)
qed

lemma bit7_8_iff [num_simps]: "bit (w :: uint8) 7 \<longleftrightarrow> 128 \<le> unat w"
proof -
  have "bit w 7 \<longleftrightarrow> odd (unat w div 128)"
    using bit_unsigned_iff [where ?'a = nat, of w 7] by (simp add: bit_iff_odd)
  moreover have "unat w div 128 < 2"
    using unat8_less [of w] by linarith
  ultimately show ?thesis
    by (auto simp: less_2_cases_iff)
qed

lemma bit7_16_iff [num_simps]: "bit (w :: uint16) 7 \<longleftrightarrow> 128 \<le> unat w mod 256"
proof -
  have "bit w 7 \<longleftrightarrow> odd (unat w div 128)"
    using bit_unsigned_iff [where ?'a = nat, of w 7] by (simp add: bit_iff_odd)
  moreover have "unat w mod 256 = 128 * (unat w div 128 mod 2) + unat w mod 128"
    using mod_mult2_eq [of "unat w" 128 2] by simp
  moreover have "unat w mod 128 < 128"
    by simp
  ultimately show ?thesis
    by (cases "odd (unat w div 128)") (simp_all add: odd_iff_mod_2_eq_one)
qed

lemma sint8_unat [num_simps]:
  "sint (w :: uint8) = (if 128 \<le> unat w then int (unat w) - 256 else int (unat w))"
proof -
  have "sint w = (uint w + 128) mod 256 - 128"
    by (simp add: sint_uint signed_take_bit_eq_take_bit_shift take_bit_eq_mod)
  moreover have "(uint w + 128) mod 256 = (if 128 \<le> uint w then uint w - 128 else uint w + 128)"
  proof (cases "128 \<le> uint w")
    case True
    have "(uint w + 128) mod 256 = (uint w - 128) mod 256"
      using mod_add_self2 [of "uint w - 128" 256] by (simp only: diff_add_eq) (simp only: add_diff_eq [symmetric], simp)
    also have "\<dots> = uint w - 128"
      using True uint_lt2p [of w] by (intro mod_pos_pos_trivial) simp_all
    finally show ?thesis using True by simp
  next
    case False
    then have "(uint w + 128) mod 256 = uint w + 128"
      using uint_ge_0 [of w] by (intro mod_pos_pos_trivial) simp_all
    then show ?thesis using False by simp
  qed
  moreover have "int (unat w) = uint w"
    by simp
  then have "128 \<le> unat w \<longleftrightarrow> 128 \<le> uint w"
    by linarith
  ultimately show ?thesis
    by simp
qed

section \<open>Two bytes as a 16-bit word\<close>

text \<open>\<^verbatim>\<open>lo | (hi << 8)\<close>, as every 16-bit fetch of the sources composes its two bytes.\<close>

definition le16 :: "uint8 \<Rightarrow> uint8 \<Rightarrow> uint16" where
  "le16 lo hi = ucast lo OR push_bit 8 (ucast hi)"

definition lo8 :: "uint16 \<Rightarrow> uint8" where
  "lo8 w = ucast (w AND 0xFF)"

definition hi8 :: "uint16 \<Rightarrow> uint8" where
  "hi8 w = ucast (drop_bit 8 w AND 0xFF)"

lemma mask8_16: "(0xFF :: uint16) = mask 8"
  by (simp add: mask_eq_exp_minus_1)

lemma bit_lo8 [byte_simps]: "bit (lo8 w) n \<longleftrightarrow> n < 8 \<and> bit w n"
  by (auto simp: lo8_def mask8_16 bit_simps)

lemma bit_hi8 [byte_simps]: "bit (hi8 w) n \<longleftrightarrow> n < 8 \<and> bit w (n + 8)"
  by (auto simp: hi8_def mask8_16 bit_simps add.commute)

lemma bit_le16 [byte_simps]:
  "bit (le16 lo hi) n \<longleftrightarrow> (n < 8 \<and> bit lo n) \<or> (8 \<le> n \<and> n < 16 \<and> bit hi (n - 8))"
  by (auto simp: le16_def bit_simps dest: bit_imp_le_length)

lemma le16_lo_hi [simp]: "le16 (lo8 w) (hi8 w) = w"
  by (rule bit_word_eqI) (auto simp: byte_simps)

lemma lo8_le16 [simp]: "lo8 (le16 lo hi) = lo"
  by (rule bit_word_eqI) (auto simp: byte_simps)

lemma hi8_le16 [simp]: "hi8 (le16 lo hi) = hi"
  by (rule bit_word_eqI) (auto simp: byte_simps)

text \<open>The masks \<^verbatim>\<open>0xff\<close> and \<^verbatim>\<open>0xff00\<close> of the sources; \<open>bit_numeral_word_iff\<close> must be out of the simplifier where the two
  rules on their bits are used.\<close>

lemma bit_FF [byte_simps]: "bit (0xFF :: uint16) n \<longleftrightarrow> n < 8"
  unfolding mask8_16 by (auto simp: bit_simps)

lemma mask8_hi: "(0xFF00 :: uint16) = push_bit 8 (mask 8)"
  by (simp add: push_bit_eq_mult mask_eq_exp_minus_1)

lemma bit_FF00 [byte_simps]: "bit (0xFF00 :: uint16) n \<longleftrightarrow> 8 \<le> n \<and> n < 16"
  unfolding mask8_hi by (auto simp: bit_simps)

lemma lo8_ucast: "lo8 w = ucast w"
  by (rule bit_word_eqI) (auto simp: byte_simps bit_simps)

lemma hi8_ucast: "hi8 w = ucast (drop_bit 8 w)"
  by (rule bit_word_eqI) (auto simp: byte_simps bit_simps add.commute)

lemma ucast_ucast8 [simp]: "ucast (ucast (v::uint8) :: uint16) = v"
  by (rule bit_word_eqI) (auto simp: bit_simps)

lemma ucast_inject [simp]: "(ucast (v :: uint8) :: uint16) = ucast w \<longleftrightarrow> v = w"
  by (metis ucast_ucast8)

lemma ucast_succ: "(ucast (d + 1 :: uint16) :: uint8) = ucast d + 1"
proof (rule unsigned_word_eqI [where ?'a = int])
  have "(uint d + 1) mod 65536 mod 256 = (uint d mod 256 + 1) mod 256"
    by (simp add: mod_mod_cancel mod_simps)
  then show "uint (ucast (d + 1) :: uint8) = uint (ucast d + 1 :: uint8)"
    by (simp add: unsigned_ucast_eq take_bit_eq_mod uint_word_ariths)
qed

lemma same_page_successor:
  "(d AND 0xFF00) OR ((d + 1) AND 0x00FF) = le16 (lo8 d + 1) (hi8 d)"
proof (rule bit_word_eqI)
  fix n assume "n < LENGTH(16)"
  have "bit (lo8 d + 1) n \<longleftrightarrow> n < 8 \<and> bit (d + 1) n"
    using bit_lo8 [of "d + 1" n] by (simp add: lo8_ucast ucast_succ)
  then show "bit ((d AND 0xFF00) OR ((d + 1) AND 0x00FF)) n = bit (le16 (lo8 d + 1) (hi8 d)) n"
    using \<open>n < LENGTH(16)\<close>
    by (auto simp: byte_simps bit_and_iff bit_or_iff simp del: bit_numeral_word_iff)
qed

lemma hi_mask:
  fixes w :: uint16
  shows "w AND 0xFF00 = push_bit 8 (ucast (hi8 w))"
  by (intro bit_word_eqI) (auto simp: byte_simps bit_and_iff bit_push_bit_iff bit_ucast_iff simp del: bit_numeral_word_iff)

lemma high_byte_eq_iff:
  fixes v w :: uint16
  shows "v AND 0xFF00 = w AND 0xFF00 \<longleftrightarrow> hi8 v = hi8 w"
proof
  assume *: "v AND 0xFF00 = w AND 0xFF00"
  show "hi8 v = hi8 w"
  proof (rule bit_word_eqI)
    fix n assume "n < LENGTH(8)"
    then show "bit (hi8 v) n = bit (hi8 w) n"
      using arg_cong [OF *, of "\<lambda>x. bit x (n + 8)"] by (simp add: byte_simps bit_and_iff del: bit_numeral_word_iff)
  qed
qed (simp add: hi_mask)

section \<open>Tables indexed by a byte\<close>

text \<open>
  A property of every opcode of a 256-entry table follows from one run over the table. The
  index is counted as a word, so that the run computes.
\<close>

fun table_all :: "(uint8 \<Rightarrow> 'a \<Rightarrow> bool) \<Rightarrow> uint8 \<Rightarrow> 'a list \<Rightarrow> bool" where
  "table_all Q i [] = True"
| "table_all Q i (e # es) = (Q i e \<and> table_all Q (i + 1) es)"

lemma table_all_nth:
  "table_all Q i es \<Longrightarrow> n < length es \<Longrightarrow> Q (i + of_nat n) (es ! n)"
proof (induction es arbitrary: i n)
  case Nil
  then show ?case by simp
next
  case (Cons e es)
  then show ?case
    by (cases n) (auto simp: algebra_simps dest: Cons.IH)
qed

lemma table_all_byte:
  "table_all Q 0 es \<Longrightarrow> length es = 256 \<Longrightarrow> Q code (es ! unat code)"
  using table_all_nth [of Q 0 es "unat code"] by simp

end
