(* ===== verification/Flat_Memory.thy ===== *)
theory Flat_Memory
  imports Prelude
begin

text \<open>
  \<^verbatim>\<open>include/6502cc/emu_memory.h\<close> and \<^verbatim>\<open>src/Memory.cpp\<close>: the flat block of pages. The buffer
  behind \<open>_bytes\<close> is a list, so an index past its end would be unspecified in the model just as
  it is undefined in C++; \<open>mem_ok\<close> is the invariant under which no operation makes one.
  The bulk transfers take a nullable pointer (an \<open>option\<close>) to a caller's buffer. A \<^verbatim>\<open>memcpy\<close> that
  would run past the caller's buffer is undefined behaviour: the result is then \<open>None\<close>.
\<close>

section \<open>The class\<close>

record Memory =
  m_bytes :: "uint8 list"
  m_pages :: uint16
  m_size :: nat

definition MAX_BYTES_PER_PAGE :: nat where
  "MAX_BYTES_PER_PAGE = 256"

definition checkAddress :: "Memory \<Rightarrow> uint16 \<Rightarrow> nat" where
  "checkAddress M ad = (if unat ad < m_size M then unat ad else unat ad mod m_size M)"

definition Memory_new :: "uint16 \<Rightarrow> Memory" where
  "Memory_new pages =
     (let pages' = (if pages \<noteq> 0 then pages else 1);
          size' = unat pages' * MAX_BYTES_PER_PAGE
      in \<lparr>m_bytes = replicate size' 0, m_pages = pages', m_size = size'\<rparr>)"

definition Memory_write_bulk ::
  "uint8 list option \<Rightarrow> int \<Rightarrow> uint16 \<Rightarrow> Memory \<Rightarrow> Memory option" where
  "Memory_write_bulk src len offsetDest M =
     (case src of
        None \<Rightarrow> Some M
      | Some xs \<Rightarrow>
          if len \<le> 0 \<or> m_size M \<le> unat offsetDest then Some M
          else
            let len' = (if len > int (m_size M) - int (unat offsetDest)
                        then int (m_size M) - int (unat offsetDest) else len);
                n = nat len'; d = unat offsetDest
            in if n \<le> length xs
               then Some (M\<lparr>m_bytes := take d (m_bytes M) @ take n xs @ drop (d + n) (m_bytes M)\<rparr>)
               else None)"

definition Memory_read_bulk ::
  "uint8 list option \<Rightarrow> int \<Rightarrow> uint16 \<Rightarrow> Memory \<Rightarrow> uint8 list option option" where
  "Memory_read_bulk dst len offsetSrc M =
     (case dst of
        None \<Rightarrow> Some dst
      | Some xs \<Rightarrow>
          if len \<le> 0 \<or> m_size M \<le> unat offsetSrc then Some dst
          else
            let len' = (if len > int (m_size M) - int (unat offsetSrc)
                        then int (m_size M) - int (unat offsetSrc) else len);
                n = nat len'; d = unat offsetSrc
            in if n \<le> length xs
               then Some (Some (take n (drop d (m_bytes M)) @ drop n xs))
               else None)"

definition Memory_new_data ::
  "uint16 \<Rightarrow> uint8 list option \<Rightarrow> int \<Rightarrow> uint16 \<Rightarrow> Memory option" where
  "Memory_new_data pages dat len offsetDest =
     Memory_write_bulk dat len offsetDest (Memory_new pages)"

definition Memory_write :: "uint16 \<Rightarrow> uint8 \<Rightarrow> Memory \<Rightarrow> Memory" where
  "Memory_write address val M = M\<lparr>m_bytes := (m_bytes M)[checkAddress M address := val]\<rparr>"

definition Memory_read :: "uint16 \<Rightarrow> Memory \<Rightarrow> uint8" where
  "Memory_read address M = m_bytes M ! checkAddress M address"

definition Memory_size :: "Memory \<Rightarrow> nat" where
  "Memory_size M = m_size M"

definition Memory_ptr :: "Memory \<Rightarrow> uint8 list" where
  "Memory_ptr M = m_bytes M"

section \<open>The invariant and memory safety\<close>

definition mem_ok :: "Memory \<Rightarrow> bool" where
  "mem_ok M \<longleftrightarrow> m_pages M \<noteq> 0 \<and> m_size M = unat (m_pages M) * MAX_BYTES_PER_PAGE
     \<and> length (m_bytes M) = m_size M"

lemma mem_ok_size: "mem_ok M \<Longrightarrow> MAX_BYTES_PER_PAGE \<le> m_size M"
  using unat_gt_0 [of "m_pages M"] by (auto simp: mem_ok_def)

lemma mem_ok_size_pos [intro]: "mem_ok M \<Longrightarrow> 0 < m_size M"
  using mem_ok_size [of M] by (simp add: MAX_BYTES_PER_PAGE_def)

lemma mem_ok_length [simp]: "mem_ok M \<Longrightarrow> length (m_bytes M) = m_size M"
  by (simp add: mem_ok_def)

lemma checkAddress_mod: "checkAddress M ad = unat ad mod m_size M"
  by (simp add: checkAddress_def)

lemma checkAddress_in_range [intro]: "mem_ok M \<Longrightarrow> checkAddress M ad < m_size M"
  by (simp add: checkAddress_mod mem_ok_size_pos)

lemma mem_ok_new [simp]: "mem_ok (Memory_new pages)"
  by (simp add: mem_ok_def Memory_new_def Let_def)

lemma Memory_write_frame [simp]:
  "m_size (Memory_write ad v M) = m_size M"
  "checkAddress (Memory_write ad v M) = checkAddress M"
  by (simp_all add: Memory_write_def checkAddress_def fun_eq_iff)

lemma mem_ok_write [simp]: "mem_ok M \<Longrightarrow> mem_ok (Memory_write ad v M)"
  by (simp add: mem_ok_def Memory_write_def)

lemma Memory_read_write:
  assumes "mem_ok M"
  shows "Memory_read b (Memory_write a v M)
    = (if checkAddress M b = checkAddress M a then v else Memory_read b M)"
  using checkAddress_in_range [OF assms, of a] assms
  by (simp add: Memory_read_def) (simp add: Memory_write_def nth_list_update)

section \<open>The bulk transfers are clamped to the buffer\<close>

text \<open>How many bytes a bulk transfer of \<open>len\<close> bytes at \<open>off\<close> really moves.\<close>

definition clamped :: "Memory \<Rightarrow> uint16 \<Rightarrow> int \<Rightarrow> nat" where
  "clamped M off len = min (nat len) (m_size M - unat off)"

lemma nat_clamp:
  "0 < len \<Longrightarrow> d < s \<Longrightarrow>
    nat (if int s - int d < len then int s - int d else len) = min (nat len) (s - d)"
  by (simp add: min_def) linarith

lemma write_bulk_eq:
  "Memory_write_bulk (Some xs) len off M =
     (if length xs < clamped M off len then None
      else if clamped M off len = 0 then Some M
      else Some (M\<lparr>m_bytes := take (unat off) (m_bytes M) @ take (clamped M off len) xs
             @ drop (unat off + clamped M off len) (m_bytes M)\<rparr>))"
proof (cases "len \<le> 0 \<or> m_size M \<le> unat off")
  case True
  then show ?thesis by (auto simp: Memory_write_bulk_def clamped_def)
next
  case False
  then have "nat (if len > int (m_size M) - int (unat off)
      then int (m_size M) - int (unat off) else len) = clamped M off len"
    and "0 < clamped M off len"
    using nat_clamp [of len "unat off" "m_size M"] by (simp_all only: clamped_def) auto
  with False show ?thesis
    by (simp add: Memory_write_bulk_def Let_def)
qed

lemma mem_ok_write_bulk:
  assumes ok: "mem_ok M" and upd: "Memory_write_bulk src len off M = Some M'"
  shows "mem_ok M' \<and> m_size M' = m_size M"
proof (cases src)
  case None
  with assms show ?thesis by (simp add: Memory_write_bulk_def)
next
  case (Some xs)
  have "clamped M off len \<noteq> 0 \<Longrightarrow> unat off + clamped M off len \<le> m_size M"
    by (auto simp: clamped_def)
  then show ?thesis
    using assms by (auto simp: Some write_bulk_eq mem_ok_def split: if_splits)
qed

lemma read_bulk_eq:
  "Memory_read_bulk (Some xs) len off M =
     (if length xs < clamped M off len then None
      else Some (Some (take (clamped M off len) (drop (unat off) (m_bytes M))
             @ drop (clamped M off len) xs)))"
proof (cases "len \<le> 0 \<or> m_size M \<le> unat off")
  case True
  then show ?thesis by (auto simp: Memory_read_bulk_def clamped_def)
next
  case False
  then have "nat (if len > int (m_size M) - int (unat off)
      then int (m_size M) - int (unat off) else len) = clamped M off len"
    using nat_clamp [of len "unat off" "m_size M"] by (simp only: clamped_def) auto
  with False show ?thesis
    by (simp add: Memory_read_bulk_def Let_def)
qed

lemma write_bulk_nth:
  assumes "mem_ok M" and "Memory_write_bulk (Some xs) len off M = Some M'" and "i < m_size M"
  shows "m_bytes M' ! i =
    (if unat off \<le> i \<and> i < unat off + clamped M off len then xs ! (i - unat off)
     else m_bytes M ! i)"
proof -
  let ?c = "clamped M off len"
  from assms(2) have xs: "?c \<le> length xs"
    and M': "?c = 0 \<and> M' = M \<or> ?c \<noteq> 0 \<and> m_bytes M' = take (unat off) (m_bytes M) @ take ?c xs
      @ drop (unat off + ?c) (m_bytes M)"
    by (auto simp: write_bulk_eq split: if_splits)
  have len: "length (m_bytes M) = m_size M"
    using assms(1) by simp
  show ?thesis
  proof (cases "?c = 0")
    case True
    with M' show ?thesis by auto
  next
    case False
    then have fit: "unat off + ?c \<le> m_size M"
      by (auto simp: clamped_def)
    have bytes: "m_bytes M' = take (unat off) (m_bytes M) @ take ?c xs
        @ drop (unat off + ?c) (m_bytes M)"
      using M' False by simp
    show ?thesis
      using fit xs len assms(3) by (auto simp: bytes nth_append min_def)
  qed
qed

section \<open>Memory properties\<close>

text \<open>
  C28: Every access lands in the buffer and the memory repeats itself through the address space: an
  address denotes its remainder by the size, so a read sees the last write to any mirror of its
  cell and no other, and writing keeps the memory well-formed. The memory of a constructor is
  well-formed, with one page when none are asked for.
\<close>

theorem memory_mirrors:
  assumes "mem_ok M"
  shows "checkAddress M ad < length (m_bytes M) \<and> checkAddress M ad = unat ad mod m_size M
    \<and> Memory_read b (Memory_write a v M)
        = (if unat b mod m_size M = unat a mod m_size M then v else Memory_read b M)
    \<and> mem_ok (Memory_write a v M)
    \<and> mem_ok (Memory_new pages) \<and> m_size (Memory_new pages) = 256 * max 1 (unat pages)"
proof -
  have "max 1 (unat pages) = unat pages" if "pages \<noteq> 0"
    using that unat_gt_0 [of pages] by simp
  then have "m_size (Memory_new pages) = 256 * max 1 (unat pages)"
    by (simp add: Memory_new_def MAX_BYTES_PER_PAGE_def Let_def)
  with assms show ?thesis
    using checkAddress_in_range [OF assms, of ad] by (simp add: checkAddress_mod Memory_read_write)
qed

lemma memory_mirrors_witness:
  "Memory_read 0x0405 (Memory_write 0x0005 7 (Memory_new 4)) = 7"
proof -
  have "m_size (Memory_new 4) = 1024"
    by (simp add: Memory_new_def MAX_BYTES_PER_PAGE_def Let_def)
  then show ?thesis
    using memory_mirrors [OF mem_ok_new, of 4 0 "0x0405" "0x0005" 7 4] by simp
qed

text \<open>
  A bulk write is clamped to the memory: whatever length and offset it is called with, it changes
  exactly the \<open>clamped\<close> cells from the offset on, to the caller's bytes, and it has a defined result
  whenever the caller's buffer holds that many bytes; reading the same range back returns them.
\<close>

theorem bulk_write_clamped:
  assumes "mem_ok M" and "clamped M off len \<le> length xs"
  shows "\<exists>M'. Memory_write_bulk (Some xs) len off M = Some M' \<and> mem_ok M' \<and> m_size M' = m_size M
    \<and> (\<forall>i < m_size M. m_bytes M' ! i =
        (if unat off \<le> i \<and> i < unat off + clamped M off len then xs ! (i - unat off)
         else m_bytes M ! i))
    \<and> Memory_read_bulk (Some xs) len off M' = Some (Some xs)"
proof -
  obtain M' where M': "Memory_write_bulk (Some xs) len off M = Some M'"
    using assms(2) by (cases "Memory_write_bulk (Some xs) len off M") (simp_all add: write_bulk_eq split: if_splits)
  note ok = mem_ok_write_bulk [OF assms(1) M']
  have c: "clamped M' off len = clamped M off len"
    using ok by (simp add: clamped_def)
  have "take (clamped M off len) (drop (unat off) (m_bytes M')) = take (clamped M off len) xs"
  proof (rule nth_equalityI)
    show "length (take (clamped M off len) (drop (unat off) (m_bytes M')))
        = length (take (clamped M off len) xs)"
      using ok assms(2) by (auto simp: clamped_def)
  next
    fix i assume "i < length (take (clamped M off len) (drop (unat off) (m_bytes M')))"
    then have "i < clamped M off len" "unat off + i < m_size M"
      using ok by auto
    then show "take (clamped M off len) (drop (unat off) (m_bytes M')) ! i
        = take (clamped M off len) xs ! i"
      using write_bulk_nth [OF assms(1) M', of "unat off + i"] ok by simp
  qed
  then have "Memory_read_bulk (Some xs) len off M' = Some (Some xs)"
    using assms(2) by (simp add: read_bulk_eq c)
  with M' ok write_bulk_nth [OF assms(1) M'] show ?thesis by blast
qed

lemma bulk_write_clamped_witness:
  "\<exists>M'. Memory_write_bulk (Some [1, 2, 3]) 1000 0x00FD (Memory_new 1) = Some M' \<and> mem_ok M'"
proof -
  have "m_size (Memory_new 1) = 256"
    by (simp add: Memory_new_def MAX_BYTES_PER_PAGE_def Let_def)
  then have "clamped (Memory_new 1) 0x00FD 1000 \<le> length [1, 2, 3 :: uint8]"
    by (simp add: clamped_def)
  from bulk_write_clamped [OF mem_ok_new this] show ?thesis by blast
qed

end
