(* ===== verification/CPU_Registers.thy ===== *)
theory CPU_Registers
  imports Prelude
begin

text \<open>
  \<^verbatim>\<open>include/6502cc/emu_base.h\<close>: the status-register masks and the \<open>Registers\<close> struct with
  \<open>setStatus\<close> and \<open>getStatus\<close>. The C++ field names \<open>a\<close>, \<open>x\<close>, \<open>y\<close>, \<open>sr\<close>, \<open>sp\<close>, \<open>pc\<close> carry the
  prefix \<open>reg_\<close> here. The lemmas say that the eight flags are independent of each other and
  that they determine the status byte.
\<close>

section \<open>The flag masks\<close>

definition FLAG_C :: uint8 where [flag_defs]: "FLAG_C = 0x01"
definition FLAG_Z :: uint8 where [flag_defs]: "FLAG_Z = 0x02"
definition FLAG_I :: uint8 where [flag_defs]: "FLAG_I = 0x04"
definition FLAG_D :: uint8 where [flag_defs]: "FLAG_D = 0x08"
definition FLAG_B :: uint8 where [flag_defs]: "FLAG_B = 0x10"
definition FLAG_U :: uint8 where [flag_defs]: "FLAG_U = 0x20"
definition FLAG_V :: uint8 where [flag_defs]: "FLAG_V = 0x40"
definition FLAG_N :: uint8 where [flag_defs]: "FLAG_N = 0x80"

section \<open>The register file\<close>

record Registers =
  reg_a :: uint8
  reg_x :: uint8
  reg_y :: uint8
  reg_sr :: uint8
  reg_sp :: uint8
  reg_pc :: uint16
  decimalDisabled :: bool

definition setStatus :: "uint8 \<Rightarrow> bool \<Rightarrow> Registers \<Rightarrow> Registers" where
  "setStatus flag v r =
     (if v then r\<lparr>reg_sr := reg_sr r OR flag\<rparr> else r\<lparr>reg_sr := reg_sr r AND NOT flag\<rparr>)"

definition getStatus :: "uint8 \<Rightarrow> Registers \<Rightarrow> bool" where
  "getStatus flag r \<longleftrightarrow> reg_sr r AND flag \<noteq> 0"

text \<open>A register file of all zero bytes, as \<^verbatim>\<open>memset(regs, 0, sizeof(Registers))\<close> leaves it.\<close>

definition Registers_zero :: Registers where
  "Registers_zero = \<lparr>reg_a = 0, reg_x = 0, reg_y = 0, reg_sr = 0, reg_sp = 0, reg_pc = 0,
     decimalDisabled = False\<rparr>"

section \<open>Frame: a flag update writes the status byte only\<close>

lemma setStatus_frame [simp]:
  "reg_a (setStatus f v r) = reg_a r"
  "reg_x (setStatus f v r) = reg_x r"
  "reg_y (setStatus f v r) = reg_y r"
  "reg_sp (setStatus f v r) = reg_sp r"
  "reg_pc (setStatus f v r) = reg_pc r"
  "decimalDisabled (setStatus f v r) = decimalDisabled r"
  by (simp_all add: setStatus_def)

lemma getStatus_frame [simp]:
  "getStatus f (r\<lparr>reg_a := w\<rparr>) = getStatus f r"
  "getStatus f (r\<lparr>reg_x := w\<rparr>) = getStatus f r"
  "getStatus f (r\<lparr>reg_y := w\<rparr>) = getStatus f r"
  "getStatus f (r\<lparr>reg_sp := w\<rparr>) = getStatus f r"
  "getStatus f (r\<lparr>reg_pc := u\<rparr>) = getStatus f r"
  "getStatus f (r\<lparr>decimalDisabled := d\<rparr>) = getStatus f r"
  by (simp_all add: getStatus_def)

section \<open>The flags are independent\<close>

lemma mask_set_clear:
  fixes w f :: uint8
  shows "(w OR f) AND f = f" and "(w AND NOT f) AND f = 0"
  by (rule bit_word_eqI; auto simp: bit_simps)+

lemma mask_other:
  fixes w f g :: uint8
  assumes "g AND f = 0"
  shows "(w OR g) AND f = w AND f" and "(w AND NOT g) AND f = w AND f"
proof -
  have disjoint: "\<not> (bit g n \<and> bit f n)" for n
    using assms by (metis bit_0_eq bit_and_iff bot_apply bot_bool_def)
  show "(w OR g) AND f = w AND f" and "(w AND NOT g) AND f = w AND f"
    by (rule bit_word_eqI; use disjoint in \<open>auto simp: bit_simps\<close>)+
qed

lemma getStatus_setStatus_same: "f \<noteq> 0 \<Longrightarrow> getStatus f (setStatus f v r) = v"
  by (simp add: getStatus_def setStatus_def mask_set_clear)

lemma getStatus_setStatus_other:
  "g AND f = 0 \<Longrightarrow> getStatus f (setStatus g v r) = getStatus f r"
  by (simp add: getStatus_def setStatus_def mask_other)

lemma flags_nonzero [simp]:
  "FLAG_C \<noteq> 0" "FLAG_Z \<noteq> 0" "FLAG_I \<noteq> 0" "FLAG_D \<noteq> 0"
  "FLAG_B \<noteq> 0" "FLAG_U \<noteq> 0" "FLAG_V \<noteq> 0" "FLAG_N \<noteq> 0"
  by (simp_all add: flag_defs)

text \<open>Each flag is one bit of the status byte, so its mask can be read and written by index.\<close>

lemma FLAG_exp:
  "FLAG_C = 2 ^ 0" "FLAG_Z = 2 ^ 1" "FLAG_I = 2 ^ 2" "FLAG_D = 2 ^ 3"
  "FLAG_B = 2 ^ 4" "FLAG_U = 2 ^ 5" "FLAG_V = 2 ^ 6" "FLAG_N = 2 ^ 7"
  by (simp_all add: flag_defs)

lemma getStatus_bit [byte_simps]:
  "getStatus FLAG_C r \<longleftrightarrow> bit (reg_sr r) 0"
  "getStatus FLAG_Z r \<longleftrightarrow> bit (reg_sr r) 1"
  "getStatus FLAG_I r \<longleftrightarrow> bit (reg_sr r) 2"
  "getStatus FLAG_D r \<longleftrightarrow> bit (reg_sr r) 3"
  "getStatus FLAG_B r \<longleftrightarrow> bit (reg_sr r) 4"
  "getStatus FLAG_U r \<longleftrightarrow> bit (reg_sr r) 5"
  "getStatus FLAG_V r \<longleftrightarrow> bit (reg_sr r) 6"
  "getStatus FLAG_N r \<longleftrightarrow> bit (reg_sr r) 7"
  unfolding getStatus_def FLAG_exp by (simp_all only: and_exp_eq_0_iff_not_bit not_not)

lemma bit_FLAG [byte_simps]:
  "bit FLAG_C n \<longleftrightarrow> n = 0" "bit FLAG_Z n \<longleftrightarrow> n = 1" "bit FLAG_I n \<longleftrightarrow> n = 2"
  "bit FLAG_D n \<longleftrightarrow> n = 3" "bit FLAG_B n \<longleftrightarrow> n = 4" "bit FLAG_U n \<longleftrightarrow> n = 5"
  "bit FLAG_V n \<longleftrightarrow> n = 6" "bit FLAG_N n \<longleftrightarrow> n = 7"
  unfolding FLAG_exp bit_exp_iff by (auto simp: possible_bit_def)

lemma getStatus_setStatus [simp]:
  "getStatus FLAG_C (setStatus FLAG_C v r) = v"
  "getStatus FLAG_Z (setStatus FLAG_Z v r) = v"
  "getStatus FLAG_I (setStatus FLAG_I v r) = v"
  "getStatus FLAG_D (setStatus FLAG_D v r) = v"
  "getStatus FLAG_B (setStatus FLAG_B v r) = v"
  "getStatus FLAG_U (setStatus FLAG_U v r) = v"
  "getStatus FLAG_V (setStatus FLAG_V v r) = v"
  "getStatus FLAG_N (setStatus FLAG_N v r) = v"
  by (simp_all add: getStatus_setStatus_same)

lemma getStatus_setStatus_C [simp]:
  "getStatus FLAG_Z (setStatus FLAG_C v r) = getStatus FLAG_Z r"
  "getStatus FLAG_I (setStatus FLAG_C v r) = getStatus FLAG_I r"
  "getStatus FLAG_D (setStatus FLAG_C v r) = getStatus FLAG_D r"
  "getStatus FLAG_B (setStatus FLAG_C v r) = getStatus FLAG_B r"
  "getStatus FLAG_U (setStatus FLAG_C v r) = getStatus FLAG_U r"
  "getStatus FLAG_V (setStatus FLAG_C v r) = getStatus FLAG_V r"
  "getStatus FLAG_N (setStatus FLAG_C v r) = getStatus FLAG_N r"
  by (simp_all add: getStatus_setStatus_other flag_defs)

lemma getStatus_setStatus_Z [simp]:
  "getStatus FLAG_C (setStatus FLAG_Z v r) = getStatus FLAG_C r"
  "getStatus FLAG_I (setStatus FLAG_Z v r) = getStatus FLAG_I r"
  "getStatus FLAG_D (setStatus FLAG_Z v r) = getStatus FLAG_D r"
  "getStatus FLAG_B (setStatus FLAG_Z v r) = getStatus FLAG_B r"
  "getStatus FLAG_U (setStatus FLAG_Z v r) = getStatus FLAG_U r"
  "getStatus FLAG_V (setStatus FLAG_Z v r) = getStatus FLAG_V r"
  "getStatus FLAG_N (setStatus FLAG_Z v r) = getStatus FLAG_N r"
  by (simp_all add: getStatus_setStatus_other flag_defs)

lemma getStatus_setStatus_I [simp]:
  "getStatus FLAG_C (setStatus FLAG_I v r) = getStatus FLAG_C r"
  "getStatus FLAG_Z (setStatus FLAG_I v r) = getStatus FLAG_Z r"
  "getStatus FLAG_D (setStatus FLAG_I v r) = getStatus FLAG_D r"
  "getStatus FLAG_B (setStatus FLAG_I v r) = getStatus FLAG_B r"
  "getStatus FLAG_U (setStatus FLAG_I v r) = getStatus FLAG_U r"
  "getStatus FLAG_V (setStatus FLAG_I v r) = getStatus FLAG_V r"
  "getStatus FLAG_N (setStatus FLAG_I v r) = getStatus FLAG_N r"
  by (simp_all add: getStatus_setStatus_other flag_defs)

lemma getStatus_setStatus_D [simp]:
  "getStatus FLAG_C (setStatus FLAG_D v r) = getStatus FLAG_C r"
  "getStatus FLAG_Z (setStatus FLAG_D v r) = getStatus FLAG_Z r"
  "getStatus FLAG_I (setStatus FLAG_D v r) = getStatus FLAG_I r"
  "getStatus FLAG_B (setStatus FLAG_D v r) = getStatus FLAG_B r"
  "getStatus FLAG_U (setStatus FLAG_D v r) = getStatus FLAG_U r"
  "getStatus FLAG_V (setStatus FLAG_D v r) = getStatus FLAG_V r"
  "getStatus FLAG_N (setStatus FLAG_D v r) = getStatus FLAG_N r"
  by (simp_all add: getStatus_setStatus_other flag_defs)

lemma getStatus_setStatus_V [simp]:
  "getStatus FLAG_C (setStatus FLAG_V v r) = getStatus FLAG_C r"
  "getStatus FLAG_Z (setStatus FLAG_V v r) = getStatus FLAG_Z r"
  "getStatus FLAG_I (setStatus FLAG_V v r) = getStatus FLAG_I r"
  "getStatus FLAG_D (setStatus FLAG_V v r) = getStatus FLAG_D r"
  "getStatus FLAG_B (setStatus FLAG_V v r) = getStatus FLAG_B r"
  "getStatus FLAG_U (setStatus FLAG_V v r) = getStatus FLAG_U r"
  "getStatus FLAG_N (setStatus FLAG_V v r) = getStatus FLAG_N r"
  by (simp_all add: getStatus_setStatus_other flag_defs)

lemma getStatus_setStatus_N [simp]:
  "getStatus FLAG_C (setStatus FLAG_N v r) = getStatus FLAG_C r"
  "getStatus FLAG_Z (setStatus FLAG_N v r) = getStatus FLAG_Z r"
  "getStatus FLAG_I (setStatus FLAG_N v r) = getStatus FLAG_I r"
  "getStatus FLAG_D (setStatus FLAG_N v r) = getStatus FLAG_D r"
  "getStatus FLAG_B (setStatus FLAG_N v r) = getStatus FLAG_B r"
  "getStatus FLAG_U (setStatus FLAG_N v r) = getStatus FLAG_U r"
  "getStatus FLAG_V (setStatus FLAG_N v r) = getStatus FLAG_V r"
  by (simp_all add: getStatus_setStatus_other flag_defs)

section \<open>The eight flags determine the status byte\<close>

lemma sr_eqI:
  assumes "getStatus FLAG_C r = getStatus FLAG_C s" "getStatus FLAG_Z r = getStatus FLAG_Z s"
    and "getStatus FLAG_I r = getStatus FLAG_I s" "getStatus FLAG_D r = getStatus FLAG_D s"
    and "getStatus FLAG_B r = getStatus FLAG_B s" "getStatus FLAG_U r = getStatus FLAG_U s"
    and "getStatus FLAG_V r = getStatus FLAG_V s" "getStatus FLAG_N r = getStatus FLAG_N s"
  shows "reg_sr r = reg_sr s"
proof (rule bit_word_eqI)
  fix n assume "n < LENGTH(8)"
  then consider "n = 0" | "n = 1" | "n = 2" | "n = 3" | "n = 4" | "n = 5" | "n = 6" | "n = 7"
    by fastforce
  then show "bit (reg_sr r) n = bit (reg_sr s) n"
    using assms by cases (simp_all add: byte_simps)
qed

lemma Registers_eqI:
  assumes "reg_a r = reg_a s" "reg_x r = reg_x s" "reg_y r = reg_y s" "reg_sp r = reg_sp s"
    and "reg_pc r = reg_pc s" "decimalDisabled r = decimalDisabled s" "reg_sr r = reg_sr s"
  shows "r = (s :: Registers)"
  using assms by (cases r; cases s) simp

end
