(* ===== verification/System_Bus.thy ===== *)
theory System_Bus
  imports Flat_Memory CPU_Registers
begin

text \<open>
  \<^verbatim>\<open>include/6502cc/emu_bus.h\<close>, \<^verbatim>\<open>src/emu_bus.cpp\<close> and the stack helpers of \<^verbatim>\<open>src/Memory.cpp\<close>.
  \<open>Bus::read\<close> and \<open>Bus::write\<close> are virtual and are the extension point for memory-mapped devices,
  so a bus is its table of virtual functions (the record \<open>Bus\<close>) over a device state \<open>'b\<close>: reading
  may change that state. The base class is the instance \<open>default_Bus\<close>, whose state is the pointer
  to the connected \<open>Memory\<close>, null before \<open>connect\<close>. The instructions are proved for any bus; what
  they compute over RAM is proved in the locale \<open>ram_bus\<close>, whose laws say that the bus
  behaves as an array of 64 KB. \<open>Logging_Bus\<close> records the accesses made through any bus, as the
  \<open>LoggingBus\<close> of \<^verbatim>\<open>test_src/testCpu.cpp\<close> does.
\<close>

section \<open>The virtual interface and the base class\<close>

record 'b Bus =
  bus_read :: "uint16 \<Rightarrow> 'b \<Rightarrow> uint8 \<times> 'b"
  bus_write :: "uint16 \<Rightarrow> uint8 \<Rightarrow> 'b \<Rightarrow> 'b"

definition Bus_new :: "Memory option" where
  "Bus_new = None"

definition Bus_connect :: "Memory option \<Rightarrow> Memory option \<Rightarrow> Memory option" where
  "Bus_connect mem p_mem = mem"

definition Bus_read :: "uint16 \<Rightarrow> Memory option \<Rightarrow> uint8 \<times> Memory option" where
  "Bus_read address p_mem =
     (case p_mem of Some mem \<Rightarrow> (Memory_read address mem, p_mem) | None \<Rightarrow> (0, p_mem))"

definition Bus_write :: "uint16 \<Rightarrow> uint8 \<Rightarrow> Memory option \<Rightarrow> Memory option" where
  "Bus_write address val p_mem =
     (case p_mem of Some mem \<Rightarrow> Some (Memory_write address val mem) | None \<Rightarrow> p_mem)"

definition default_Bus :: "Memory option Bus" where
  "default_Bus = \<lparr>bus_read = Bus_read, bus_write = Bus_write\<rparr>"

section \<open>Recording the accesses\<close>

datatype access = Rd uint16 | Wr uint16 uint8

record 'b logged =
  lg_state :: 'b
  lg_trace :: "access list"

definition Logging_Bus :: "'b Bus \<Rightarrow> 'b logged Bus" where
  "Logging_Bus B =
     \<lparr>bus_read = (\<lambda>ad b. case bus_read B ad (lg_state b) of
        (v, b') \<Rightarrow> (v, b\<lparr>lg_state := b', lg_trace := lg_trace b @ [Rd ad]\<rparr>)),
      bus_write = (\<lambda>ad v b.
        b\<lparr>lg_state := bus_write B ad v (lg_state b), lg_trace := lg_trace b @ [Wr ad v]\<rparr>)\<rparr>"

definition trace_of :: "'b logged \<Rightarrow> access list" where
  "trace_of b = lg_trace b"

definition accesses :: "'b logged \<Rightarrow> nat" where
  "accesses b = length (trace_of b)"

lemma Logging_Bus_trace [simp]:
  "trace_of (snd (bus_read (Logging_Bus B) ad b)) = trace_of b @ [Rd ad]"
  "trace_of (bus_write (Logging_Bus B) ad v b) = trace_of b @ [Wr ad v]"
  by (simp_all add: Logging_Bus_def trace_of_def split: prod.splits)

lemma Logging_Bus_read:
  "bus_read (Logging_Bus B) ad b = (v, b') \<Longrightarrow> trace_of b' = trace_of b @ [Rd ad]"
  using Logging_Bus_trace(1) [of B ad b] by simp

section \<open>The stack\<close>

definition push8 :: "'b Bus \<Rightarrow> uint8 \<Rightarrow> Registers \<Rightarrow> 'b \<Rightarrow> Registers \<times> 'b" where
  "push8 B val r b =
     (let b = bus_write B (0x0100 + ucast (reg_sp r)) val b;
          r = r\<lparr>reg_sp := reg_sp r - 1\<rparr>
      in (r, b))"

definition push16 :: "'b Bus \<Rightarrow> uint16 \<Rightarrow> Registers \<Rightarrow> 'b \<Rightarrow> Registers \<times> 'b" where
  "push16 B val r b =
     (let b = bus_write B (0x0100 + ucast (reg_sp r)) (hi8 val) b;
          r = r\<lparr>reg_sp := reg_sp r - 1\<rparr>;
          b = bus_write B (0x0100 + ucast (reg_sp r)) (lo8 val) b;
          r = r\<lparr>reg_sp := reg_sp r - 1\<rparr>
      in (r, b))"

definition pop8 :: "'b Bus \<Rightarrow> Registers \<Rightarrow> 'b \<Rightarrow> uint8 \<times> Registers \<times> 'b" where
  "pop8 B r b =
     (let r = r\<lparr>reg_sp := reg_sp r + 1\<rparr>;
          (val, b) = bus_read B (0x0100 + ucast (reg_sp r)) b
      in (val, r, b))"

definition pop16 :: "'b Bus \<Rightarrow> Registers \<Rightarrow> 'b \<Rightarrow> uint16 \<times> Registers \<times> 'b" where
  "pop16 B r b =
     (let r = r\<lparr>reg_sp := reg_sp r + 1\<rparr>;
          (low, b) = bus_read B (0x0100 + ucast (reg_sp r)) b;
          r = r\<lparr>reg_sp := reg_sp r + 1\<rparr>;
          (high, b) = bus_read B (0x0100 + ucast (reg_sp r)) b
      in (le16 low high, r, b))"

section \<open>A bus that behaves as 64 KB of RAM\<close>

text \<open>
  \<open>view b\<close> is the contents of the address space in device state \<open>b\<close>. The laws are the array laws:
  a read returns the byte of the view and changes nothing visible, a write changes one byte.
\<close>

locale ram_bus =
  fixes B :: "'b Bus"
    and view :: "'b \<Rightarrow> uint16 \<Rightarrow> uint8"
    and inv :: "'b \<Rightarrow> bool"
  assumes read_value: "inv b \<Longrightarrow> bus_read B ad b = (v, b') \<Longrightarrow> v = view b ad"
    and read_view: "inv b \<Longrightarrow> bus_read B ad b = (v, b') \<Longrightarrow> view b' = view b"
    and read_inv: "inv b \<Longrightarrow> bus_read B ad b = (v, b') \<Longrightarrow> inv b'"
    and write_view: "inv b \<Longrightarrow> view (bus_write B ad v b) = (view b)(ad := v)"
    and write_inv: "inv b \<Longrightarrow> inv (bus_write B ad v b)"
begin

lemma readE:
  assumes "inv b"
  obtains b' where "bus_read B ad b = (view b ad, b')" "view b' = view b" "inv b'"
proof -
  obtain v b' where r: "bus_read B ad b = (v, b')"
    by (cases "bus_read B ad b") auto
  with assms have "v = view b ad" "view b' = view b" "inv b'"
    by (blast dest: read_value read_view read_inv)+
  with r that show ?thesis by blast
qed

lemma read_fst [simp]: "inv b \<Longrightarrow> fst (bus_read B ad b) = view b ad"
  by (rule readE [of b ad]) simp_all

lemma read_snd [simp]:
  "inv b \<Longrightarrow> view (snd (bus_read B ad b)) = view b"
  "inv b \<Longrightarrow> inv (snd (bus_read B ad b))"
  by (rule readE [of b ad]; simp)+

lemmas write_laws [simp] = write_view write_inv

lemma push8_ram:
  assumes "inv b" and "push8 B v r b = (r', b')"
  shows "inv b'" and "r' = r\<lparr>reg_sp := reg_sp r - 1\<rparr>"
    and "view b' = (view b)(0x0100 + ucast (reg_sp r) := v)"
  using assms by (auto simp: push8_def Let_def)

lemma push16_ram:
  assumes "inv b" and "push16 B v r b = (r', b')"
  shows "inv b'" and "r' = r\<lparr>reg_sp := reg_sp r - 2\<rparr>"
    and "view b' = (view b)(0x0100 + ucast (reg_sp r) := hi8 v,
           0x0100 + ucast (reg_sp r - 1) := lo8 v)"
  using assms by (auto simp: push16_def Let_def)

lemma pop8_ram:
  assumes "inv b" and "pop8 B r b = (v, r', b')"
  shows "inv b'" and "r' = r\<lparr>reg_sp := reg_sp r + 1\<rparr>" and "view b' = view b"
    and "v = view b (0x0100 + ucast (reg_sp r + 1))"
  using assms by (auto simp: pop8_def Let_def case_prod_beta)

lemma pop16_ram:
  assumes "inv b" and "pop16 B r b = (v, r', b')"
  shows "inv b'" and "r' = r\<lparr>reg_sp := reg_sp r + 2\<rparr>" and "view b' = view b"
    and "v = le16 (view b (0x0100 + ucast (reg_sp r + 1))) (view b (0x0100 + ucast (reg_sp r + 2)))"
  using assms by (auto simp: pop16_def Let_def case_prod_beta add.commute)

text \<open>A logged RAM is a RAM.\<close>

lemma logged_ram: "ram_bus (Logging_Bus B) (\<lambda>b. view (lg_state b)) (\<lambda>b. inv (lg_state b))"
  by unfold_locales (auto simp: Logging_Bus_def split: prod.splits
      dest: read_value read_view read_inv)

end

section \<open>The base bus over a full memory is RAM\<close>

definition full_memory :: "Memory option \<Rightarrow> bool" where
  "full_memory p_mem \<longleftrightarrow>
     (case p_mem of None \<Rightarrow> False | Some mem \<Rightarrow> mem_ok mem \<and> m_size mem = 65536)"

definition memory_view :: "Memory option \<Rightarrow> uint16 \<Rightarrow> uint8" where
  "memory_view p_mem ad = fst (Bus_read ad p_mem)"

interpretation flat: ram_bus default_Bus memory_view full_memory
proof (unfold_locales, goal_cases)
  case (4 b ad v)
  then obtain mem where b: "b = Some mem" and ok: "mem_ok mem" "m_size mem = 65536"
    by (auto simp: full_memory_def split: option.splits)
  have "checkAddress mem x = checkAddress mem ad \<longleftrightarrow> x = ad" for x
    using ok unat16_less [of x] unat16_less [of ad] by (auto simp: checkAddress_def intro: unsigned_word_eqI [where ?'a = nat])
  with b ok show ?case
    by (auto simp: default_Bus_def Bus_write_def memory_view_def Bus_read_def Memory_read_write)
qed (auto simp: default_Bus_def Bus_read_def Bus_write_def memory_view_def full_memory_def
      split: option.splits)

text \<open>
  The same contents as a function, the bus of a host that models its address space directly.
\<close>

definition array_Bus :: "(uint16 \<Rightarrow> uint8) Bus" where
  "array_Bus = \<lparr>bus_read = (\<lambda>ad m. (m ad, m)), bus_write = (\<lambda>ad v m. m(ad := v))\<rparr>"

interpretation array: ram_bus array_Bus "\<lambda>m. m" "\<lambda>_. True"
  by unfold_locales (auto simp: array_Bus_def)

section \<open>Stack properties\<close>

text \<open>
  Pushing a word and popping it gives the word back and restores the stack pointer and every
  other register, also when the pointer wraps around in page 1, and only the two cells below the
  old pointer may change, over any bus that behaves as RAM.
\<close>

theorem push_pop_word:
  assumes "ram_bus B view ok" and "ok b"
    and "push16 B w r b = (r1, b1)" and "pop16 B r1 b1 = (w', r2, b2)"
  shows "w' = w \<and> r2 = r \<and> (\<forall>ad. ad \<noteq> 0x0100 + ucast (reg_sp r) \<and>
    ad \<noteq> 0x0100 + ucast (reg_sp r - 1) \<longrightarrow> view b2 ad = view b ad)"
proof -
  note push = ram_bus.push16_ram [OF assms(1,2,3)]
  note pop = ram_bus.pop16_ram [OF assms(1) push(1) assms(4)]
  have "w' = le16 (view b1 (0x0100 + ucast (reg_sp r - 1))) (view b1 (0x0100 + ucast (reg_sp r)))"
    using pop(4) push(2) by simp
  moreover have "view b1 (0x0100 + ucast (reg_sp r - 1)) = lo8 w"
    "view b1 (0x0100 + ucast (reg_sp r)) = hi8 w"
    by (simp_all add: push(3))
  ultimately have "w' = w"
    by simp
  moreover have "r2 = r"
    using pop(2) push(2) by simp
  ultimately show ?thesis
    using pop(3) push(3) by simp
qed

lemma push_pop_word_witness:
  "fst (pop16 array_Bus (Registers_zero\<lparr>reg_sp := 0xFE\<rparr>)
     (snd (push16 array_Bus 0x1234 Registers_zero (\<lambda>_. 0)))) = 0x1234"
proof -
  let ?push = "push16 array_Bus 0x1234 Registers_zero (\<lambda>_. 0)"
  let ?pop = "pop16 array_Bus (fst ?push) (snd ?push)"
  have "fst ?push = Registers_zero\<lparr>reg_sp := 0xFE\<rparr>"
    by (simp add: push16_def Let_def Registers_zero_def)
  moreover have "fst ?pop = 0x1234"
    using push_pop_word [OF array.ram_bus_axioms, where b = "\<lambda>_. 0" and r = Registers_zero
        and w = "0x1234" and ?r1.0 = "fst ?push" and ?b1.0 = "snd ?push" and w' = "fst ?pop"
        and ?r2.0 = "fst (snd ?pop)" and ?b2.0 = "snd (snd ?pop)"] by simp
  ultimately show ?thesis by simp
qed

end
