(* ===== verification/Abstract_CPU.thy ===== *)
theory Abstract_CPU
  imports CPU_Registers
begin

text \<open>
  The programmer's model of the 6502 against which the emulator is verified: four byte registers,
  a program counter, six independent flag flip-flops and the chip option "has decimal circuitry".
  There is no status byte in it: a status byte exists only where one is pushed or pulled, and
  its bits 4 and 5 are not state. \<open>abs_cpu\<close> reads this model off the emulator's \<open>Registers\<close>. The
  arithmetic is stated on natural numbers and integers, not on words.
\<close>

section \<open>The abstract state\<close>

record cpu =
  cA :: uint8
  cX :: uint8
  cY :: uint8
  cS :: uint8
  cPC :: uint16
  fN :: bool
  fV :: bool
  fD :: bool
  fI :: bool
  fZ :: bool
  fC :: bool
  cBCD :: bool

definition abs_cpu :: "Registers \<Rightarrow> cpu" where
  "abs_cpu r = \<lparr>cA = reg_a r, cX = reg_x r, cY = reg_y r, cS = reg_sp r, cPC = reg_pc r,
     fN = getStatus FLAG_N r, fV = getStatus FLAG_V r, fD = getStatus FLAG_D r,
     fI = getStatus FLAG_I r, fZ = getStatus FLAG_Z r, fC = getStatus FLAG_C r,
     cBCD = (\<not> decimalDisabled r)\<rparr>"

lemma abs_cpu_select [simp]:
  "cA (abs_cpu r) = reg_a r" "cX (abs_cpu r) = reg_x r" "cY (abs_cpu r) = reg_y r"
  "cS (abs_cpu r) = reg_sp r" "cPC (abs_cpu r) = reg_pc r"
  "fN (abs_cpu r) = getStatus FLAG_N r" "fV (abs_cpu r) = getStatus FLAG_V r"
  "fD (abs_cpu r) = getStatus FLAG_D r" "fI (abs_cpu r) = getStatus FLAG_I r"
  "fZ (abs_cpu r) = getStatus FLAG_Z r" "fC (abs_cpu r) = getStatus FLAG_C r"
  "cBCD (abs_cpu r) = (\<not> decimalDisabled r)"
  by (simp_all add: abs_cpu_def)

lemma abs_cpu_update [simp]:
  "abs_cpu (r\<lparr>reg_a := v\<rparr>) = (abs_cpu r)\<lparr>cA := v\<rparr>"
  "abs_cpu (r\<lparr>reg_x := v\<rparr>) = (abs_cpu r)\<lparr>cX := v\<rparr>"
  "abs_cpu (r\<lparr>reg_y := v\<rparr>) = (abs_cpu r)\<lparr>cY := v\<rparr>"
  "abs_cpu (r\<lparr>reg_sp := v\<rparr>) = (abs_cpu r)\<lparr>cS := v\<rparr>"
  "abs_cpu (r\<lparr>reg_pc := u\<rparr>) = (abs_cpu r)\<lparr>cPC := u\<rparr>"
  "abs_cpu (r\<lparr>decimalDisabled := t\<rparr>) = (abs_cpu r)\<lparr>cBCD := (\<not> t)\<rparr>"
  "abs_cpu (setStatus FLAG_N t r) = (abs_cpu r)\<lparr>fN := t\<rparr>"
  "abs_cpu (setStatus FLAG_V t r) = (abs_cpu r)\<lparr>fV := t\<rparr>"
  "abs_cpu (setStatus FLAG_D t r) = (abs_cpu r)\<lparr>fD := t\<rparr>"
  "abs_cpu (setStatus FLAG_I t r) = (abs_cpu r)\<lparr>fI := t\<rparr>"
  "abs_cpu (setStatus FLAG_Z t r) = (abs_cpu r)\<lparr>fZ := t\<rparr>"
  "abs_cpu (setStatus FLAG_C t r) = (abs_cpu r)\<lparr>fC := t\<rparr>"
  by (simp_all add: abs_cpu_def)

section \<open>Status bytes\<close>

text \<open>
  The byte pushed by \<open>PHP\<close> and \<open>BRK\<close> (\<open>brk\<close> true) or by an interrupt (\<open>brk\<close> false), and the
  flags loaded by \<open>PLP\<close> and \<open>RTI\<close>.
\<close>

definition status_byte :: "bool \<Rightarrow> cpu \<Rightarrow> uint8" where
  "status_byte brk c =
     (if fN c then 0x80 else 0) OR (if fV c then 0x40 else 0) OR 0x20
     OR (if brk then 0x10 else 0) OR (if fD c then 0x08 else 0) OR (if fI c then 0x04 else 0)
     OR (if fZ c then 0x02 else 0) OR (if fC c then 0x01 else 0)"

definition load_status :: "uint8 \<Rightarrow> cpu \<Rightarrow> cpu" where
  "load_status v c = c\<lparr>fN := bit v 7, fV := bit v 6, fD := bit v 3, fI := bit v 2,
     fZ := bit v 1, fC := bit v 0\<rparr>"

lemma byte_index_cases:
  assumes "n < LENGTH(8)"
  obtains "n = 0" | "n = Suc 0" | "n = 2" | "n = 3" | "n = 4" | "n = 5" | "n = 6" | "n = 7"
  using assms by fastforce

lemma bit_status_byte:
  "bit (status_byte brk c) 0 = fC c" "bit (status_byte brk c) (Suc 0) = fZ c"
  "bit (status_byte brk c) 2 = fI c" "bit (status_byte brk c) 3 = fD c"
  "bit (status_byte brk c) 4 = brk" "bit (status_byte brk c) 5"
  "bit (status_byte brk c) 6 = fV c" "bit (status_byte brk c) 7 = fN c"
  unfolding status_byte_def flag_defs [symmetric] bit_or_iff if_distrib [of "\<lambda>w. bit w n" for n]
  by (simp_all add: byte_simps bit_simps)

text \<open>A pushed status byte, pulled again, restores every flag: bits 4 and 5 carry no state.\<close>

lemma load_status_byte [simp]: "load_status (status_byte brk c') c =
  c\<lparr>fN := fN c', fV := fV c', fD := fD c', fI := fI c', fZ := fZ c', fC := fC c'\<rparr>"
  by (simp add: load_status_def bit_status_byte)

lemma status_byte_frame [simp]:
  "status_byte brk (c\<lparr>cS := s\<rparr>) = status_byte brk c"
  "status_byte brk (c\<lparr>cPC := u\<rparr>) = status_byte brk c"
  by (simp_all add: status_byte_def)

lemma status_byte_php: "reg_sr r OR FLAG_B OR FLAG_U = status_byte True (abs_cpu r)"
proof (rule bit_word_eqI)
  fix n assume "n < LENGTH(8)"
  then show "bit (reg_sr r OR FLAG_B OR FLAG_U) n = bit (status_byte True (abs_cpu r)) n"
    by (rule byte_index_cases) (simp_all add: bit_status_byte byte_simps bit_simps)
qed

lemma status_byte_irq: "(reg_sr r AND NOT FLAG_B) OR FLAG_U = status_byte False (abs_cpu r)"
proof (rule bit_word_eqI)
  fix n assume "n < LENGTH(8)"
  then show "bit ((reg_sr r AND NOT FLAG_B) OR FLAG_U) n = bit (status_byte False (abs_cpu r)) n"
    by (rule byte_index_cases) (simp_all add: bit_status_byte byte_simps bit_simps)
qed

lemma abs_cpu_pull: "abs_cpu (r\<lparr>reg_sr := (v AND NOT FLAG_B) OR FLAG_U\<rparr>) = load_status v (abs_cpu r)"
  by (simp add: abs_cpu_def load_status_def byte_simps bit_simps)

section \<open>Arithmetic\<close>

definition nz_spec :: "uint8 \<Rightarrow> cpu \<Rightarrow> cpu" where
  "nz_spec v c = c\<lparr>fZ := (v = 0), fN := (128 \<le> unat v)\<rparr>"

definition adc_binary :: "uint8 \<Rightarrow> cpu \<Rightarrow> cpu" where
  "adc_binary v c =
     (let s = unat (cA c) + unat v + of_bool (fC c);
          t = sint (cA c) + sint v + of_bool (fC c);
          res = of_nat s
      in c\<lparr>cA := res, fC := (256 \<le> s), fV := (t < -128 \<or> 127 < t),
           fZ := (res = 0), fN := (128 \<le> unat res)\<rparr>)"

definition adc_decimal :: "uint8 \<Rightarrow> cpu \<Rightarrow> cpu" where
  "adc_decimal v c =
     (let s = unat (cA c) + unat v + of_bool (fC c);
          low = unat (cA c) mod 16 + unat v mod 16 + of_bool (fC c);
          t = (if 9 < low then s + 6 else s);
          u = (if 0x99 < t then t + 0x60 else t)
      in c\<lparr>cA := of_nat u, fC := (0x99 < t), fZ := (s mod 256 = 0), fN := (128 \<le> t mod 256),
           fV := ((128 \<le> unat (cA c)) = (128 \<le> unat v) \<and>
                  (128 \<le> unat (cA c)) \<noteq> (128 \<le> t mod 256))\<rparr>)"

definition adc_spec :: "uint8 \<Rightarrow> cpu \<Rightarrow> cpu" where
  "adc_spec v c = (if cBCD c \<and> fD c then adc_decimal v c else adc_binary v c)"

definition sbc_binary :: "uint8 \<Rightarrow> cpu \<Rightarrow> cpu" where
  "sbc_binary v c =
     (let d = int (unat (cA c)) - int (unat v) - of_bool (\<not> fC c);
          t = sint (cA c) - sint v - of_bool (\<not> fC c);
          res = of_int d
      in c\<lparr>cA := res, fC := (0 \<le> d), fV := (t < -128 \<or> 127 < t),
           fZ := (res = 0), fN := (128 \<le> unat res)\<rparr>)"

definition sbc_decimal :: "uint8 \<Rightarrow> cpu \<Rightarrow> cpu" where
  "sbc_decimal v c =
     (let d = int (unat (cA c)) - int (unat v) - of_bool (\<not> fC c);
          low = int (unat (cA c) mod 16) - int (unat v mod 16) - of_bool (\<not> fC c);
          e = (if low < 0 then d - 6 else d);
          u = (if e < 0 \<or> 0x99 < e then e - 0x60 else e)
      in (sbc_binary v c)\<lparr>cA := of_int u, fC := (0 \<le> e)\<rparr>)"

definition sbc_spec :: "uint8 \<Rightarrow> cpu \<Rightarrow> cpu" where
  "sbc_spec v c = (if cBCD c \<and> fD c then sbc_decimal v c else sbc_binary v c)"

definition cmp_spec :: "uint8 \<Rightarrow> uint8 \<Rightarrow> cpu \<Rightarrow> cpu" where
  "cmp_spec reg v c = c\<lparr>fC := (v \<le> reg), fZ := (reg = v), fN := (128 \<le> unat (reg - v))\<rparr>"

end
