(* ===== verification/Operand_Spec.thy ===== *)
theory Operand_Spec
  imports Abstract_CPU
begin

text \<open>
  Addressing modes as the programmer's manual gives them: from the registers, the program counter
  (at the operand) and the memory, a mode denotes a place, and a place can be read, written and
  may cost a page-crossing cycle. There is no bus and no order of accesses here; the policies of
  \<open>Addressing_Modes\<close> are proved to implement this.
\<close>

type_synonym mem = "uint16 \<Rightarrow> uint8"

section \<open>Places\<close>

text \<open>
  \<open>LMem base ea\<close> is the cell \<open>ea\<close> reached from \<open>base\<close> by indexing, \<open>LZp\<close> a cell of the zero page,
  \<open>LInd\<close> the cell of the indirect jump, whose second byte stays in its page.
\<close>

datatype place =
    LNone
  | LAcc
  | LVal uint16
  | LZp uint8
  | LMem uint16 uint16
  | LInd uint16

definition page :: "uint16 \<Rightarrow> uint8" where
  "page ad = hi8 ad"

fun fetch8 :: "place \<Rightarrow> cpu \<Rightarrow> mem \<Rightarrow> uint8" where
  "fetch8 LNone c m = 0"
| "fetch8 LAcc c m = cA c"
| "fetch8 (LVal v) c m = ucast v"
| "fetch8 (LZp z) c m = m (ucast z)"
| "fetch8 (LMem base ea) c m = m ea"
| "fetch8 (LInd ad) c m = m ad"

fun fetch16 :: "place \<Rightarrow> cpu \<Rightarrow> mem \<Rightarrow> uint16" where
  "fetch16 LNone c m = 0"
| "fetch16 LAcc c m = ucast (cA c)"
| "fetch16 (LVal v) c m = v"
| "fetch16 (LZp z) c m = le16 (m (ucast z)) (m (ucast (z + 1)))"
| "fetch16 (LMem base ea) c m = le16 (m ea) (m (ea + 1))"
| "fetch16 (LInd ad) c m = le16 (m ad) (m (le16 (lo8 ad + 1) (hi8 ad)))"

fun store_cpu :: "place \<Rightarrow> uint8 \<Rightarrow> cpu \<Rightarrow> cpu" where
  "store_cpu LAcc v c = c\<lparr>cA := v\<rparr>"
| "store_cpu _ v c = c"

fun store_mem :: "place \<Rightarrow> uint8 \<Rightarrow> mem \<Rightarrow> mem" where
  "store_mem (LZp z) v m = m(ucast z := v)"
| "store_mem (LMem base ea) v m = m(ea := v)"
| "store_mem _ v m = m"

fun penalty :: "place \<Rightarrow> int" where
  "penalty (LMem base ea) = (if page ea \<noteq> page base then 1 else 0)"
| "penalty _ = 0"

section \<open>The place a mode denotes\<close>

datatype Params =
    Null | Accumulator | Immediate | Relative | AbsConst
  | ZeroPage | ZeroPageX | ZeroPageY
  | Absolute | AbsoluteX | AbsoluteY
  | Indirect | IndirectX | IndirectY

definition zp_word :: "mem \<Rightarrow> uint8 \<Rightarrow> uint16" where
  "zp_word m z = le16 (m (ucast z)) (m (ucast (z + 1)))"

definition word_at :: "mem \<Rightarrow> uint16 \<Rightarrow> uint16" where
  "word_at m ad = le16 (m ad) (m (ad + 1))"

fun operand_len :: "Params \<Rightarrow> nat" where
  "operand_len Null = 0"
| "operand_len Accumulator = 0"
| "operand_len Immediate = 1"
| "operand_len Relative = 1"
| "operand_len AbsConst = 2"
| "operand_len ZeroPage = 1"
| "operand_len ZeroPageX = 1"
| "operand_len ZeroPageY = 1"
| "operand_len Absolute = 2"
| "operand_len AbsoluteX = 2"
| "operand_len AbsoluteY = 2"
| "operand_len Indirect = 2"
| "operand_len IndirectX = 1"
| "operand_len IndirectY = 1"

fun locate :: "Params \<Rightarrow> cpu \<Rightarrow> mem \<Rightarrow> place" where
  "locate Null c m = LNone"
| "locate Accumulator c m = LAcc"
| "locate Immediate c m = LVal (ucast (m (cPC c)))"
| "locate Relative c m = LVal (ucast (m (cPC c)))"
| "locate AbsConst c m = LVal (word_at m (cPC c))"
| "locate ZeroPage c m = LZp (m (cPC c))"
| "locate ZeroPageX c m = LZp (m (cPC c) + cX c)"
| "locate ZeroPageY c m = LZp (m (cPC c) + cY c)"
| "locate Absolute c m = (let ad = word_at m (cPC c) in LMem ad ad)"
| "locate AbsoluteX c m = (let ad = word_at m (cPC c) in LMem ad (ad + ucast (cX c)))"
| "locate AbsoluteY c m = (let ad = word_at m (cPC c) in LMem ad (ad + ucast (cY c)))"
| "locate Indirect c m = LInd (word_at m (cPC c))"
| "locate IndirectX c m = (let ad = zp_word m (m (cPC c) + cX c) in LMem ad ad)"
| "locate IndirectY c m = (let ad = zp_word m (m (cPC c)) in LMem ad (ad + ucast (cY c)))"

section \<open>The stack page\<close>

lemma page_plus_offset: "push_bit 8 (ucast (k :: uint8)) + ucast (s :: uint8) = le16 s k"
proof -
  have "push_bit 8 (ucast k) + ucast s = push_bit 8 (ucast k) OR (ucast s :: uint16)"
    by (rule disjunctive_add) (auto simp: bit_push_bit_iff bit_ucast_iff dest: bit_imp_le_length)
  then show ?thesis
    by (simp only: le16_def or.commute)
qed

lemma stack_address: "(0x0100 + ucast (s :: uint8) :: uint16) = le16 s 1"
  using page_plus_offset [of 1 s] by simp

lemma stack_page: "page (0x0100 + ucast (s :: uint8)) = 1"
  by (simp only: stack_address page_def hi8_le16)

lemma stack_distinct [simp]:
  "(0x0100 + ucast (s :: uint8) :: uint16) = 0x0100 + ucast t \<longleftrightarrow> s = t"
  by (metis stack_address lo8_le16)

lemma stack_not_vector [simp]: "hi8 v \<noteq> 1 \<Longrightarrow> v \<noteq> 0x0100 + ucast (s :: uint8)"
  by (metis stack_address hi8_le16)

section \<open>What a place does not depend on\<close>

lemma fetch8_cong: "cA c = cA c' \<Longrightarrow> fetch8 l c m = fetch8 l c' m"
  by (cases l) simp_all

lemma fetch16_cong: "cA c = cA c' \<Longrightarrow> fetch16 l c m = fetch16 l c' m"
  by (cases l) simp_all

lemma fetch_pc [simp]:
  "fetch8 l (c\<lparr>cPC := u\<rparr>) m = fetch8 l c m"
  "fetch16 l (c\<lparr>cPC := u\<rparr>) m = fetch16 l c m"
  by (cases l; simp)+

lemma store_twice [simp]:
  "store_cpu l v (store_cpu l w c) = store_cpu l v c"
  "store_mem l v (store_mem l w m) = store_mem l v m"
  by (cases l; simp)+

lemma store_cpu_frame [simp]:
  "store_cpu l v (nz_spec w c) = nz_spec w (store_cpu l v c)"
  "store_cpu l v (c\<lparr>fC := q\<rparr>) = (store_cpu l v c)\<lparr>fC := q\<rparr>"
  by (cases l; simp add: nz_spec_def)+

lemma fetch_store [simp]:
  "l = LAcc \<or> (\<exists>z. l = LZp z) \<or> (\<exists>b e. l = LMem b e) \<Longrightarrow>
    fetch8 l (store_cpu l v c) (store_mem l v m) = v"
  by auto

end
