(* ===== verification/Addressing_Modes.thy ===== *)
theory Addressing_Modes
  imports System_Bus Operand_Spec
begin

text \<open>
  \<^verbatim>\<open>src/parameters.h\<close>: the fourteen addressing-mode policies. Each C++ struct is a record of its
  members, and its member functions are definitions that return the changed members beside the
  result. The template parameter \<open>IParams\<close> of the instruction classes is the record \<open>IParams\<close> of
  the policy's operations, so an instruction is written once over it, as in the source. The
  sources default-construct a policy and call \<open>init\<close> on it in the next statement; \<open>p_init\<close> is
  the two together. Where C++ leaves the order of two reads in one expression open, the low byte
  is read first.
\<close>

section \<open>The members of the policies\<close>

record ParamsBase =
  m_crossed :: bool
  m_dummyDone :: bool

definition ParamsBase_new :: ParamsBase where
  "ParamsBase_new = \<lparr>m_crossed = False, m_dummyDone = False\<rparr>"

definition extraCycles :: "'a ParamsBase_scheme \<Rightarrow> int" where
  "extraCycles p = (if m_crossed p then 1 else 0)"

text \<open>The modes with a byte operand, those with a word operand, and the two that keep a
  resolved pointer.\<close>

record Params8 = ParamsBase +
  data8 :: uint8

record Params16 = ParamsBase +
  data16 :: uint16

record IndirectXState = Params8 +
  m_resolved :: bool
  m_addr :: uint16

record IndirectYState = Params8 +
  m_baseResolved :: bool
  m_base :: uint16

text \<open>The operations that an instruction template asks of its policy.\<close>

record ('p, 'b) IParams =
  p_init :: "'b Bus \<Rightarrow> Registers \<Rightarrow> 'b \<Rightarrow> 'p \<times> Registers \<times> 'b"
  p_dummyRead :: "'b Bus \<Rightarrow> Registers \<Rightarrow> 'p \<Rightarrow> 'b \<Rightarrow> 'p \<times> 'b"
  p_get8bit :: "'b Bus \<Rightarrow> Registers \<Rightarrow> 'p \<Rightarrow> 'b \<Rightarrow> uint8 \<times> 'p \<times> 'b"
  p_get16bit :: "'b Bus \<Rightarrow> Registers \<Rightarrow> 'p \<Rightarrow> 'b \<Rightarrow> uint16 \<times> 'p \<times> 'b"
  p_set8bit :: "'b Bus \<Rightarrow> uint8 \<Rightarrow> 'p \<Rightarrow> Registers \<Rightarrow> 'b \<Rightarrow> 'p \<times> Registers \<times> 'b"
  p_set16bit :: "'b Bus \<Rightarrow> uint16 \<Rightarrow> 'p \<Rightarrow> Registers \<Rightarrow> 'b \<Rightarrow> 'p \<times> Registers \<times> 'b"
  p_extraCycles :: "'p \<Rightarrow> int"

text \<open>The \<open>SHx\<close> family also asks for the address before indexing; three policies offer it.\<close>

record ('p, 'b) IndexedParams = "('p, 'b) IParams" +
  p_base :: "'b Bus \<Rightarrow> Registers \<Rightarrow> 'p \<Rightarrow> 'b \<Rightarrow> uint16 \<times> 'p \<times> 'b"

section \<open>Shared access patterns\<close>

definition READ16 :: "'b Bus \<Rightarrow> uint16 \<Rightarrow> 'b \<Rightarrow> uint16 \<times> 'b" where
  "READ16 B ad b =
     (let (lo, b) = bus_read B ad b;
          (hi, b) = bus_read B (ad + 1) b
      in (le16 lo hi, b))"

definition WRITE16 :: "'b Bus \<Rightarrow> uint16 \<Rightarrow> uint16 \<Rightarrow> 'b \<Rightarrow> 'b" where
  "WRITE16 B ad val b = bus_write B (ad + 1) (hi8 val) (bus_write B ad (lo8 val) b)"

definition ZP_READ16 :: "'b Bus \<Rightarrow> uint8 \<Rightarrow> 'b \<Rightarrow> uint16 \<times> 'b" where
  "ZP_READ16 B zp b =
     (let (lo, b) = bus_read B (ucast zp) b;
          (hi, b) = bus_read B (ucast (zp + 1)) b
      in (le16 lo hi, b))"

definition ZP_WRITE16 :: "'b Bus \<Rightarrow> uint8 \<Rightarrow> uint16 \<Rightarrow> 'b \<Rightarrow> 'b" where
  "ZP_WRITE16 B zp val b = bus_write B (ucast (zp + 1)) (hi8 val) (bus_write B (ucast zp) (lo8 val) b)"

text \<open>\<^verbatim>\<open>data = bus->read(regs->pc++)\<close>, and the two reads at \<open>regs->pc\<close> followed by
  \<^verbatim>\<open>regs->pc += 2\<close>: the \<open>init\<close> of every mode with a byte and with a word operand.\<close>

definition init8 :: "'b Bus \<Rightarrow> Registers \<Rightarrow> 'b \<Rightarrow> Params8 \<times> Registers \<times> 'b" where
  "init8 B r b =
     (let (v, b) = bus_read B (reg_pc r) b
      in (ParamsBase.extend ParamsBase_new (Params8.fields v), r\<lparr>reg_pc := reg_pc r + 1\<rparr>, b))"

definition init16 :: "'b Bus \<Rightarrow> Registers \<Rightarrow> 'b \<Rightarrow> Params16 \<times> Registers \<times> 'b" where
  "init16 B r b =
     (let (v, b) = READ16 B (reg_pc r) b
      in (ParamsBase.extend ParamsBase_new (Params16.fields v), r\<lparr>reg_pc := reg_pc r + 2\<rparr>, b))"

definition PG2ABS :: "uint8 \<Rightarrow> uint8 \<Rightarrow> uint16" where
  "PG2ABS pg ad = ucast ad OR push_bit 8 (ucast pg)"

text \<open>The empty \<open>dummyRead\<close> of the base struct, and the empty setters of the value modes.\<close>

definition dummyRead_none :: "'b Bus \<Rightarrow> Registers \<Rightarrow> 'p \<Rightarrow> 'b \<Rightarrow> 'p \<times> 'b" where
  "dummyRead_none B r p b = (p, b)"

definition set_none :: "'b Bus \<Rightarrow> 'v \<Rightarrow> 'p \<Rightarrow> Registers \<Rightarrow> 'b \<Rightarrow> 'p \<times> Registers \<times> 'b" where
  "set_none B val p r b = (p, r, b)"

section \<open>Modes that address no memory\<close>

definition NullParams :: "(ParamsBase, 'b) IParams" where
  "NullParams =
     \<lparr>p_init = (\<lambda>B r b. (ParamsBase_new, r, b)),
      p_dummyRead = dummyRead_none,
      p_get8bit = (\<lambda>B r p b. (0, p, b)),
      p_get16bit = (\<lambda>B r p b. (0, p, b)),
      p_set8bit = set_none,
      p_set16bit = set_none,
      p_extraCycles = extraCycles\<rparr>"

definition AccumulatorParams :: "(ParamsBase, 'b) IParams" where
  "AccumulatorParams =
     \<lparr>p_init = (\<lambda>B r b. (ParamsBase_new, r, b)),
      p_dummyRead = dummyRead_none,
      p_get8bit = (\<lambda>B r p b. (reg_a r, p, b)),
      p_get16bit = (\<lambda>B r p b. (ucast (reg_a r), p, b)),
      p_set8bit = (\<lambda>B val p r b. (p, r\<lparr>reg_a := val\<rparr>, b)),
      p_set16bit = (\<lambda>B val p r b. (p, r\<lparr>reg_a := ucast val\<rparr>, b)),
      p_extraCycles = extraCycles\<rparr>"

definition ImmediateParams :: "(Params8, 'b) IParams" where
  "ImmediateParams =
     \<lparr>p_init = init8,
      p_dummyRead = dummyRead_none,
      p_get8bit = (\<lambda>B r p b. (data8 p, p, b)),
      p_get16bit = (\<lambda>B r p b. (ucast (data8 p), p, b)),
      p_set8bit = set_none,
      p_set16bit = set_none,
      p_extraCycles = extraCycles\<rparr>"

definition RelativeParams :: "(Params8, 'b) IParams" where
  "RelativeParams =
     \<lparr>p_init = init8,
      p_dummyRead = dummyRead_none,
      p_get8bit = (\<lambda>B r p b. (data8 p, p, b)),
      p_get16bit = (\<lambda>B r p b. (ucast (data8 p), p, b)),
      p_set8bit = set_none,
      p_set16bit = set_none,
      p_extraCycles = extraCycles\<rparr>"

definition AbsConstParams :: "(Params16, 'b) IParams" where
  "AbsConstParams =
     \<lparr>p_init = init16,
      p_dummyRead = dummyRead_none,
      p_get8bit = (\<lambda>B r p b. (ucast (data16 p), p, b)),
      p_get16bit = (\<lambda>B r p b. (data16 p, p, b)),
      p_set8bit = set_none,
      p_set16bit = set_none,
      p_extraCycles = extraCycles\<rparr>"

section \<open>Zero-page modes\<close>

definition ZeroPageParams :: "(Params8, 'b) IParams" where
  "ZeroPageParams =
     \<lparr>p_init = init8,
      p_dummyRead = dummyRead_none,
      p_get8bit = (\<lambda>B r p b. let (v, b) = bus_read B (PG2ABS 0 (data8 p)) b in (v, p, b)),
      p_get16bit = (\<lambda>B r p b. let (v, b) = ZP_READ16 B (data8 p) b in (v, p, b)),
      p_set8bit = (\<lambda>B val p r b. (p, r, bus_write B (PG2ABS 0 (data8 p)) val b)),
      p_set16bit = (\<lambda>B val p r b. (p, r, ZP_WRITE16 B (data8 p) val b)),
      p_extraCycles = extraCycles\<rparr>"

definition zp_dummyRead :: "'b Bus \<Rightarrow> Registers \<Rightarrow> Params8 \<Rightarrow> 'b \<Rightarrow> Params8 \<times> 'b" where
  "zp_dummyRead B r p b =
     (if m_dummyDone p then (p, b)
      else
        let p = p\<lparr>m_dummyDone := True\<rparr>;
            (_, b) = bus_read B (PG2ABS 0 (data8 p)) b
        in (p, b))"

definition ZeroPageXParams :: "(Params8, 'b) IParams" where
  "ZeroPageXParams =
     \<lparr>p_init = init8,
      p_dummyRead = zp_dummyRead,
      p_get8bit = (\<lambda>B r p b.
        let (p, b) = zp_dummyRead B r p b;
            ad = data8 p + reg_x r;
            (v, b) = bus_read B (PG2ABS 0 ad) b
        in (v, p, b)),
      p_get16bit = (\<lambda>B r p b. let (v, b) = ZP_READ16 B (data8 p + reg_x r) b in (v, p, b)),
      p_set8bit = (\<lambda>B val p r b. (p, r, bus_write B (PG2ABS 0 (data8 p + reg_x r)) val b)),
      p_set16bit = (\<lambda>B val p r b. (p, r, ZP_WRITE16 B (data8 p + reg_x r) val b)),
      p_extraCycles = extraCycles\<rparr>"

definition ZeroPageYParams :: "(Params8, 'b) IParams" where
  "ZeroPageYParams =
     \<lparr>p_init = init8,
      p_dummyRead = zp_dummyRead,
      p_get8bit = (\<lambda>B r p b.
        let (p, b) = zp_dummyRead B r p b;
            ad = data8 p + reg_y r;
            (v, b) = bus_read B (PG2ABS 0 ad) b
        in (v, p, b)),
      p_get16bit = (\<lambda>B r p b. let (v, b) = ZP_READ16 B (data8 p + reg_y r) b in (v, p, b)),
      p_set8bit = (\<lambda>B val p r b. (p, r, bus_write B (PG2ABS 0 (data8 p + reg_y r)) val b)),
      p_set16bit = (\<lambda>B val p r b. (p, r, ZP_WRITE16 B (data8 p + reg_y r) val b)),
      p_extraCycles = extraCycles\<rparr>"

section \<open>Absolute and indirect modes\<close>

definition AbsoluteParams :: "(Params16, 'b) IParams" where
  "AbsoluteParams =
     \<lparr>p_init = init16,
      p_dummyRead = dummyRead_none,
      p_get8bit = (\<lambda>B r p b. let (v, b) = bus_read B (data16 p) b in (v, p, b)),
      p_get16bit = (\<lambda>B r p b. let (v, b) = READ16 B (data16 p) b in (v, p, b)),
      p_set8bit = (\<lambda>B val p r b. (p, r, bus_write B (data16 p) val b)),
      p_set16bit = (\<lambda>B val p r b. (p, r, WRITE16 B (data16 p) val b)),
      p_extraCycles = extraCycles\<rparr>"

text \<open>The address an indexed mode drives before the carry into the high byte is applied.\<close>

definition unfixed :: "uint16 \<Rightarrow> uint8 \<Rightarrow> uint16" where
  "unfixed base idx = (base AND 0xFF00) OR ((base + ucast idx) AND 0x00FF)"

definition crosses :: "uint16 \<Rightarrow> uint16 \<Rightarrow> bool" where
  "crosses ad base \<longleftrightarrow> ad AND 0xFF00 \<noteq> base AND 0xFF00"

definition AbsoluteX_addr :: "Registers \<Rightarrow> Params16 \<Rightarrow> uint16 \<times> Params16" where
  "AbsoluteX_addr r p =
     (let ad = data16 p + ucast (reg_x r) in (ad, p\<lparr>m_crossed := crosses ad (data16 p)\<rparr>))"

definition AbsoluteX_dummyRead :: "'b Bus \<Rightarrow> Registers \<Rightarrow> Params16 \<Rightarrow> 'b \<Rightarrow> Params16 \<times> 'b" where
  "AbsoluteX_dummyRead B r p b =
     (if m_dummyDone p then (p, b)
      else
        let p = p\<lparr>m_dummyDone := True\<rparr>;
            (_, b) = bus_read B (unfixed (data16 p) (reg_x r)) b
        in (p, b))"

definition AbsoluteXParams :: "(Params16, 'b) IndexedParams" where
  "AbsoluteXParams =
     \<lparr>p_init = init16,
      p_dummyRead = AbsoluteX_dummyRead,
      p_get8bit = (\<lambda>B r p b.
        let (ad, p) = AbsoluteX_addr r p;
            (p, b) = (if m_crossed p then AbsoluteX_dummyRead B r p b else (p, b));
            (v, b) = bus_read B ad b
        in (v, p, b)),
      p_get16bit = (\<lambda>B r p b.
        let (ad, p) = AbsoluteX_addr r p; (v, b) = READ16 B ad b in (v, p, b)),
      p_set8bit = (\<lambda>B val p r b.
        let (ad, p) = AbsoluteX_addr r p in (p, r, bus_write B ad val b)),
      p_set16bit = (\<lambda>B val p r b.
        let (ad, p) = AbsoluteX_addr r p in (p, r, WRITE16 B ad val b)),
      p_extraCycles = extraCycles,
      p_base = (\<lambda>B r p b. (data16 p, p, b))\<rparr>"

definition AbsoluteY_addr :: "Registers \<Rightarrow> Params16 \<Rightarrow> uint16 \<times> Params16" where
  "AbsoluteY_addr r p =
     (let ad = data16 p + ucast (reg_y r) in (ad, p\<lparr>m_crossed := crosses ad (data16 p)\<rparr>))"

definition AbsoluteY_dummyRead :: "'b Bus \<Rightarrow> Registers \<Rightarrow> Params16 \<Rightarrow> 'b \<Rightarrow> Params16 \<times> 'b" where
  "AbsoluteY_dummyRead B r p b =
     (if m_dummyDone p then (p, b)
      else
        let p = p\<lparr>m_dummyDone := True\<rparr>;
            (_, b) = bus_read B (unfixed (data16 p) (reg_y r)) b
        in (p, b))"

definition AbsoluteYParams :: "(Params16, 'b) IndexedParams" where
  "AbsoluteYParams =
     \<lparr>p_init = init16,
      p_dummyRead = AbsoluteY_dummyRead,
      p_get8bit = (\<lambda>B r p b.
        let (ad, p) = AbsoluteY_addr r p;
            (p, b) = (if m_crossed p then AbsoluteY_dummyRead B r p b else (p, b));
            (v, b) = bus_read B ad b
        in (v, p, b)),
      p_get16bit = (\<lambda>B r p b.
        let (ad, p) = AbsoluteY_addr r p; (v, b) = READ16 B ad b in (v, p, b)),
      p_set8bit = (\<lambda>B val p r b.
        let (ad, p) = AbsoluteY_addr r p in (p, r, bus_write B ad val b)),
      p_set16bit = (\<lambda>B val p r b.
        let (ad, p) = AbsoluteY_addr r p in (p, r, WRITE16 B ad val b)),
      p_extraCycles = extraCycles,
      p_base = (\<lambda>B r p b. (data16 p, p, b))\<rparr>"

text \<open>\<^verbatim>\<open>JMP ($nnnn)\<close>: the high byte of the vector comes from the same page.\<close>

definition IndirectParams :: "(Params16, 'b) IParams" where
  "IndirectParams =
     \<lparr>p_init = init16,
      p_dummyRead = dummyRead_none,
      p_get8bit = (\<lambda>B r p b. let (v, b) = bus_read B (data16 p) b in (v, p, b)),
      p_get16bit = (\<lambda>B r p b.
        let hi = (data16 p AND 0xFF00) OR ((data16 p + 1) AND 0x00FF);
            (l, b) = bus_read B (data16 p) b;
            (h, b) = bus_read B hi b
        in (le16 l h, p, b)),
      p_set8bit = set_none,
      p_set16bit = set_none,
      p_extraCycles = extraCycles\<rparr>"

definition IndirectX_init ::
  "'b Bus \<Rightarrow> Registers \<Rightarrow> 'b \<Rightarrow> IndirectXState \<times> Registers \<times> 'b" where
  "IndirectX_init B r b =
     (let (p, r, b) = init8 B r b
      in (Params8.extend p (IndirectXState.fields False 0), r, b))"

definition IndirectX_addr ::
  "'b Bus \<Rightarrow> Registers \<Rightarrow> IndirectXState \<Rightarrow> 'b \<Rightarrow> uint16 \<times> IndirectXState \<times> 'b" where
  "IndirectX_addr B r p b =
     (let (p, b) =
            (if \<not> m_resolved p then
               let zp = data8 p + reg_x r;
                   (a, b) = ZP_READ16 B zp b
               in (p\<lparr>m_addr := a, m_resolved := True\<rparr>, b)
             else (p, b))
      in (m_addr p, p, b))"

definition IndirectXParams :: "(IndirectXState, 'b) IParams" where
  "IndirectXParams =
     \<lparr>p_init = IndirectX_init,
      p_dummyRead = dummyRead_none,
      p_get8bit = (\<lambda>B r p b.
        let (ad, p, b) = IndirectX_addr B r p b; (v, b) = bus_read B ad b in (v, p, b)),
      p_get16bit = (\<lambda>B r p b.
        let (ad, p, b) = IndirectX_addr B r p b; (v, b) = READ16 B ad b in (v, p, b)),
      p_set8bit = (\<lambda>B val p r b.
        let (ad, p, b) = IndirectX_addr B r p b in (p, r, bus_write B ad val b)),
      p_set16bit = (\<lambda>B val p r b.
        let (ad, p, b) = IndirectX_addr B r p b in (p, r, WRITE16 B ad val b)),
      p_extraCycles = extraCycles\<rparr>"

definition IndirectY_init ::
  "'b Bus \<Rightarrow> Registers \<Rightarrow> 'b \<Rightarrow> IndirectYState \<times> Registers \<times> 'b" where
  "IndirectY_init B r b =
     (let (p, r, b) = init8 B r b
      in (Params8.extend p (IndirectYState.fields False 0), r, b))"

definition IndirectY_base ::
  "'b Bus \<Rightarrow> Registers \<Rightarrow> IndirectYState \<Rightarrow> 'b \<Rightarrow> uint16 \<times> IndirectYState \<times> 'b" where
  "IndirectY_base B r p b =
     (let (p, b) =
            (if \<not> m_baseResolved p then
               let (a, b) = ZP_READ16 B (data8 p) b
               in (p\<lparr>m_base := a, m_baseResolved := True\<rparr>, b)
             else (p, b))
      in (m_base p, p, b))"

definition IndirectY_addr ::
  "'b Bus \<Rightarrow> Registers \<Rightarrow> IndirectYState \<Rightarrow> 'b \<Rightarrow> uint16 \<times> IndirectYState \<times> 'b" where
  "IndirectY_addr B r p b =
     (let (ptr, p, b) = IndirectY_base B r p b;
          ad = ptr + ucast (reg_y r)
      in (ad, p\<lparr>m_crossed := crosses ad ptr\<rparr>, b))"

definition IndirectY_dummyRead ::
  "'b Bus \<Rightarrow> Registers \<Rightarrow> IndirectYState \<Rightarrow> 'b \<Rightarrow> IndirectYState \<times> 'b" where
  "IndirectY_dummyRead B r p b =
     (if m_dummyDone p then (p, b)
      else
        let p = p\<lparr>m_dummyDone := True\<rparr>;
            (ptr, p, b) = IndirectY_base B r p b;
            (_, b) = bus_read B (unfixed ptr (reg_y r)) b
        in (p, b))"

definition IndirectYParams :: "(IndirectYState, 'b) IndexedParams" where
  "IndirectYParams =
     \<lparr>p_init = IndirectY_init,
      p_dummyRead = IndirectY_dummyRead,
      p_get8bit = (\<lambda>B r p b.
        let (ad, p, b) = IndirectY_addr B r p b;
            (p, b) = (if m_crossed p then IndirectY_dummyRead B r p b else (p, b));
            (v, b) = bus_read B ad b
        in (v, p, b)),
      p_get16bit = (\<lambda>B r p b.
        let (ad, p, b) = IndirectY_addr B r p b; (v, b) = READ16 B ad b in (v, p, b)),
      p_set8bit = (\<lambda>B val p r b.
        let (ad, p, b) = IndirectY_addr B r p b in (p, r, bus_write B ad val b)),
      p_set16bit = (\<lambda>B val p r b.
        let (ad, p, b) = IndirectY_addr B r p b in (p, r, WRITE16 B ad val b)),
      p_extraCycles = extraCycles,
      p_base = IndirectY_base\<rparr>"

section \<open>The contract of a policy over RAM\<close>

text \<open>
  The state of a policy \<open>holds\<close> a place: what the operation resolves to, given the registers and
  the memory. \<open>init\<close> establishes it for the place the mode denotes, every operation keeps it
  (a store may overwrite the very pointer the place came from, but by then it is memoised), and
  reads and writes act on the place.
\<close>

definition store_reg :: "place \<Rightarrow> uint8 \<Rightarrow> Registers \<Rightarrow> Registers" where
  "store_reg l v r = (if l = LAcc then r\<lparr>reg_a := v\<rparr> else r)"

lemma abs_store_reg [simp]: "abs_cpu (store_reg l v r) = store_cpu l v (abs_cpu r)"
  by (cases l) (simp_all add: store_reg_def)

locale addressing_mode = ram_bus B view inv
  for B :: "'b Bus" and view :: "'b \<Rightarrow> uint16 \<Rightarrow> uint8" and inv :: "'b \<Rightarrow> bool" +
  fixes P :: "('p, 'b, 'z) IParams_scheme"
    and M :: Params
    and holds :: "'p \<Rightarrow> Registers \<Rightarrow> mem \<Rightarrow> place \<Rightarrow> bool"
  assumes init_law: "inv b \<Longrightarrow> p_init P B r b = (p, r', b') \<Longrightarrow>
      r' = r\<lparr>reg_pc := reg_pc r + of_nat (operand_len M)\<rparr> \<and> view b' = view b \<and> inv b' \<and>
      holds p r' (view b) (locate M (abs_cpu r) (view b))"
    and dummy_law: "inv b \<Longrightarrow> holds p r (view b) l \<Longrightarrow> p_dummyRead P B r p b = (p', b') \<Longrightarrow>
      view b' = view b \<and> inv b' \<and> holds p' r (view b) l"
    and get8_law: "inv b \<Longrightarrow> holds p r (view b) l \<Longrightarrow> p_get8bit P B r p b = (v, p', b') \<Longrightarrow>
      v = fetch8 l (abs_cpu r) (view b) \<and> view b' = view b \<and> inv b' \<and> holds p' r (view b) l \<and>
      p_extraCycles P p' = penalty l"
    and get16_law: "inv b \<Longrightarrow> holds p r (view b) l \<Longrightarrow> p_get16bit P B r p b = (w, p', b') \<Longrightarrow>
      w = fetch16 l (abs_cpu r) (view b) \<and> view b' = view b \<and> inv b' \<and> holds p' r (view b) l"
    and set8_law: "inv b \<Longrightarrow> holds p r (view b) l \<Longrightarrow> p_set8bit P B v p r b = (p', r', b') \<Longrightarrow>
      r' = store_reg l v r \<and> view b' = store_mem l v (view b) \<and> inv b' \<and>
      holds p' r' (view b') l"
    and index_law: "holds p r m l \<Longrightarrow> reg_x r' = reg_x r \<Longrightarrow> reg_y r' = reg_y r \<Longrightarrow>
      holds p r' m l"
begin

lemma initE:
  assumes "inv b"
  obtains p b' where
    "p_init P B r b = (p, r\<lparr>reg_pc := reg_pc r + of_nat (operand_len M)\<rparr>, b')"
    and "view b' = view b" and "inv b'"
    and "holds p (r\<lparr>reg_pc := reg_pc r + of_nat (operand_len M)\<rparr>) (view b)
      (locate M (abs_cpu r) (view b))"
  using init_law [OF assms, of r] by (cases "p_init P B r b") auto

text \<open>The three ways an instruction uses its policy.\<close>

lemma read_path:
  assumes "inv b"
  obtains p1 b1 p2 b2 where
    "p_init P B r b = (p1, r\<lparr>reg_pc := reg_pc r + of_nat (operand_len M)\<rparr>, b1)"
    and "p_get8bit P B (r\<lparr>reg_pc := reg_pc r + of_nat (operand_len M)\<rparr>) p1 b1
      = (fetch8 (locate M (abs_cpu r) (view b)) (abs_cpu r) (view b), p2, b2)"
    and "p_extraCycles P p2 = penalty (locate M (abs_cpu r) (view b))"
    and "view b2 = view b" and "inv b2"
proof -
  let ?r = "r\<lparr>reg_pc := reg_pc r + of_nat (operand_len M)\<rparr>"
  obtain p1 b1 where i: "p_init P B r b = (p1, ?r, b1)" "view b1 = view b" "inv b1"
    "holds p1 ?r (view b) (locate M (abs_cpu r) (view b))"
    by (rule initE [OF assms])
  obtain v p2 b2 where g: "p_get8bit P B ?r p1 b1 = (v, p2, b2)"
    by (cases "p_get8bit P B ?r p1 b1") auto
  note law = get8_law [OF i(3) _ g, of "locate M (abs_cpu r) (view b)"]
  show thesis
    by (rule that [of p1 b1 p2 b2]) (use law g i in auto)
qed

lemma jump_path:
  assumes "inv b"
  obtains p1 b1 p2 b2 where
    "p_init P B r b = (p1, r\<lparr>reg_pc := reg_pc r + of_nat (operand_len M)\<rparr>, b1)"
    and "p_get16bit P B (r\<lparr>reg_pc := reg_pc r + of_nat (operand_len M)\<rparr>) p1 b1
      = (fetch16 (locate M (abs_cpu r) (view b)) (abs_cpu r) (view b), p2, b2)"
    and "view b2 = view b" and "inv b2"
proof -
  let ?r = "r\<lparr>reg_pc := reg_pc r + of_nat (operand_len M)\<rparr>"
  obtain p1 b1 where i: "p_init P B r b = (p1, ?r, b1)" "view b1 = view b" "inv b1"
    "holds p1 ?r (view b) (locate M (abs_cpu r) (view b))"
    by (rule initE [OF assms])
  obtain v p2 b2 where g: "p_get16bit P B ?r p1 b1 = (v, p2, b2)"
    by (cases "p_get16bit P B ?r p1 b1") auto
  note law = get16_law [OF i(3) _ g, of "locate M (abs_cpu r) (view b)"]
  show thesis
    by (rule that [of p1 b1 p2 b2]) (use law g i in auto)
qed

lemma store_path:
  assumes "inv b"
  obtains p1 b1 p2 b2 where
    "p_init P B r b = (p1, r\<lparr>reg_pc := reg_pc r + of_nat (operand_len M)\<rparr>, b1)"
    and "p_dummyRead P B (r\<lparr>reg_pc := reg_pc r + of_nat (operand_len M)\<rparr>) p1 b1 = (p2, b2)"
    and "\<And>v. \<exists>p3 b3. p_set8bit P B v p2 (r\<lparr>reg_pc := reg_pc r + of_nat (operand_len M)\<rparr>) b2
        = (p3, store_reg (locate M (abs_cpu r) (view b)) v
                 (r\<lparr>reg_pc := reg_pc r + of_nat (operand_len M)\<rparr>), b3)
      \<and> view b3 = store_mem (locate M (abs_cpu r) (view b)) v (view b) \<and> inv b3"
proof -
  let ?r = "r\<lparr>reg_pc := reg_pc r + of_nat (operand_len M)\<rparr>"
  obtain p1 b1 where i: "p_init P B r b = (p1, ?r, b1)" "view b1 = view b" "inv b1"
    "holds p1 ?r (view b) (locate M (abs_cpu r) (view b))"
    by (rule initE [OF assms])
  obtain p2 b2 where d: "p_dummyRead P B ?r p1 b1 = (p2, b2)"
    by (cases "p_dummyRead P B ?r p1 b1") auto
  with i have h: "view b2 = view b" "inv b2" "holds p2 ?r (view b2) (locate M (abs_cpu r) (view b))"
    using dummy_law [OF i(3) _ d] by auto
  show thesis
  proof (rule that [OF i(1) d])
    fix v
    obtain p3 r3 b3 where "p_set8bit P B v p2 ?r b2 = (p3, r3, b3)"
      by (cases "p_set8bit P B v p2 ?r b2") auto
    with set8_law [OF h(2,3) this] h(1)
    show "\<exists>p3 b3. p_set8bit P B v p2 ?r b2
        = (p3, store_reg (locate M (abs_cpu r) (view b)) v ?r, b3)
      \<and> view b3 = store_mem (locate M (abs_cpu r) (view b)) v (view b) \<and> inv b3"
      by auto
  qed
qed

lemma rmw_path:
  assumes "inv b"
  obtains p1 b1 p2 b2 p3 b3 where
    "p_init P B r b = (p1, r\<lparr>reg_pc := reg_pc r + of_nat (operand_len M)\<rparr>, b1)"
    and "p_dummyRead P B (r\<lparr>reg_pc := reg_pc r + of_nat (operand_len M)\<rparr>) p1 b1 = (p2, b2)"
    and "p_get8bit P B (r\<lparr>reg_pc := reg_pc r + of_nat (operand_len M)\<rparr>) p2 b2
      = (fetch8 (locate M (abs_cpu r) (view b)) (abs_cpu r) (view b), p3, b3)"
    and "\<And>w v r'. reg_x r' = reg_x r \<Longrightarrow> reg_y r' = reg_y r \<Longrightarrow>
      \<exists>p4 p5 b4 b5. p_set8bit P B w p3 r' b3 = (p4, store_reg (locate M (abs_cpu r) (view b)) w r', b4)
        \<and> p_set8bit P B v p4 (store_reg (locate M (abs_cpu r) (view b)) w r') b4
          = (p5, store_reg (locate M (abs_cpu r) (view b)) v r', b5)
        \<and> view b5 = store_mem (locate M (abs_cpu r) (view b)) v (view b) \<and> inv b5"
proof -
  let ?r = "r\<lparr>reg_pc := reg_pc r + of_nat (operand_len M)\<rparr>"
  define l where "l = locate M (abs_cpu r) (view b)"
  obtain p1 b1 where i: "p_init P B r b = (p1, ?r, b1)" "view b1 = view b" "inv b1"
    "holds p1 ?r (view b) l"
    unfolding l_def by (rule initE [OF assms])
  obtain p2 b2 where d: "p_dummyRead P B ?r p1 b1 = (p2, b2)"
    by (cases "p_dummyRead P B ?r p1 b1") auto
  with i have h: "view b2 = view b" "inv b2" "holds p2 ?r (view b2) l"
    using dummy_law [OF i(3) _ d] by auto
  obtain u p3 b3 where g: "p_get8bit P B ?r p2 b2 = (u, p3, b3)"
    by (cases "p_get8bit P B ?r p2 b2") auto
  from get8_law [OF h(2,3) g] h(1)
  have u: "u = fetch8 l (abs_cpu r) (view b)" "view b3 = view b" "inv b3" "holds p3 ?r (view b3) l"
    by auto
  show thesis
  proof (rule that [OF i(1) d])
    show "p_get8bit P B ?r p2 b2 = (fetch8 (locate M (abs_cpu r) (view b)) (abs_cpu r) (view b), p3, b3)"
      using g u(1) by (simp add: l_def)
  next
    fix w v and r' :: Registers assume "reg_x r' = reg_x r" "reg_y r' = reg_y r"
    then have h3: "holds p3 r' (view b3) l"
      by (intro index_law [OF u(4)]) auto
    obtain p4 r4 b4 where s4: "p_set8bit P B w p3 r' b3 = (p4, r4, b4)"
      by (cases "p_set8bit P B w p3 r' b3") auto
    from set8_law [OF u(3) h3 s4] u(2)
    have h4: "r4 = store_reg l w r'" "view b4 = store_mem l w (view b)" "inv b4" "holds p4 r4 (view b4) l"
      by auto
    obtain p5 r5 b5 where s5: "p_set8bit P B v p4 r4 b4 = (p5, r5, b5)"
      by (cases "p_set8bit P B v p4 r4 b4") auto
    from set8_law [OF h4(3,4) s5] h4
    have "r5 = store_reg l v r'" "view b5 = store_mem l v (view b)" "inv b5"
      by (auto simp: store_reg_def)
    with s4 s5 h4(1)
    show "\<exists>p4 p5 b4 b5.
        p_set8bit P B w p3 r' b3 = (p4, store_reg (locate M (abs_cpu r) (view b)) w r', b4)
        \<and> p_set8bit P B v p4 (store_reg (locate M (abs_cpu r) (view b)) w r') b4
          = (p5, store_reg (locate M (abs_cpu r) (view b)) v r', b5)
        \<and> view b5 = store_mem (locate M (abs_cpu r) (view b)) v (view b) \<and> inv b5"
      unfolding l_def by blast
  qed
qed

end

text \<open>A mode that also offers the address before indexing.\<close>

locale indexed_mode = addressing_mode B view inv P M holds
  for B :: "'b Bus" and view :: "'b \<Rightarrow> uint16 \<Rightarrow> uint8" and inv :: "'b \<Rightarrow> bool"
    and P :: "('p, 'b, 'z) IndexedParams_scheme" and M :: Params
    and holds :: "'p \<Rightarrow> Registers \<Rightarrow> mem \<Rightarrow> place \<Rightarrow> bool" +
  assumes base_law: "inv b \<Longrightarrow> holds p r (view b) l \<Longrightarrow> p_base P B r p b = (w, p', b') \<Longrightarrow>
      (\<exists>ea. l = LMem w ea) \<and> view b' = view b \<and> inv b' \<and> holds p' r (view b) l"
begin

lemma base_path:
  assumes "inv b"
  obtains p1 b1 w ea where
    "p_init P B r b = (p1, r\<lparr>reg_pc := reg_pc r + of_nat (operand_len M)\<rparr>, b1)"
    and "locate M (abs_cpu r) (view b) = LMem w ea"
    and "\<And>r' v. reg_x r' = reg_x r \<Longrightarrow> reg_y r' = reg_y r \<Longrightarrow>
      \<exists>p2 b2 p3 b3. p_base P B r' p1 b1 = (w, p2, b2) \<and> p_set8bit P B v p2 r' b2 = (p3, r', b3)
        \<and> view b3 = (view b)(ea := v) \<and> inv b3"
proof -
  let ?r = "r\<lparr>reg_pc := reg_pc r + of_nat (operand_len M)\<rparr>"
  define l where "l = locate M (abs_cpu r) (view b)"
  obtain p1 b1 where i: "p_init P B r b = (p1, ?r, b1)" "view b1 = view b" "inv b1"
    "holds p1 ?r (view b1) l"
    unfolding l_def by (rule initE [OF assms]) auto
  obtain w p2 b2 where "p_base P B ?r p1 b1 = (w, p2, b2)"
    by (cases "p_base P B ?r p1 b1") auto
  from base_law [OF i(3,4) this] obtain ea where l: "l = LMem w ea"
    by auto
  show thesis
  proof (rule that [OF i(1)])
    show "locate M (abs_cpu r) (view b) = LMem w ea"
      using l by (simp add: l_def)
  next
    fix r' :: Registers and v assume "reg_x r' = reg_x r" "reg_y r' = reg_y r"
    then have h1: "holds p1 r' (view b1) l"
      by (intro index_law [OF i(4)]) auto
    obtain w' p2 b2 where base: "p_base P B r' p1 b1 = (w', p2, b2)"
      by (cases "p_base P B r' p1 b1") auto
    from base_law [OF i(3) h1 base] l i(2)
    have h2: "w' = w" "view b2 = view b" "inv b2" "holds p2 r' (view b2) l"
      by auto
    obtain p3 r3 b3 where s: "p_set8bit P B v p2 r' b2 = (p3, r3, b3)"
      by (cases "p_set8bit P B v p2 r' b2") auto
    from set8_law [OF h2(3,4) s] h2(2) l
    have "r3 = r'" "view b3 = (view b)(ea := v)" "inv b3"
      by (auto simp: store_reg_def)
    with base s h2(1) show "\<exists>p2 b2 p3 b3. p_base P B r' p1 b1 = (w, p2, b2)
        \<and> p_set8bit P B v p2 r' b2 = (p3, r', b3) \<and> view b3 = (view b)(ea := v) \<and> inv b3"
      by blast
  qed
qed

end

section \<open>Every policy fulfils the contract\<close>

lemma PG2ABS_zero [simp]: "PG2ABS 0 z = ucast z"
  by (simp add: PG2ABS_def)

lemma crosses_page [simp]: "crosses ad base \<longleftrightarrow> page ad \<noteq> page base"
  by (simp add: crosses_def page_def high_byte_eq_iff)

context ram_bus
begin

lemma READ16_ram [simp]:
  assumes "inv b"
  shows "fst (READ16 B ad b) = word_at (view b) ad"
    and "view (snd (READ16 B ad b)) = view b" and "inv (snd (READ16 B ad b))"
  using assms by (simp_all add: READ16_def word_at_def case_prod_beta)

lemma ZP_READ16_ram [simp]:
  assumes "inv b"
  shows "fst (ZP_READ16 B z b) = zp_word (view b) z"
    and "view (snd (ZP_READ16 B z b)) = view b" and "inv (snd (ZP_READ16 B z b))"
  using assms by (simp_all add: ZP_READ16_def zp_word_def case_prod_beta)

end

lemmas mode_defs = init8_def init16_def dummyRead_none_def set_none_def extraCycles_def
  ParamsBase_new_def store_reg_def Let_def case_prod_beta Params8.defs Params16.defs ParamsBase.defs

sublocale ram_bus \<subseteq> m_null: addressing_mode B view inv NullParams Null
  "\<lambda>p r m l. l = LNone \<and> \<not> m_crossed p"
  by unfold_locales (auto simp: NullParams_def mode_defs)

sublocale ram_bus \<subseteq> m_acc: addressing_mode B view inv AccumulatorParams Accumulator
  "\<lambda>p r m l. l = LAcc \<and> \<not> m_crossed p"
  by unfold_locales (auto simp: AccumulatorParams_def mode_defs)

sublocale ram_bus \<subseteq> m_imm: addressing_mode B view inv ImmediateParams Immediate
  "\<lambda>p r m l. l = LVal (ucast (data8 p)) \<and> \<not> m_crossed p"
  by unfold_locales (auto simp: ImmediateParams_def mode_defs)

sublocale ram_bus \<subseteq> m_rel: addressing_mode B view inv RelativeParams Relative
  "\<lambda>p r m l. l = LVal (ucast (data8 p)) \<and> \<not> m_crossed p"
  by unfold_locales (auto simp: RelativeParams_def mode_defs)

sublocale ram_bus \<subseteq> m_abc: addressing_mode B view inv AbsConstParams AbsConst
  "\<lambda>p r m l. l = LVal (data16 p) \<and> \<not> m_crossed p"
  by unfold_locales (auto simp: AbsConstParams_def mode_defs)

sublocale ram_bus \<subseteq> m_zp: addressing_mode B view inv ZeroPageParams ZeroPage
  "\<lambda>p r m l. l = LZp (data8 p) \<and> \<not> m_crossed p"
  by unfold_locales (auto simp: ZeroPageParams_def mode_defs zp_word_def)

sublocale ram_bus \<subseteq> m_zpx: addressing_mode B view inv ZeroPageXParams ZeroPageX
  "\<lambda>p r m l. l = LZp (data8 p + reg_x r) \<and> \<not> m_crossed p"
  by unfold_locales (auto simp: ZeroPageXParams_def mode_defs zp_word_def zp_dummyRead_def split: if_splits)

sublocale ram_bus \<subseteq> m_zpy: addressing_mode B view inv ZeroPageYParams ZeroPageY
  "\<lambda>p r m l. l = LZp (data8 p + reg_y r) \<and> \<not> m_crossed p"
  by unfold_locales (auto simp: ZeroPageYParams_def mode_defs zp_word_def zp_dummyRead_def split: if_splits)

sublocale ram_bus \<subseteq> m_abs: addressing_mode B view inv AbsoluteParams Absolute
  "\<lambda>p r m l. l = LMem (data16 p) (data16 p) \<and> \<not> m_crossed p"
  by unfold_locales (auto simp: AbsoluteParams_def mode_defs word_at_def)

sublocale ram_bus \<subseteq> m_abx: indexed_mode B view inv AbsoluteXParams AbsoluteX
  "\<lambda>p r m l. l = LMem (data16 p) (data16 p + ucast (reg_x r))"
  by unfold_locales (auto simp: AbsoluteXParams_def AbsoluteX_addr_def AbsoluteX_dummyRead_def
      mode_defs word_at_def split: if_splits)

sublocale ram_bus \<subseteq> m_aby: indexed_mode B view inv AbsoluteYParams AbsoluteY
  "\<lambda>p r m l. l = LMem (data16 p) (data16 p + ucast (reg_y r))"
  by unfold_locales (auto simp: AbsoluteYParams_def AbsoluteY_addr_def AbsoluteY_dummyRead_def
      mode_defs word_at_def split: if_splits)

sublocale ram_bus \<subseteq> m_ind: addressing_mode B view inv IndirectParams Indirect
  "\<lambda>p r m l. l = LInd (data16 p) \<and> \<not> m_crossed p"
  by unfold_locales (auto simp: IndirectParams_def mode_defs same_page_successor)

sublocale ram_bus \<subseteq> m_inx: addressing_mode B view inv IndirectXParams IndirectX
  "\<lambda>p r m l. (\<exists>ad. l = LMem ad ad \<and> ad = (if m_resolved p then m_addr p else zp_word m (data8 p + reg_x r)))
     \<and> \<not> m_crossed p"
  by unfold_locales (auto simp: IndirectXParams_def IndirectX_init_def IndirectX_addr_def
      IndirectXState.defs mode_defs word_at_def split: if_splits)

sublocale ram_bus \<subseteq> m_iny: indexed_mode B view inv IndirectYParams IndirectY
  "\<lambda>p r m l. \<exists>base. l = LMem base (base + ucast (reg_y r))
     \<and> base = (if m_baseResolved p then m_base p else zp_word m (data8 p))"
  by unfold_locales (auto simp: IndirectYParams_def IndirectY_init_def IndirectY_base_def
      IndirectY_addr_def IndirectY_dummyRead_def
      IndirectYState.defs mode_defs word_at_def split: if_splits)

end
