(* ===== verification/Alu_Core.thy ===== *)
theory Alu_Core
  imports Abstract_CPU
begin

text \<open>
  The arithmetic shared by the instructions of \<^verbatim>\<open>src/InstructionImpl.h\<close>: \<open>setNZ\<close>, \<open>adcCore\<close>,
  \<open>sbcCore\<close> and \<open>cmpCore\<close>, as the code computes them on 8- and 16-bit words, and their
  correctness: they implement the arithmetic of \<open>Abstract_CPU\<close>, binary subtraction is addition
  of the complement, and decimal mode adds and subtracts packed decimal numbers.
\<close>

section \<open>The code\<close>

definition setNZ :: "uint8 \<Rightarrow> Registers \<Rightarrow> Registers" where
  "setNZ val r =
     (let r = setStatus FLAG_Z (val = 0) r
      in setStatus FLAG_N (val AND 0x80 \<noteq> 0) r)"

definition adcCore :: "uint8 \<Rightarrow> Registers \<Rightarrow> Registers" where
  "adcCore val r =
     (let a = reg_a r;
          res = (ucast a + ucast val + (if getStatus FLAG_C r then 1 else 0) :: uint16);
          r = setStatus FLAG_Z (res AND 0xFF = 0) r
      in if \<not> decimalDisabled r \<and> getStatus FLAG_D r then
           let res = (if 9 < unat (a AND 0x0F) + unat (val AND 0x0F)
                             + (if getStatus FLAG_C r then 1 else 0)
                      then res + 6 else res);
               r = setStatus FLAG_N (res AND 0x80 \<noteq> 0) r;
               r = setStatus FLAG_V (\<not> ((a XOR val) AND 0x80 \<noteq> 0)
                                     \<and> (ucast a XOR res) AND 0x80 \<noteq> 0) r;
               res = (if 0x99 < res then res + 96 else res);
               r = setStatus FLAG_C (0x99 < res) r
           in r\<lparr>reg_a := ucast (res AND 0xFF)\<rparr>
         else
           let r = setStatus FLAG_V
                     ((NOT (ucast a XOR ucast val) AND (ucast a XOR res)) AND 0x80 \<noteq> 0) r;
               r = setStatus FLAG_C (0x00FF < res) r;
               r = setStatus FLAG_N (res AND 0x80 \<noteq> 0) r
           in r\<lparr>reg_a := ucast (res AND 0xFF)\<rparr>)"

definition sbcCore :: "uint8 \<Rightarrow> Registers \<Rightarrow> Registers" where
  "sbcCore val r =
     (let a = reg_a r;
          res = (ucast a - ucast val - (if getStatus FLAG_C r then 0 else 1) :: uint16);
          r = setStatus FLAG_V (((ucast a XOR ucast val) AND (ucast a XOR res)) AND 0x80 \<noteq> 0) r;
          r = setStatus FLAG_N (res AND 0x80 \<noteq> 0) r;
          r = setStatus FLAG_Z (res AND 0xFF = 0) r;
          res = (if \<not> decimalDisabled r \<and> getStatus FLAG_D r then
                   let res = (if int (unat (a AND 0x0F)) - (if getStatus FLAG_C r then 0 else 1)
                                 < int (unat (val AND 0x0F))
                              then res - 6 else res)
                   in if 0x99 < res then res - 0x60 else res
                 else res);
          r = r\<lparr>reg_a := ucast (res AND 0xFF)\<rparr>
      in setStatus FLAG_C (res < 0x100) r)"

definition cmpCore :: "uint8 \<Rightarrow> uint8 \<Rightarrow> Registers \<Rightarrow> Registers" where
  "cmpCore reg val r =
     (let res = (ucast reg - ucast val :: uint16);
          r = setStatus FLAG_C (res < 0x100) r;
          r = setStatus FLAG_Z (res = 0) r
      in setStatus FLAG_N (res AND 0x80 \<noteq> 0) r)"

section \<open>Words as numbers\<close>

lemma and_0x80_bit:
  "(w :: uint8) AND 0x80 = 0 \<longleftrightarrow> \<not> bit w 7"
  "(u :: uint16) AND 0x80 = 0 \<longleftrightarrow> \<not> bit u 7"
  using and_exp_eq_0_iff_not_bit [of w 7] and_exp_eq_0_iff_not_bit [of u 7] by simp_all

lemma and_0x80_8 [num_simps]: "(w :: uint8) AND 0x80 \<noteq> 0 \<longleftrightarrow> 128 \<le> unat w"
  by (simp add: and_0x80_bit bit7_8_iff)

lemma and_0x80_16 [num_simps]: "(w :: uint16) AND 0x80 \<noteq> 0 \<longleftrightarrow> 128 \<le> unat w mod 256"
  by (simp add: and_0x80_bit bit7_16_iff)

lemma sign_xor_8 [num_simps]:
  "((a XOR v) AND 0x80 \<noteq> (0 :: uint8)) \<longleftrightarrow> (128 \<le> unat a) \<noteq> (128 \<le> unat v)"
  unfolding bit7_8_iff [symmetric] by (simp add: and_0x80_bit bit_simps)

lemma sign_xor_16 [num_simps]:
  "((a XOR v) AND 0x80 \<noteq> (0 :: uint16)) \<longleftrightarrow> (128 \<le> unat a mod 256) \<noteq> (128 \<le> unat v mod 256)"
  unfolding bit7_16_iff [symmetric] by (simp add: and_0x80_bit bit_simps)

lemma overflow_add_16 [num_simps]:
  "((NOT (a XOR v) AND (a XOR res)) AND 0x80 \<noteq> (0 :: uint16)) \<longleftrightarrow>
     (128 \<le> unat a mod 256) = (128 \<le> unat v mod 256) \<and>
     (128 \<le> unat a mod 256) \<noteq> (128 \<le> unat res mod 256)"
  unfolding bit7_16_iff [symmetric] by (simp add: and_0x80_bit bit_simps)

lemma overflow_sub_16 [num_simps]:
  "(((a XOR v) AND (a XOR res)) AND 0x80 \<noteq> (0 :: uint16)) \<longleftrightarrow>
     (128 \<le> unat a mod 256) \<noteq> (128 \<le> unat v mod 256) \<and>
     (128 \<le> unat a mod 256) \<noteq> (128 \<le> unat res mod 256)"
  unfolding bit7_16_iff [symmetric] by (simp add: and_0x80_bit bit_simps)

lemma low_byte_16: "unat ((w :: uint16) AND 0xFF) = unat w mod 256"
proof -
  have "w AND 0xFF = take_bit 8 w"
    by (simp only: mask8_16 take_bit_eq_mask)
  then show ?thesis
    by (simp only: unsigned_take_bit_eq) (simp add: take_bit_eq_mod)
qed

lemma ucast_low_byte: "(ucast ((w :: uint16) AND 0xFF) :: uint8) = of_nat (unat w)"
  by (rule bit_word_eqI) (auto simp: mask8_16 bit_simps)

lemma and_0xFF_eq_0 [num_simps]: "(w :: uint16) AND 0xFF = 0 \<longleftrightarrow> unat w mod 256 = 0"
  by (metis low_byte_16 unat_eq_0)

lemma unat_of_nat_8: "unat (of_nat n :: uint8) = n mod 256"
  by (simp add: unat_of_nat)

lemma unat_sum16:
  "unat (ucast (a :: uint8) + ucast (v :: uint8) + (if c then 1 else 0) :: uint16)
    = unat a + unat v + of_bool c"
proof -
  have "of_bool c \<le> (1 :: nat)"
    by simp
  then have "unat a + unat v + of_bool c < 65536"
    using unat8_less [of a] unat8_less [of v] by linarith
  then have "(unat a + unat v + of_bool c) mod 65536 = unat a + unat v + of_bool c"
    by (rule mod_less)
  then show ?thesis
    by (cases c) (simp_all add: unat_word_ariths mod_simps)
qed

lemma unat_add16: "unat (w :: uint16) + n < 65536 \<Longrightarrow> unat (w + of_nat n) = unat w + n"
  by (simp add: unat_word_ariths unat_of_nat mod_simps)

lemma uint_diff16:
  "uint (ucast (a :: uint8) - ucast (v :: uint8) - (if c then 0 else 1) :: uint16)
    = (int (unat a) - int (unat v) - of_bool (\<not> c)) mod 65536"
  by (cases c) (simp_all add: uint_word_ariths mod_simps)

section \<open>The code implements the arithmetic\<close>

lemma setNZ_refines [simp]: "abs_cpu (setNZ val r) = nz_spec val (abs_cpu r)"
  by (simp add: setNZ_def nz_spec_def Let_def num_simps)

text \<open>
  The two's-complement reading of the overflow flag: a sum of two bytes and a carry leaves the
  signed range exactly when both operands have one sign and the result the other; a difference,
  when the operands have different signs and the result does not have that of the first.
\<close>

definition signed8 :: "nat \<Rightarrow> int" where
  "signed8 n = (if 128 \<le> n then int n - 256 else int n)"

lemma sint8: "sint (w :: uint8) = signed8 (unat w)"
  by (simp only: sint8_unat signed8_def)

lemma signed_overflow_add:
  assumes "n < 256" "m < 256" "k \<le> 1"
  shows "(signed8 n + signed8 m + int k < -128 \<or> 127 < signed8 n + signed8 m + int k) \<longleftrightarrow>
    (128 \<le> n) = (128 \<le> m) \<and> (128 \<le> n) \<noteq> (128 \<le> (n + m + k) mod 256)"
proof -
  have wrap: "(n + m + k) mod 256 = (if n + m + k < 256 then n + m + k else n + m + k - 256)"
    using assms by (simp add: mod_if)
  show ?thesis
    unfolding signed8_def wrap using assms
    by (cases "128 \<le> n"; cases "128 \<le> m"; cases "n + m + k < 256"; simp; arith)
qed

lemma signed_overflow_sub:
  assumes "n < 256" "m < 256" "k \<le> 1"
  shows "(signed8 n - signed8 m - int k < -128 \<or> 127 < signed8 n - signed8 m - int k) \<longleftrightarrow>
    (128 \<le> n) \<noteq> (128 \<le> m) \<and>
    (128 \<le> n) \<noteq> (128 \<le> nat ((int n - int m - int k) mod 256))"
proof -
  have wrap: "nat ((int n - int m - int k) mod 256)
      = (if m + k \<le> n then n - m - k else n + 256 - m - k)"
  proof (cases "m + k \<le> n")
    case True
    with assms show ?thesis by (simp add: mod_pos_pos_trivial)
  next
    case False
    then have "(int n - int m - int k) mod 256 = (int n - int m - int k + 256) mod 256"
      by simp
    also have "\<dots> = int n - int m - int k + 256"
      using False assms by (intro mod_pos_pos_trivial) simp_all
    finally show ?thesis using False assms by simp
  qed
  show ?thesis
    unfolding signed8_def wrap using assms
    by (cases "128 \<le> n"; cases "128 \<le> m"; cases "m + k \<le> n"; simp; arith)
qed

lemma adcCore_refines_binary:
  assumes "decimalDisabled r \<or> \<not> getStatus FLAG_D r"
  shows "abs_cpu (adcCore val r) = adc_binary val (abs_cpu r)"
proof -
  define a where "a = unat (reg_a r)"
  define v where "v = unat val"
  define c where "c = (of_bool (getStatus FLAG_C r) :: nat)"
  define res :: uint16 where
    "res = ucast (reg_a r) + ucast val + (if getStatus FLAG_C r then 1 else 0)"
  have bounds: "a < 256" "v < 256" "c \<le> 1"
    by (simp_all add: a_def v_def c_def)
  have res: "unat res = a + v + c"
    by (simp only: res_def unat_sum16 a_def v_def c_def)
  have code: "abs_cpu (adcCore val r) = (abs_cpu r)\<lparr>cA := ucast (res AND 0xFF), fC := (0x00FF < res),
      fV := ((NOT (ucast (reg_a r) XOR ucast val) AND (ucast (reg_a r) XOR res)) AND 0x80 \<noteq> 0),
      fZ := (res AND 0xFF = 0), fN := (res AND 0x80 \<noteq> 0)\<rparr>"
    using assms by (auto simp: adcCore_def Let_def res_def [symmetric])
  have spec: "adc_binary val (abs_cpu r) = (abs_cpu r)\<lparr>cA := of_nat (a + v + c),
      fC := (256 \<le> a + v + c),
      fV := (signed8 a + signed8 v + int c < -128 \<or> 127 < signed8 a + signed8 v + int c),
      fZ := (of_nat (a + v + c) = (0 :: uint8)), fN := (128 \<le> unat (of_nat (a + v + c) :: uint8))\<rparr>"
    by (simp only: adc_binary_def Let_def abs_cpu_select a_def v_def c_def sint8 of_nat_of_bool)
  have "(0x00FF < res) = (256 \<le> a + v + c)"
    by (simp add: word_less_nat_alt res) linarith
  moreover have "(res AND 0xFF = 0) = (of_nat (a + v + c) = (0 :: uint8))"
    unfolding and_0xFF_eq_0 res unat_of_nat_8 [symmetric] unat_eq_0 ..
  moreover have "(res AND 0x80 \<noteq> 0) = (128 \<le> unat (of_nat (a + v + c) :: uint8))"
    unfolding and_0x80_16 res unat_of_nat_8 ..
  moreover have "((NOT (ucast (reg_a r) XOR ucast val) AND (ucast (reg_a r) XOR res)) AND 0x80 \<noteq> 0)
      = (signed8 a + signed8 v + int c < -128 \<or> 127 < signed8 a + signed8 v + int c)"
    using bounds unfolding overflow_add_16 res signed_overflow_add [OF bounds]
    by (simp add: a_def [symmetric] v_def [symmetric] mod_less)
  ultimately show ?thesis
    unfolding code spec ucast_low_byte res by simp
qed

lemma adcCore_refines_decimal:
  assumes "\<not> decimalDisabled r" and "getStatus FLAG_D r"
  shows "abs_cpu (adcCore val r) = adc_decimal val (abs_cpu r)"
proof -
  define a where "a = unat (reg_a r)"
  define v where "v = unat val"
  define c where "c = (of_bool (getStatus FLAG_C r) :: nat)"
  define low where "low = a mod 16 + v mod 16 + c"
  define res :: uint16 where
    "res = ucast (reg_a r) + ucast val + (if getStatus FLAG_C r then 1 else 0)"
  define res' where "res' = (if 9 < low then res + 6 else res)"
  define res'' where "res'' = (if 0x99 < res' then res' + 96 else res')"
  define t where "t = (if 9 < low then a + v + c + 6 else a + v + c)"
  define u where "u = (if 0x99 < t then t + 0x60 else t)"
  have bounds: "a < 256" "v < 256" "c \<le> 1"
    by (simp_all add: a_def v_def c_def)
  have res: "unat res = a + v + c"
    by (simp only: res_def unat_sum16 a_def v_def c_def)
  have res': "unat res' = t"
    using bounds unat_add16 [of res 6] by (simp add: res'_def t_def res)
  have less': "(0x99 < res') = (0x99 < t)"
    by (simp add: word_less_nat_alt res')
  have res'': "unat res'' = u"
    using bounds unat_add16 [of res' 96]
    by (simp add: res''_def u_def res' less') (simp add: t_def)
  have less'': "(0x99 < res'') = (0x99 < t)"
    by (simp add: word_less_nat_alt res'') (simp add: u_def)
  have low: "unat (reg_a r AND 0x0F) + unat (val AND 0x0F)
      + (if getStatus FLAG_C r then 1 else 0) = low"
    by (simp add: unat_low_nibble low_def a_def v_def c_def)
  have code: "abs_cpu (adcCore val r) = (abs_cpu r)\<lparr>cA := ucast (res'' AND 0xFF), fC := (0x99 < res''),
      fV := (\<not> ((reg_a r XOR val) AND 0x80 \<noteq> 0) \<and> (ucast (reg_a r) XOR res') AND 0x80 \<noteq> 0),
      fZ := (res AND 0xFF = 0), fN := (res' AND 0x80 \<noteq> 0)\<rparr>"
    using assms
    by (simp add: adcCore_def Let_def res_def [symmetric] low res'_def res''_def)
  have spec: "adc_decimal val (abs_cpu r) = (abs_cpu r)\<lparr>cA := of_nat u, fC := (0x99 < t),
      fV := ((128 \<le> a) = (128 \<le> v) \<and> (128 \<le> a) \<noteq> (128 \<le> t mod 256)),
      fZ := ((a + v + c) mod 256 = 0), fN := (128 \<le> t mod 256)\<rparr>"
    by (simp add: adc_decimal_def Let_def a_def v_def c_def low_def t_def u_def)
  show ?thesis
    unfolding code spec sign_xor_8 sign_xor_16
    unfolding ucast_low_byte res'' less'' and_0xFF_eq_0 res and_0x80_16 res' unat_ucast_8_16
    using bounds by (simp only: a_def [symmetric] v_def [symmetric] mod_less) auto
qed

text \<open>A 16-bit difference of bytes, read back as a byte and as a number.\<close>

lemma mod16_small:
  "- 65536 \<le> d \<Longrightarrow> d < 65536 \<Longrightarrow> d mod 65536 = (if 0 \<le> d then d else d + 65536)" for d :: int
proof (cases "0 \<le> d")
  case False
  moreover assume "- 65536 \<le> d" "d < 65536"
  ultimately have "(d + 65536) mod 65536 = d + 65536"
    by (intro mod_pos_pos_trivial) simp_all
  with False show ?thesis by simp
qed (simp add: mod_pos_pos_trivial)

lemma byte_of_diff16:
  assumes "uint (res :: uint16) = d mod 65536"
  shows "(of_nat (unat res) :: uint8) = of_int d"
proof -
  have "(of_nat (unat res) :: uint8) = of_int (uint res)"
    by (metis of_int_of_nat_eq of_nat_unat)
  also have "\<dots> = of_int d"
    by (simp add: assms word_of_int_eq_iff take_bit_eq_mod mod_mod_cancel)
  finally show ?thesis .
qed

lemma low_of_diff16:
  assumes "uint (res :: uint16) = d mod 65536"
  shows "unat res mod 256 = nat (d mod 256)"
proof -
  have "unat res mod 256 = unat (of_int d :: uint8)"
    by (simp only: unat_of_nat_8 [symmetric] byte_of_diff16 [OF assms])
  also have "\<dots> = nat (d mod 256)"
    by (simp add: unat_eq_nat_uint uint_word_of_int)
  finally show ?thesis .
qed

lemma sbcCore_refines_binary:
  assumes "decimalDisabled r \<or> \<not> getStatus FLAG_D r"
  shows "abs_cpu (sbcCore val r) = sbc_binary val (abs_cpu r)"
proof -
  define a where "a = unat (reg_a r)"
  define v where "v = unat val"
  define k where "k = (of_bool (\<not> getStatus FLAG_C r) :: nat)"
  define d where "d = int a - int v - int k"
  define res :: uint16 where
    "res = ucast (reg_a r) - ucast val - (if getStatus FLAG_C r then 0 else 1)"
  have bounds: "a < 256" "v < 256" "k \<le> 1"
    by (simp_all add: a_def v_def k_def)
  have res: "uint res = d mod 65536"
    unfolding res_def uint_diff16 by (simp only: d_def a_def v_def k_def of_nat_of_bool)
  have low: "unat res mod 256 = nat (d mod 256)"
    by (rule low_of_diff16 [OF res])
  have byte: "(of_nat (unat res) :: uint8) = of_int d"
    by (rule byte_of_diff16 [OF res])
  have borrow: "(res < 0x100) = (0 \<le> d)"
  proof -
    have "d mod 65536 = (if 0 \<le> d then d else d + 65536)"
      using bounds by (intro mod16_small) (simp_all add: d_def)
    then show ?thesis
      using bounds by (simp add: word_less_def res) (simp add: d_def)
  qed
  have code: "abs_cpu (sbcCore val r) = (abs_cpu r)\<lparr>cA := ucast (res AND 0xFF), fC := (res < 0x100),
      fV := (((ucast (reg_a r) XOR ucast val) AND (ucast (reg_a r) XOR res)) AND 0x80 \<noteq> 0),
      fZ := (res AND 0xFF = 0), fN := (res AND 0x80 \<noteq> 0)\<rparr>"
    using assms by (auto simp: sbcCore_def Let_def res_def [symmetric])
  have spec: "sbc_binary val (abs_cpu r) = (abs_cpu r)\<lparr>cA := of_int d, fC := (0 \<le> d),
      fV := (signed8 a - signed8 v - int k < -128 \<or> 127 < signed8 a - signed8 v - int k),
      fZ := (of_int d = (0 :: uint8)), fN := (128 \<le> unat (of_int d :: uint8))\<rparr>"
    by (simp only: sbc_binary_def Let_def abs_cpu_select a_def v_def k_def d_def sint8 of_nat_of_bool)
  have "(res AND 0xFF = 0) = (of_int d = (0 :: uint8))"
    unfolding and_0xFF_eq_0 unat_of_nat_8 [symmetric] unat_eq_0 byte ..
  moreover have "(res AND 0x80 \<noteq> 0) = (128 \<le> unat (of_int d :: uint8))"
    unfolding and_0x80_16 unat_of_nat_8 [symmetric] byte ..
  moreover have "(((ucast (reg_a r) XOR ucast val) AND (ucast (reg_a r) XOR res)) AND 0x80 \<noteq> 0)
      = (signed8 a - signed8 v - int k < -128 \<or> 127 < signed8 a - signed8 v - int k)"
    using bounds unfolding overflow_sub_16 signed_overflow_sub [OF bounds] low d_def
    by (simp add: a_def [symmetric] v_def [symmetric] mod_less)
  ultimately show ?thesis
    unfolding code spec ucast_low_byte byte borrow by simp
qed

lemma sbcCore_refines_decimal:
  assumes "\<not> decimalDisabled r" and "getStatus FLAG_D r"
  shows "abs_cpu (sbcCore val r) = sbc_decimal val (abs_cpu r)"
proof -
  define a where "a = unat (reg_a r)"
  define v where "v = unat val"
  define k where "k = (of_bool (\<not> getStatus FLAG_C r) :: nat)"
  define d where "d = int a - int v - int k"
  define low where "low = int (a mod 16) - int (v mod 16) - int k"
  define res :: uint16 where
    "res = ucast (reg_a r) - ucast val - (if getStatus FLAG_C r then 0 else 1)"
  define res' where "res' = (if low < 0 then res - 6 else res)"
  define res'' where "res'' = (if 0x99 < res' then res' - 0x60 else res')"
  define e where "e = (if low < 0 then d - 6 else d)"
  define u where "u = (if e < 0 \<or> 0x99 < e then e - 0x60 else e)"
  have bounds: "a < 256" "v < 256" "k \<le> 1"
    by (simp_all add: a_def v_def k_def)
  have e_bounds: "-300 < e" "e < 256"
    using bounds by (simp_all add: e_def d_def)
  have res: "uint res = d mod 65536"
    unfolding res_def uint_diff16 by (simp only: d_def a_def v_def k_def of_nat_of_bool)
  have res': "uint res' = e mod 65536"
    by (simp add: res'_def e_def uint_word_ariths res mod_simps)
  have e_mod: "e mod 65536 = (if 0 \<le> e then e else e + 65536)"
    using e_bounds by (intro mod16_small) simp_all
  have less': "(0x99 < res') = (e < 0 \<or> 0x99 < e)"
    using e_bounds by (auto simp: word_less_def res' e_mod)
  have res'': "uint res'' = u mod 65536"
    by (simp add: res''_def u_def less' uint_word_ariths res' mod_simps)
  have borrow: "(res'' < 0x100) = (0 \<le> e)"
  proof -
    have "u mod 65536 = (if 0 \<le> u then u else u + 65536)"
      using e_bounds by (intro mod16_small) (simp_all add: u_def)
    then show ?thesis
      using e_bounds by (simp add: word_less_def res'') (simp add: u_def)
  qed
  have byte: "(of_nat (unat res'') :: uint8) = of_int u"
    by (rule byte_of_diff16 [OF res''])
  have low: "int (unat (reg_a r AND 0x0F)) - (if getStatus FLAG_C r then 0 else 1)
      < int (unat (val AND 0x0F)) \<longleftrightarrow> low < 0"
    by (simp add: unat_low_nibble low_def a_def v_def k_def) linarith
  have binary: "abs_cpu (sbcCore val (r\<lparr>decimalDisabled := True\<rparr>))
      = sbc_binary val (abs_cpu (r\<lparr>decimalDisabled := True\<rparr>))"
    by (rule sbcCore_refines_binary) simp
  have code: "abs_cpu (sbcCore val r)
      = (abs_cpu (sbcCore val (r\<lparr>decimalDisabled := True\<rparr>)))\<lparr>cA := ucast (res'' AND 0xFF),
          fC := (res'' < 0x100), cBCD := True\<rparr>"
    using assms
    by (simp add: sbcCore_def Let_def low res_def [symmetric] res'_def res''_def del: of_nat_unat)
  have spec: "sbc_decimal val (abs_cpu r)
      = (sbc_binary val (abs_cpu r))\<lparr>cA := of_int u, fC := (0 \<le> e)\<rparr>"
    by (simp add: sbc_decimal_def Let_def a_def v_def k_def d_def low_def e_def u_def)
  show ?thesis
    unfolding code spec binary ucast_low_byte byte borrow
    using assms by (simp add: sbc_binary_def Let_def)
qed

lemma cmpCore_refines [simp]: "abs_cpu (cmpCore reg val r) = cmp_spec reg val (abs_cpu r)"
proof -
  define n where "n = uint reg"
  define m where "m = uint val"
  have bounds: "n < 256" "m < 256" "0 \<le> n" "0 \<le> m"
    using uint_lt2p [of reg] uint_lt2p [of val] by (simp_all add: n_def m_def)
  have d: "uint (ucast reg - ucast val :: uint16) = (n - m) mod 65536"
    by (simp add: uint_word_ariths n_def m_def)
  have "(n - m) mod 65536 = (if m \<le> n then n - m else n - m + 65536)"
    using bounds by (subst mod16_small) auto
  then have "(ucast reg - ucast val :: uint16) < 0x100 \<longleftrightarrow> val \<le> reg"
    using bounds by (simp add: word_less_def word_le_def d n_def [symmetric] m_def [symmetric])
  moreover have "(ucast reg - ucast val :: uint16) = 0 \<longleftrightarrow> reg = val"
    unfolding right_minus_eq by (metis unat_ucast_8_16 unsigned_word_eqI)
  moreover have "unat (ucast reg - ucast val :: uint16) mod 256 = unat (reg - val)"
    unfolding low_of_diff16 [OF d] by (simp add: unat_eq_nat_uint uint_word_ariths n_def m_def)
  ultimately show ?thesis
    by (simp add: cmpCore_def cmp_spec_def Let_def and_0x80_16)
qed

lemma adcCore_refines [simp]: "abs_cpu (adcCore val r) = adc_spec val (abs_cpu r)"
  using adcCore_refines_binary [of r val] adcCore_refines_decimal [of r val]
  by (auto simp: adc_spec_def)

lemma sbcCore_refines [simp]: "abs_cpu (sbcCore val r) = sbc_spec val (abs_cpu r)"
  using sbcCore_refines_binary [of r val] sbcCore_refines_decimal [of r val]
  by (auto simp: sbc_spec_def)

section \<open>Frames\<close>

lemma setNZ_frame [simp]:
  "reg_a (setNZ v r) = reg_a r" "reg_x (setNZ v r) = reg_x r" "reg_y (setNZ v r) = reg_y r"
  "reg_sp (setNZ v r) = reg_sp r" "reg_pc (setNZ v r) = reg_pc r"
  "decimalDisabled (setNZ v r) = decimalDisabled r"
  "getStatus FLAG_C (setNZ v r) = getStatus FLAG_C r"
  "getStatus FLAG_I (setNZ v r) = getStatus FLAG_I r"
  by (simp_all add: setNZ_def Let_def)

lemma adcCore_frame [simp]:
  "reg_x (adcCore v r) = reg_x r" "reg_y (adcCore v r) = reg_y r"
  "reg_sp (adcCore v r) = reg_sp r" "reg_pc (adcCore v r) = reg_pc r"
  "decimalDisabled (adcCore v r) = decimalDisabled r"
  by (simp_all add: adcCore_def Let_def)

lemma sbcCore_frame [simp]:
  "reg_x (sbcCore v r) = reg_x r" "reg_y (sbcCore v r) = reg_y r"
  "reg_sp (sbcCore v r) = reg_sp r" "reg_pc (sbcCore v r) = reg_pc r"
  "decimalDisabled (sbcCore v r) = decimalDisabled r"
  by (simp_all add: sbcCore_def Let_def)

lemma cmpCore_frame [simp]:
  "reg_a (cmpCore w v r) = reg_a r" "reg_x (cmpCore w v r) = reg_x r"
  "reg_y (cmpCore w v r) = reg_y r" "reg_sp (cmpCore w v r) = reg_sp r"
  "reg_pc (cmpCore w v r) = reg_pc r" "decimalDisabled (cmpCore w v r) = decimalDisabled r"
  by (simp_all add: cmpCore_def Let_def)

section \<open>Packed decimal\<close>

text \<open>A byte is packed decimal when both nibbles are digits; \<open>bcd_value\<close> is its number, 0 to 99.\<close>

definition bcd_ok :: "uint8 \<Rightarrow> bool" where
  "bcd_ok b \<longleftrightarrow> unat b mod 16 \<le> 9 \<and> unat b div 16 \<le> 9"

definition bcd_value :: "uint8 \<Rightarrow> nat" where
  "bcd_value b = 10 * (unat b div 16) + unat b mod 16"

lemma bcd_digits:
  assumes "H < 10" "L < 10" "n mod 256 = 16 * H + L"
  shows "bcd_ok (of_nat n)" and "bcd_value (of_nat n) = 10 * H + L"
  using assms by (simp_all add: bcd_ok_def bcd_value_def unat_of_nat_8)

lemma adc_decimal_bcd:
  assumes "bcd_ok (cA c)" and "bcd_ok v"
  defines "c' \<equiv> adc_decimal v c"
  shows "bcd_ok (cA c')" and
    "bcd_value (cA c') + 100 * of_bool (fC c') = bcd_value (cA c) + bcd_value v + of_bool (fC c)"
proof -
  define h1 l1 h2 l2 where "h1 = unat (cA c) div 16" and "l1 = unat (cA c) mod 16"
    and "h2 = unat v div 16" and "l2 = unat v mod 16"
  define k where "k = (of_bool (fC c) :: nat)"
  define L where "L = (if 9 < l1 + l2 + k then l1 + l2 + k - 10 else l1 + l2 + k)"
  define H where "H = (if 9 < l1 + l2 + k then h1 + h2 + 1 else h1 + h2)"
  define t where "t = (if 9 < l1 + l2 + k then unat (cA c) + unat v + k + 6
      else unat (cA c) + unat v + k)"
  define u where "u = (if 0x99 < t then t + 0x60 else t)"
  have digits: "h1 \<le> 9" "l1 \<le> 9" "h2 \<le> 9" "l2 \<le> 9" "k \<le> 1"
    using assms(1,2) by (simp_all add: bcd_ok_def h1_def l1_def h2_def l2_def k_def)
  have "unat (cA c) = 16 * h1 + l1" "unat v = 16 * h2 + l2"
    by (simp_all add: h1_def l1_def h2_def l2_def)
  then have t: "t = 16 * H + L" and L: "L < 10"
    using digits by (auto simp: t_def H_def L_def)
  have HL: "10 * H + L = 10 * h1 + l1 + (10 * h2 + l2) + k" and H: "H < 20"
    using digits by (auto simp: H_def L_def)
  have carry: "(0x99 < t) = (10 \<le> H)"
    using t L by auto
  have c': "cA c' = of_nat u" "fC c' = (10 \<le> H)"
    by (simp_all add: c'_def adc_decimal_def Let_def u_def t_def carry [symmetric] l1_def l2_def k_def)
  have u: "u mod 256 = 16 * (if 10 \<le> H then H - 10 else H) + L"
  proof (cases "10 \<le> H")
    case True
    then have "u = 16 * (H - 10) + L + 256"
      using carry t by (simp add: u_def)
    with True L H show ?thesis by simp
  next
    case False
    with carry t L show ?thesis by (simp add: u_def)
  qed
  have "(if 10 \<le> H then H - 10 else H) < 10"
    using H by (cases "10 \<le> H"; simp; arith)
  note bcd = bcd_digits [OF this L u]
  show "bcd_ok (cA c')"
    using bcd(1) by (simp add: c')
  show "bcd_value (cA c') + 100 * of_bool (fC c')
      = bcd_value (cA c) + bcd_value v + of_bool (fC c)"
    using bcd(2) HL unfolding c' bcd_value_def h1_def [symmetric] l1_def [symmetric]
      h2_def [symmetric] l2_def [symmetric] k_def [symmetric]
    by (cases "10 \<le> H"; simp; linarith)
qed

lemma of_int_byte: "0 \<le> n \<Longrightarrow> n < 256 \<Longrightarrow> k mod 256 = n \<Longrightarrow> (of_int k :: uint8) = of_nat (nat n)"
  by (rule unsigned_word_eqI [where ?'a = int])
    (simp add: uint_word_of_int take_bit_eq_mod unsigned_of_nat)

lemma nibbles: "int n = 16 * int (n div 16) + int (n mod 16)"
  by presburger

lemma sbc_decimal_bcd:
  assumes "bcd_ok (cA c)" and "bcd_ok v"
  defines "c' \<equiv> sbc_decimal v c"
  shows "bcd_ok (cA c')" and
    "int (bcd_value (cA c')) - 100 * of_bool (\<not> fC c')
      = int (bcd_value (cA c)) - int (bcd_value v) - of_bool (\<not> fC c)"
proof -
  define h1 l1 h2 l2 where "h1 = int (unat (cA c) div 16)" and "l1 = int (unat (cA c) mod 16)"
    and "h2 = int (unat v div 16)" and "l2 = int (unat v mod 16)"
  define k where "k = (of_bool (\<not> fC c) :: int)"
  define low where "low = l1 - l2 - k"
  define L where "L = (if low < 0 then low + 10 else low)"
  define H where "H = (if low < 0 then h1 - h2 - 1 else h1 - h2)"
  define e where "e = (if low < 0 then int (unat (cA c)) - int (unat v) - k - 6
      else int (unat (cA c)) - int (unat v) - k)"
  define u where "u = (if e < 0 \<or> 0x99 < e then e - 0x60 else e)"
  define H' where "H' = (if H < 0 then H + 10 else H)"
  have digits: "0 \<le> h1" "h1 \<le> 9" "0 \<le> l1" "l1 \<le> 9" "0 \<le> h2" "h2 \<le> 9" "0 \<le> l2" "l2 \<le> 9"
    "0 \<le> k" "k \<le> 1"
    using assms(1,2) by (simp_all add: bcd_ok_def h1_def l1_def h2_def l2_def k_def)
  have vals: "int (unat (cA c)) = 16 * h1 + l1" "int (unat v) = 16 * h2 + l2"
    using nibbles [of "unat (cA c)"] nibbles [of "unat v"]
    by (simp_all only: h1_def l1_def h2_def l2_def)
  then have e: "e = 16 * H + L"
    by (auto simp: e_def H_def L_def low_def)
  have L: "0 \<le> L" "L < 10" and H: "-10 \<le> H" "H < 10"
    using digits by (auto simp: L_def H_def low_def)
  have sign: "e < 0 \<longleftrightarrow> H < 0" "e \<le> 0x99"
    using e L H by auto
  have u: "u mod 256 = 16 * H' + L" and H': "0 \<le> H'" "H' < 10"
  proof -
    show "0 \<le> H'" "H' < 10"
      using H by (auto simp: H'_def)
    have "u = 16 * H' + L - (if H < 0 then 256 else 0)"
      using sign e by (auto simp: u_def H'_def)
    moreover have "(16 * H' + L - 256) mod 256 = (16 * H' + L) mod 256"
      by (metis minus_mod_self2)
    ultimately have "u mod 256 = (16 * H' + L) mod 256"
      by (auto split: if_splits)
    also have "\<dots> = 16 * H' + L"
      using L \<open>0 \<le> H'\<close> \<open>H' < 10\<close> by (intro mod_pos_pos_trivial) auto
    finally show "u mod 256 = 16 * H' + L" .
  qed
  have c': "cA c' = of_int u" "fC c' = (0 \<le> e)"
    by (simp_all add: c'_def sbc_decimal_def Let_def u_def e_def low_def l1_def l2_def k_def)
  have a': "cA c' = of_nat (nat (16 * H' + L))"
    using u L H' by (simp only: c'(1)) (intro of_int_byte, auto)
  have "nat (16 * H' + L) mod 256 = 16 * nat H' + nat L"
    using L H' by (simp add: nat_add_distrib nat_mult_distrib)
  note bcd = bcd_digits [of "nat H'" "nat L", OF _ _ this]
  show "bcd_ok (cA c')"
    using bcd(1) L H' by (simp add: a')
  have "int (bcd_value (cA c')) = 10 * H' + L"
    using bcd(2) L H' by (simp add: a')
  moreover have "int (bcd_value (cA c)) = 10 * h1 + l1" "int (bcd_value v) = 10 * h2 + l2"
    by (simp_all add: bcd_value_def h1_def l1_def h2_def l2_def)
  moreover have "10 * H + L = (10 * h1 + l1) - (10 * h2 + l2) - k"
    by (auto simp: H_def L_def low_def)
  ultimately show "int (bcd_value (cA c')) - 100 * of_bool (\<not> fC c')
      = int (bcd_value (cA c)) - int (bcd_value v) - of_bool (\<not> fC c)"
    using sign(1) by (auto simp: c'(2) H'_def k_def not_le)
qed

section \<open>Arithmetic properties\<close>

lemma unat_complement8: "unat (NOT v) = 255 - unat (v :: uint8)"
proof -
  have "unat (- 1 - v) = unat (- 1 :: uint8) - unat v"
    by (rule unat_sub) simp
  moreover have "unat (- 1 :: uint8) = 255"
    by (simp add: unsigned_minus_1_eq_mask mask_eq_exp_minus_1)
  moreover have "NOT v = - 1 - v"
    by (simp add: not_eq_complement)
  ultimately show ?thesis by simp
qed

lemma sint_complement8: "sint (NOT v) = - sint (v :: uint8) - 1"
proof -
  define n where "n = unat v"
  have "n < 256" by (simp add: n_def)
  then show ?thesis
    unfolding sint8_unat unat_complement8 n_def [symmetric] by (cases "128 \<le> n") auto
qed

lemma sint8_negative: "sint (w :: uint8) < 0 \<longleftrightarrow> 128 \<le> unat w"
proof -
  define n where "n = unat w"
  have "n < 256"
    by (simp add: n_def)
  then show ?thesis
    unfolding sint8_unat n_def [symmetric] by simp
qed

text \<open>
  C13: Binary \<open>ADC\<close> adds: result byte and carry are the unsigned sum of A, operand and carry-in, V is
  set exactly when the signed sum leaves -128..127, Z and N describe the result byte, and nothing
  but A and those four flags changes. It holds whenever D is clear or the chip has no decimal mode.
\<close>

theorem adc_adds:
  fixes v :: uint8
  assumes "decimalDisabled r \<or> \<not> getStatus FLAG_D r"
  defines "r' \<equiv> adcCore v r"
  shows "unat (reg_a r') + 256 * of_bool (getStatus FLAG_C r')
      = unat (reg_a r) + unat v + of_bool (getStatus FLAG_C r)
    \<and> (getStatus FLAG_V r' \<longleftrightarrow>
        sint (reg_a r) + sint v + of_bool (getStatus FLAG_C r) \<notin> {-128..127})
    \<and> getStatus FLAG_Z r' = (reg_a r' = 0) \<and> getStatus FLAG_N r' = (sint (reg_a r') < 0)
    \<and> (abs_cpu r')\<lparr>cA := reg_a r, fC := getStatus FLAG_C r, fV := getStatus FLAG_V r,
        fZ := getStatus FLAG_Z r, fN := getStatus FLAG_N r\<rparr> = abs_cpu r"
proof -
  have spec: "abs_cpu r' = adc_binary v (abs_cpu r)"
    using adcCore_refines_binary [OF assms(1)] by (simp add: r'_def)
  note fields = arg_cong [OF spec, of cA] arg_cong [OF spec, of fC] arg_cong [OF spec, of fV]
    arg_cong [OF spec, of fZ] arg_cong [OF spec, of fN]
  define s where "s = unat (reg_a r) + unat v + of_bool (getStatus FLAG_C r)"
  have "s < 512"
    using unat8_le [of "reg_a r"] unat8_le [of v] by (simp add: s_def del: unat8_le)
  then have "s mod 256 + 256 * of_bool (256 \<le> s) = s"
    by (cases "256 \<le> s") (simp_all add: le_mod_geq)
  moreover have "reg_a r' = of_nat s" "getStatus FLAG_C r' = (256 \<le> s)"
    using fields by (simp_all add: adc_binary_def Let_def s_def)
  ultimately have sum: "unat (reg_a r') + 256 * of_bool (getStatus FLAG_C r') = s"
    by (simp add: unat_of_nat_8)
  note neg = sint8_negative [of "reg_a r'"]
  have "(abs_cpu r')\<lparr>cA := reg_a r, fC := getStatus FLAG_C r, fV := getStatus FLAG_V r,
        fZ := getStatus FLAG_Z r, fN := getStatus FLAG_N r\<rparr> = abs_cpu r"
    unfolding spec by (simp add: adc_binary_def Let_def abs_cpu_def)
  then show ?thesis
    using fields sum neg by (auto simp: adc_binary_def Let_def s_def)
qed

lemma adc_adds_witness:
  "let r' = adcCore 0x50 (Registers_zero\<lparr>reg_a := 0x50\<rparr>)
   in unat (reg_a r') + 256 * of_bool (getStatus FLAG_C r') = 160 \<and> getStatus FLAG_V r'"
  using adc_adds [of "Registers_zero\<lparr>reg_a := 0x50\<rparr>" "0x50"]
  by (simp add: Registers_zero_def getStatus_def Let_def)

text \<open>
  C14: Binary \<open>SBC\<close> subtracts, and it is \<open>ADC\<close> of the complement: A minus operand minus borrow-in is
  the result byte with a borrow-out of 256 when carry is clear, V is set exactly when the signed
  difference leaves -128..127, and every register and flag ends as after adding the complement.
\<close>

theorem sbc_subtracts:
  fixes v :: uint8
  assumes "decimalDisabled r \<or> \<not> getStatus FLAG_D r"
  defines "r' \<equiv> sbcCore v r"
  shows "int (unat (reg_a r')) - 256 * of_bool (\<not> getStatus FLAG_C r')
      = int (unat (reg_a r)) - int (unat v) - of_bool (\<not> getStatus FLAG_C r)
    \<and> (getStatus FLAG_V r' \<longleftrightarrow>
        sint (reg_a r) - sint v - of_bool (\<not> getStatus FLAG_C r) \<notin> {-128..127})
    \<and> abs_cpu r' = abs_cpu (adcCore (NOT v) r)"
proof -
  define a where "a = unat (reg_a r)"
  define w where "w = unat v"
  define k where "k = (of_bool (getStatus FLAG_C r) :: nat)"
  have k: "int k = of_bool (getStatus FLAG_C r)" "k \<le> 1"
    by (simp_all add: k_def)
  have bounds: "a < 256" "w < 256"
    by (simp_all add: a_def w_def)
  have spec: "abs_cpu r' = sbc_binary v (abs_cpu r)"
    using sbcCore_refines_binary [OF assms(1)] by (simp add: r'_def)
  define d where "d = int a - int w - of_bool (\<not> getStatus FLAG_C r)"
  define s where "s = a + (255 - w) + k"
  define t where "t = sint (reg_a r) - sint v - of_bool (\<not> getStatus FLAG_C r)"
  have ds: "int s = d + 256"
    using bounds k by (cases "getStatus FLAG_C r") (simp_all add: d_def s_def k_def)
  have fields: "reg_a r' = of_int d" "getStatus FLAG_C r' = (0 \<le> d)"
    "getStatus FLAG_V r' = (sint (reg_a r) - sint v - of_bool (\<not> getStatus FLAG_C r) < -128
      \<or> 127 < sint (reg_a r) - sint v - of_bool (\<not> getStatus FLAG_C r))"
    using arg_cong [OF spec, of cA] arg_cong [OF spec, of fC] arg_cong [OF spec, of fV]
    by (simp_all add: sbc_binary_def Let_def d_def a_def w_def del: of_nat_unat)
  have add: "abs_cpu (adcCore (NOT v) r) = adc_binary (NOT v) (abs_cpu r)"
    by (rule adcCore_refines_binary [OF assms(1)])
  have "(of_nat s :: uint8) = of_int (int s)"
    by simp
  then have "(of_nat s :: uint8) = of_int d"
    unfolding ds by simp
  moreover have "(256 \<le> s) = (0 \<le> d)"
    using ds by linarith
  moreover have "unat (reg_a r) + unat (NOT v) + of_bool (getStatus FLAG_C r) = s"
    by (simp only: unat_complement8 s_def a_def w_def k_def)
  moreover have "sint (reg_a r) + sint (NOT v) + of_bool (getStatus FLAG_C r) = t"
    by (simp add: sint_complement8 t_def)
  ultimately have "adc_binary (NOT v) (abs_cpu r) = (abs_cpu r)\<lparr>cA := of_int d, fC := (0 \<le> d),
      fV := (t < -128 \<or> 127 < t), fZ := (of_int d = (0 :: uint8)), fN := (128 \<le> unat (of_int d :: uint8))\<rparr>"
    by (simp only: adc_binary_def Let_def abs_cpu_select)
  then have dual: "abs_cpu r' = abs_cpu (adcCore (NOT v) r)"
    unfolding spec add by (simp only: sbc_binary_def Let_def abs_cpu_select d_def t_def a_def w_def)
  have "d < 256" "- 256 \<le> d"
    using bounds by (auto simp: d_def)
  then have "d mod 256 = d + 256 * of_bool (\<not> 0 \<le> d)"
    using mod_add_self2 [of d 256] mod_pos_pos_trivial [of d 256] mod_pos_pos_trivial [of "d + 256" 256]
    by (cases "0 \<le> d") auto
  moreover have "int (unat (reg_a r')) = d mod 256"
    unfolding fields(1) by (simp add: uint_word_of_int take_bit_eq_mod)
  ultimately have "int (unat (reg_a r')) = d + 256 * of_bool (\<not> 0 \<le> d)"
    by simp
  then show ?thesis
    using fields dual by (auto simp: d_def a_def w_def simp del: of_nat_unat)
qed

lemma sbc_subtracts_witness:
  "int (unat (reg_a (sbcCore 0x30 (Registers_zero\<lparr>reg_a := 0x10, reg_sr := FLAG_C\<rparr>))))
     - 256 * of_bool (\<not> getStatus FLAG_C (sbcCore 0x30 (Registers_zero\<lparr>reg_a := 0x10, reg_sr := FLAG_C\<rparr>)))
   = - 32"
  using sbc_subtracts [of "Registers_zero\<lparr>reg_a := 0x10, reg_sr := FLAG_C\<rparr>" "0x30"]
  by (simp add: Registers_zero_def getStatus_def flag_defs)

text \<open>
  C15: In decimal mode \<open>ADC\<close> and \<open>SBC\<close> compute with packed decimal numbers: on operands whose
  nibbles are digits, the result again has digits for nibbles, its decimal value and the carry are
  the decimal sum (respectively the difference, with carry clear for a borrow of 100), and X, Y,
  SP, PC and the chip option do not change.
\<close>

theorem decimal_mode_is_decimal:
  fixes v :: uint8
  assumes "\<not> decimalDisabled r" and "getStatus FLAG_D r" and "bcd_ok (reg_a r)" and "bcd_ok v"
  defines "p \<equiv> adcCore v r"
  defines "m \<equiv> sbcCore v r"
  shows "bcd_ok (reg_a p) \<and> bcd_ok (reg_a m)
    \<and> bcd_value (reg_a p) + 100 * of_bool (getStatus FLAG_C p)
        = bcd_value (reg_a r) + bcd_value v + of_bool (getStatus FLAG_C r)
    \<and> int (bcd_value (reg_a m)) - 100 * of_bool (\<not> getStatus FLAG_C m)
        = int (bcd_value (reg_a r)) - int (bcd_value v) - of_bool (\<not> getStatus FLAG_C r)
    \<and> (reg_x p, reg_y p, reg_sp p, reg_pc p, decimalDisabled p)
        = (reg_x r, reg_y r, reg_sp r, reg_pc r, decimalDisabled r)
    \<and> (reg_x m, reg_y m, reg_sp m, reg_pc m, decimalDisabled m)
        = (reg_x r, reg_y r, reg_sp r, reg_pc r, decimalDisabled r)"
proof -
  have "bcd_ok (cA (abs_cpu r))"
    using assms(3) by simp
  note adc = adc_decimal_bcd [OF this assms(4)] and sbc = sbc_decimal_bcd [OF this assms(4)]
  have p: "abs_cpu p = adc_decimal v (abs_cpu r)" and m: "abs_cpu m = sbc_decimal v (abs_cpu r)"
    using adcCore_refines_decimal [OF assms(1,2)] sbcCore_refines_decimal [OF assms(1,2)]
    by (simp_all add: p_def m_def)
  have "bcd_ok (reg_a p)" "bcd_value (reg_a p) + 100 * of_bool (getStatus FLAG_C p)
      = bcd_value (reg_a r) + bcd_value v + of_bool (getStatus FLAG_C r)"
    using adc unfolding p [symmetric] by simp_all
  moreover have "bcd_ok (reg_a m)" "int (bcd_value (reg_a m)) - 100 * of_bool (\<not> getStatus FLAG_C m)
      = int (bcd_value (reg_a r)) - int (bcd_value v) - of_bool (\<not> getStatus FLAG_C r)"
    using sbc unfolding m [symmetric] by simp_all
  ultimately show ?thesis
    by (simp add: p_def m_def)
qed

lemma decimal_mode_is_decimal_witness:
  "bcd_value (reg_a (adcCore 0x27 (Registers_zero\<lparr>reg_a := 0x15, reg_sr := FLAG_D\<rparr>)))
    + 100 * of_bool (getStatus FLAG_C (adcCore 0x27 (Registers_zero\<lparr>reg_a := 0x15, reg_sr := FLAG_D\<rparr>)))
    = 42"
  using decimal_mode_is_decimal [of "Registers_zero\<lparr>reg_a := 0x15, reg_sr := FLAG_D\<rparr>" "0x27"]
  by (simp add: Registers_zero_def getStatus_def flag_defs bcd_ok_def bcd_value_def)

text \<open>
  A comparison sets carry exactly when the register is not below the operand as unsigned
  numbers, Z exactly when they are equal, N to bit 7 of the difference, and changes nothing else.
\<close>

theorem compare_flags:
  "getStatus FLAG_C (cmpCore reg v r) = (unat v \<le> unat reg)
    \<and> getStatus FLAG_Z (cmpCore reg v r) = (reg = v)
    \<and> getStatus FLAG_N (cmpCore reg v r) = bit (reg - v) 7
    \<and> (abs_cpu (cmpCore reg v r))\<lparr>fC := getStatus FLAG_C r, fZ := getStatus FLAG_Z r,
        fN := getStatus FLAG_N r\<rparr> = abs_cpu r"
proof -
  define r' where "r' = cmpCore reg v r"
  have spec: "abs_cpu r' = cmp_spec reg v (abs_cpu r)"
    by (simp add: r'_def)
  have "(abs_cpu r')\<lparr>fC := getStatus FLAG_C r, fZ := getStatus FLAG_Z r,
        fN := getStatus FLAG_N r\<rparr> = abs_cpu r"
    unfolding spec by (simp add: cmp_spec_def abs_cpu_def)
  then show ?thesis
    using arg_cong [OF spec, of fC] arg_cong [OF spec, of fZ] arg_cong [OF spec, of fN]
    unfolding r'_def [symmetric] by (simp add: cmp_spec_def word_le_nat_alt bit7_8_iff)
qed

end
