(* ===== verification/Instruction_Set.thy ===== *)
theory Instruction_Set
  imports Addressing_Modes Alu_Core
begin

text \<open>
  \<^verbatim>\<open>src/InstructionImpl.h\<close>: every instruction template, one definition per class. The template
  arguments \<open>IParams\<close> and \<open>cycles\<close> are the arguments \<open>P\<close> and \<open>n\<close>; a class that never touches its
  policy does not take one. \<open>execute\<close> returns the cycle count, the registers and the bus state.
  An instruction object of the opcode table is a value of the datatype \<open>BaseInstruction\<close>, and
  \<open>execute\<close> is its virtual function.
\<close>

type_synonym 'b execute = "int \<Rightarrow> 'b Bus \<Rightarrow> Registers \<Rightarrow> 'b \<Rightarrow> int \<times> Registers \<times> 'b"

section \<open>Shared helpers\<close>

definition rmwStore ::
  "('p, 'b, 'z) IParams_scheme \<Rightarrow> 'p \<Rightarrow> 'b Bus \<Rightarrow> Registers \<Rightarrow> 'b \<Rightarrow> uint8 \<Rightarrow> uint8
    \<Rightarrow> 'p \<times> Registers \<times> 'b" where
  "rmwStore P p B r b orig val =
     (let (p, r, b) = p_set8bit P B orig p r b
      in p_set8bit P B val p r b)"

definition branch ::
  "('p, 'b, 'z) IParams_scheme \<Rightarrow> 'b Bus \<Rightarrow> Registers \<Rightarrow> 'b \<Rightarrow> uint8 \<Rightarrow> bool \<Rightarrow> int
    \<Rightarrow> int \<times> Registers \<times> 'b" where
  "branch P B r b flag want cycles =
     (let (p, r, b) = p_init P B r b;
          (v, p, b) = p_get8bit P B r p b;
          val = (ucast v :: uint16)
      in if getStatus flag r \<noteq> want then (cycles, r, b)
         else
           let val = (if val AND 0x80 \<noteq> 0 then val OR 0xFF00 else val);
               target = val + reg_pc r;
               extra = (1 :: int);
               extra = (if reg_pc r AND 0xFF00 \<noteq> target AND 0xFF00 then extra + 1 else extra);
               r = r\<lparr>reg_pc := target\<rparr>
           in (cycles + extra, r, b))"

section \<open>Documented instructions\<close>

definition ADC_execute :: "('p, 'b, 'z) IParams_scheme \<Rightarrow> 'b execute" where
  "ADC_execute P n B r b =
     (let (p, r, b) = p_init P B r b;
          (v, p, b) = p_get8bit P B r p b;
          r = adcCore v r
      in (n + p_extraCycles P p, r, b))"

definition AND_execute :: "('p, 'b, 'z) IParams_scheme \<Rightarrow> 'b execute" where
  "AND_execute P n B r b =
     (let (p, r, b) = p_init P B r b;
          (v, p, b) = p_get8bit P B r p b;
          r = r\<lparr>reg_a := reg_a r AND v\<rparr>;
          r = setNZ (reg_a r) r
      in (n + p_extraCycles P p, r, b))"

definition ASL_execute :: "('p, 'b, 'z) IParams_scheme \<Rightarrow> 'b execute" where
  "ASL_execute P n B r b =
     (let (p, r, b) = p_init P B r b;
          (p, b) = p_dummyRead P B r p b;
          (orig, p, b) = p_get8bit P B r p b;
          val = push_bit 1 orig;
          r = setStatus FLAG_C (orig AND 0x80 \<noteq> 0) r;
          r = setNZ val r;
          (p, r, b) = rmwStore P p B r b orig val
      in (n, r, b))"

definition BCC_execute :: "('p, 'b, 'z) IParams_scheme \<Rightarrow> 'b execute" where
  "BCC_execute P n B r b =
     branch P B r b FLAG_C False n"

definition BCS_execute :: "('p, 'b, 'z) IParams_scheme \<Rightarrow> 'b execute" where
  "BCS_execute P n B r b =
     branch P B r b FLAG_C True n"

definition BEQ_execute :: "('p, 'b, 'z) IParams_scheme \<Rightarrow> 'b execute" where
  "BEQ_execute P n B r b =
     branch P B r b FLAG_Z True n"

definition BIT_execute :: "('p, 'b, 'z) IParams_scheme \<Rightarrow> 'b execute" where
  "BIT_execute P n B r b =
     (let (p, r, b) = p_init P B r b;
          (v, p, b) = p_get8bit P B r p b;
          r = setStatus FLAG_V (v AND FLAG_V \<noteq> 0) r;
          r = setStatus FLAG_N (v AND FLAG_N \<noteq> 0) r;
          r = setStatus FLAG_Z (v AND reg_a r = 0) r
      in (n, r, b))"

definition BMI_execute :: "('p, 'b, 'z) IParams_scheme \<Rightarrow> 'b execute" where
  "BMI_execute P n B r b =
     branch P B r b FLAG_N True n"

definition BNE_execute :: "('p, 'b, 'z) IParams_scheme \<Rightarrow> 'b execute" where
  "BNE_execute P n B r b =
     branch P B r b FLAG_Z False n"

definition BPL_execute :: "('p, 'b, 'z) IParams_scheme \<Rightarrow> 'b execute" where
  "BPL_execute P n B r b =
     branch P B r b FLAG_N False n"

definition BRK_execute :: "'b execute" where
  "BRK_execute n B r b =
     (let (r, b) = push16 B (reg_pc r + 1) r b;
          (r, b) = push8 B (reg_sr r OR FLAG_B OR FLAG_U) r b;
          r = setStatus FLAG_I True r;
          (lo, b) = bus_read B 0xFFFE b;
          (hi, b) = bus_read B 0xFFFF b;
          r = r\<lparr>reg_pc := le16 lo hi\<rparr>
      in (n, r, b))"

definition BVC_execute :: "('p, 'b, 'z) IParams_scheme \<Rightarrow> 'b execute" where
  "BVC_execute P n B r b =
     branch P B r b FLAG_V False n"

definition BVS_execute :: "('p, 'b, 'z) IParams_scheme \<Rightarrow> 'b execute" where
  "BVS_execute P n B r b =
     branch P B r b FLAG_V True n"

definition CLC_execute :: "'b execute" where
  "CLC_execute n B r b =
     (n, setStatus FLAG_C False r, b)"

definition CLD_execute :: "'b execute" where
  "CLD_execute n B r b =
     (n, setStatus FLAG_D False r, b)"

definition CLI_execute :: "'b execute" where
  "CLI_execute n B r b =
     (n, setStatus FLAG_I False r, b)"

definition CLV_execute :: "'b execute" where
  "CLV_execute n B r b =
     (n, setStatus FLAG_V False r, b)"

definition CMP_execute :: "('p, 'b, 'z) IParams_scheme \<Rightarrow> 'b execute" where
  "CMP_execute P n B r b =
     (let (p, r, b) = p_init P B r b;
          (v, p, b) = p_get8bit P B r p b;
          r = cmpCore (reg_a r) v r
      in (n + p_extraCycles P p, r, b))"

definition CPX_execute :: "('p, 'b, 'z) IParams_scheme \<Rightarrow> 'b execute" where
  "CPX_execute P n B r b =
     (let (p, r, b) = p_init P B r b;
          (v, p, b) = p_get8bit P B r p b;
          r = cmpCore (reg_x r) v r
      in (n, r, b))"

definition CPY_execute :: "('p, 'b, 'z) IParams_scheme \<Rightarrow> 'b execute" where
  "CPY_execute P n B r b =
     (let (p, r, b) = p_init P B r b;
          (v, p, b) = p_get8bit P B r p b;
          r = cmpCore (reg_y r) v r
      in (n, r, b))"

definition DEC_execute :: "('p, 'b, 'z) IParams_scheme \<Rightarrow> 'b execute" where
  "DEC_execute P n B r b =
     (let (p, r, b) = p_init P B r b;
          (p, b) = p_dummyRead P B r p b;
          (orig, p, b) = p_get8bit P B r p b;
          val = orig - 1;
          (p, r, b) = rmwStore P p B r b orig val;
          r = setNZ val r
      in (n, r, b))"

definition DEX_execute :: "'b execute" where
  "DEX_execute n B r b =
     (let r = r\<lparr>reg_x := reg_x r - 1\<rparr>;
          r = setNZ (reg_x r) r
      in (n, r, b))"

definition DEY_execute :: "'b execute" where
  "DEY_execute n B r b =
     (let r = r\<lparr>reg_y := reg_y r - 1\<rparr>;
          r = setNZ (reg_y r) r
      in (n, r, b))"

definition EOR_execute :: "('p, 'b, 'z) IParams_scheme \<Rightarrow> 'b execute" where
  "EOR_execute P n B r b =
     (let (p, r, b) = p_init P B r b;
          (v, p, b) = p_get8bit P B r p b;
          r = r\<lparr>reg_a := reg_a r XOR v\<rparr>;
          r = setNZ (reg_a r) r
      in (n + p_extraCycles P p, r, b))"

definition INC_execute :: "('p, 'b, 'z) IParams_scheme \<Rightarrow> 'b execute" where
  "INC_execute P n B r b =
     (let (p, r, b) = p_init P B r b;
          (p, b) = p_dummyRead P B r p b;
          (orig, p, b) = p_get8bit P B r p b;
          val = orig + 1;
          (p, r, b) = rmwStore P p B r b orig val;
          r = setNZ val r
      in (n, r, b))"

definition INX_execute :: "'b execute" where
  "INX_execute n B r b =
     (let r = r\<lparr>reg_x := reg_x r + 1\<rparr>;
          r = setNZ (reg_x r) r
      in (n, r, b))"

definition INY_execute :: "'b execute" where
  "INY_execute n B r b =
     (let r = r\<lparr>reg_y := reg_y r + 1\<rparr>;
          r = setNZ (reg_y r) r
      in (n, r, b))"

definition JMP_execute :: "('p, 'b, 'z) IParams_scheme \<Rightarrow> 'b execute" where
  "JMP_execute P n B r b =
     (let (p, r, b) = p_init P B r b;
          (ad, p, b) = p_get16bit P B r p b;
          r = r\<lparr>reg_pc := ad\<rparr>
      in (n, r, b))"

definition JSR_execute :: "('p, 'b, 'z) IParams_scheme \<Rightarrow> 'b execute" where
  "JSR_execute P n B r b =
     (let (p, r, b) = p_init P B r b;
          (ad, p, b) = p_get16bit P B r p b;
          (r, b) = push16 B (reg_pc r - 1) r b;
          r = r\<lparr>reg_pc := ad\<rparr>
      in (n, r, b))"

definition LDA_execute :: "('p, 'b, 'z) IParams_scheme \<Rightarrow> 'b execute" where
  "LDA_execute P n B r b =
     (let (p, r, b) = p_init P B r b;
          (v, p, b) = p_get8bit P B r p b;
          r = r\<lparr>reg_a := v\<rparr>;
          r = setNZ (reg_a r) r
      in (n + p_extraCycles P p, r, b))"

definition LDX_execute :: "('p, 'b, 'z) IParams_scheme \<Rightarrow> 'b execute" where
  "LDX_execute P n B r b =
     (let (p, r, b) = p_init P B r b;
          (v, p, b) = p_get8bit P B r p b;
          r = r\<lparr>reg_x := v\<rparr>;
          r = setNZ (reg_x r) r
      in (n + p_extraCycles P p, r, b))"

definition LDY_execute :: "('p, 'b, 'z) IParams_scheme \<Rightarrow> 'b execute" where
  "LDY_execute P n B r b =
     (let (p, r, b) = p_init P B r b;
          (v, p, b) = p_get8bit P B r p b;
          r = r\<lparr>reg_y := v\<rparr>;
          r = setNZ (reg_y r) r
      in (n + p_extraCycles P p, r, b))"

definition LSR_execute :: "('p, 'b, 'z) IParams_scheme \<Rightarrow> 'b execute" where
  "LSR_execute P n B r b =
     (let (p, r, b) = p_init P B r b;
          (p, b) = p_dummyRead P B r p b;
          (orig, p, b) = p_get8bit P B r p b;
          val = drop_bit 1 orig;
          r = setStatus FLAG_C (orig AND 0x01 \<noteq> 0) r;
          r = setNZ val r;
          (p, r, b) = rmwStore P p B r b orig val
      in (n, r, b))"

definition NOP_execute :: "('p, 'b, 'z) IParams_scheme \<Rightarrow> 'b execute" where
  "NOP_execute P n B r b =
     (let (p, r, b) = p_init P B r b in (n, r, b))"

definition NOPR_execute :: "('p, 'b, 'z) IParams_scheme \<Rightarrow> 'b execute" where
  "NOPR_execute P n B r b =
     (let (p, r, b) = p_init P B r b;
          (v, p, b) = p_get8bit P B r p b
      in (n + p_extraCycles P p, r, b))"

definition ORA_execute :: "('p, 'b, 'z) IParams_scheme \<Rightarrow> 'b execute" where
  "ORA_execute P n B r b =
     (let (p, r, b) = p_init P B r b;
          (v, p, b) = p_get8bit P B r p b;
          r = r\<lparr>reg_a := reg_a r OR v\<rparr>;
          r = setNZ (reg_a r) r
      in (n + p_extraCycles P p, r, b))"

definition PHA_execute :: "'b execute" where
  "PHA_execute n B r b =
     (let (r, b) = push8 B (reg_a r) r b in (n, r, b))"

definition PHP_execute :: "'b execute" where
  "PHP_execute n B r b =
     (let (r, b) = push8 B (reg_sr r OR FLAG_B OR FLAG_U) r b in (n, r, b))"

definition PLA_execute :: "'b execute" where
  "PLA_execute n B r b =
     (let (v, r, b) = pop8 B r b;
          r = r\<lparr>reg_a := v\<rparr>;
          r = setNZ (reg_a r) r
      in (n, r, b))"

definition PLP_execute :: "'b execute" where
  "PLP_execute n B r b =
     (let (v, r, b) = pop8 B r b;
          r = r\<lparr>reg_sr := (v AND NOT FLAG_B) OR FLAG_U\<rparr>
      in (n, r, b))"

definition ROL_execute :: "('p, 'b, 'z) IParams_scheme \<Rightarrow> 'b execute" where
  "ROL_execute P n B r b =
     (let (p, r, b) = p_init P B r b;
          (p, b) = p_dummyRead P B r p b;
          (old, p, b) = p_get8bit P B r p b;
          val = push_bit 1 old OR (if getStatus FLAG_C r then 1 else 0);
          r = setStatus FLAG_C (old AND 0x80 \<noteq> 0) r;
          r = setNZ val r;
          (p, r, b) = rmwStore P p B r b old val
      in (n, r, b))"

definition ROR_execute :: "('p, 'b, 'z) IParams_scheme \<Rightarrow> 'b execute" where
  "ROR_execute P n B r b =
     (let (p, r, b) = p_init P B r b;
          (p, b) = p_dummyRead P B r p b;
          (old, p, b) = p_get8bit P B r p b;
          val = drop_bit 1 old OR (if getStatus FLAG_C r then 0x80 else 0);
          r = setStatus FLAG_C (old AND 0x01 \<noteq> 0) r;
          r = setNZ val r;
          (p, r, b) = rmwStore P p B r b old val
      in (n, r, b))"

definition RTI_execute :: "'b execute" where
  "RTI_execute n B r b =
     (let (v, r, b) = pop8 B r b;
          r = r\<lparr>reg_sr := (v AND NOT FLAG_B) OR FLAG_U\<rparr>;
          (w, r, b) = pop16 B r b;
          r = r\<lparr>reg_pc := w\<rparr>
      in (n, r, b))"

definition RTS_execute :: "'b execute" where
  "RTS_execute n B r b =
     (let (w, r, b) = pop16 B r b;
          r = r\<lparr>reg_pc := w + 1\<rparr>
      in (n, r, b))"

definition SBC_execute :: "('p, 'b, 'z) IParams_scheme \<Rightarrow> 'b execute" where
  "SBC_execute P n B r b =
     (let (p, r, b) = p_init P B r b;
          (v, p, b) = p_get8bit P B r p b;
          r = sbcCore v r
      in (n + p_extraCycles P p, r, b))"

definition SEC_execute :: "'b execute" where
  "SEC_execute n B r b =
     (n, setStatus FLAG_C True r, b)"

definition SED_execute :: "'b execute" where
  "SED_execute n B r b =
     (n, setStatus FLAG_D True r, b)"

definition SEI_execute :: "'b execute" where
  "SEI_execute n B r b =
     (n, setStatus FLAG_I True r, b)"

definition STA_execute :: "('p, 'b, 'z) IParams_scheme \<Rightarrow> 'b execute" where
  "STA_execute P n B r b =
     (let (p, r, b) = p_init P B r b;
          (p, b) = p_dummyRead P B r p b;
          (p, r, b) = p_set8bit P B (reg_a r) p r b
      in (n, r, b))"

definition STX_execute :: "('p, 'b, 'z) IParams_scheme \<Rightarrow> 'b execute" where
  "STX_execute P n B r b =
     (let (p, r, b) = p_init P B r b;
          (p, b) = p_dummyRead P B r p b;
          (p, r, b) = p_set8bit P B (reg_x r) p r b
      in (n, r, b))"

definition STY_execute :: "('p, 'b, 'z) IParams_scheme \<Rightarrow> 'b execute" where
  "STY_execute P n B r b =
     (let (p, r, b) = p_init P B r b;
          (p, b) = p_dummyRead P B r p b;
          (p, r, b) = p_set8bit P B (reg_y r) p r b
      in (n, r, b))"

definition TAX_execute :: "'b execute" where
  "TAX_execute n B r b =
     (let r = r\<lparr>reg_x := reg_a r\<rparr>;
          r = setNZ (reg_x r) r
      in (n, r, b))"

definition TAY_execute :: "'b execute" where
  "TAY_execute n B r b =
     (let r = r\<lparr>reg_y := reg_a r\<rparr>;
          r = setNZ (reg_y r) r
      in (n, r, b))"

definition TSX_execute :: "'b execute" where
  "TSX_execute n B r b =
     (let r = r\<lparr>reg_x := reg_sp r\<rparr>;
          r = setNZ (reg_x r) r
      in (n, r, b))"

definition TXA_execute :: "'b execute" where
  "TXA_execute n B r b =
     (let r = r\<lparr>reg_a := reg_x r\<rparr>;
          r = setNZ (reg_a r) r
      in (n, r, b))"

definition TXS_execute :: "'b execute" where
  "TXS_execute n B r b =
     (n, r\<lparr>reg_sp := reg_x r\<rparr>, b)"

definition TYA_execute :: "'b execute" where
  "TYA_execute n B r b =
     (let r = r\<lparr>reg_a := reg_y r\<rparr>;
          r = setNZ (reg_a r) r
      in (n, r, b))"

section \<open>Undocumented instructions\<close>

definition LAX_execute :: "('p, 'b, 'z) IParams_scheme \<Rightarrow> 'b execute" where
  "LAX_execute P n B r b =
     (let (p, r, b) = p_init P B r b;
          (v, p, b) = p_get8bit P B r p b;
          r = r\<lparr>reg_x := v\<rparr>;
          r = r\<lparr>reg_a := reg_x r\<rparr>;
          r = setNZ (reg_a r) r
      in (n + p_extraCycles P p, r, b))"

definition SAX_execute :: "('p, 'b, 'z) IParams_scheme \<Rightarrow> 'b execute" where
  "SAX_execute P n B r b =
     (let (p, r, b) = p_init P B r b;
          (p, b) = p_dummyRead P B r p b;
          (p, r, b) = p_set8bit P B (reg_a r AND reg_x r) p r b
      in (n, r, b))"

definition DCP_execute :: "('p, 'b, 'z) IParams_scheme \<Rightarrow> 'b execute" where
  "DCP_execute P n B r b =
     (let (p, r, b) = p_init P B r b;
          (p, b) = p_dummyRead P B r p b;
          (orig, p, b) = p_get8bit P B r p b;
          val = orig - 1;
          (p, r, b) = rmwStore P p B r b orig val;
          r = cmpCore (reg_a r) val r
      in (n, r, b))"

definition ISC_execute :: "('p, 'b, 'z) IParams_scheme \<Rightarrow> 'b execute" where
  "ISC_execute P n B r b =
     (let (p, r, b) = p_init P B r b;
          (p, b) = p_dummyRead P B r p b;
          (orig, p, b) = p_get8bit P B r p b;
          val = orig + 1;
          (p, r, b) = rmwStore P p B r b orig val;
          r = sbcCore val r
      in (n, r, b))"

definition SLO_execute :: "('p, 'b, 'z) IParams_scheme \<Rightarrow> 'b execute" where
  "SLO_execute P n B r b =
     (let (p, r, b) = p_init P B r b;
          (p, b) = p_dummyRead P B r p b;
          (orig, p, b) = p_get8bit P B r p b;
          val = push_bit 1 orig;
          r = setStatus FLAG_C (orig AND 0x80 \<noteq> 0) r;
          (p, r, b) = rmwStore P p B r b orig val;
          r = r\<lparr>reg_a := reg_a r OR val\<rparr>;
          r = setNZ (reg_a r) r
      in (n, r, b))"

definition RLA_execute :: "('p, 'b, 'z) IParams_scheme \<Rightarrow> 'b execute" where
  "RLA_execute P n B r b =
     (let (p, r, b) = p_init P B r b;
          (p, b) = p_dummyRead P B r p b;
          (old, p, b) = p_get8bit P B r p b;
          val = push_bit 1 old OR (if getStatus FLAG_C r then 1 else 0);
          r = setStatus FLAG_C (old AND 0x80 \<noteq> 0) r;
          (p, r, b) = rmwStore P p B r b old val;
          r = r\<lparr>reg_a := reg_a r AND val\<rparr>;
          r = setNZ (reg_a r) r
      in (n, r, b))"

definition SRE_execute :: "('p, 'b, 'z) IParams_scheme \<Rightarrow> 'b execute" where
  "SRE_execute P n B r b =
     (let (p, r, b) = p_init P B r b;
          (p, b) = p_dummyRead P B r p b;
          (orig, p, b) = p_get8bit P B r p b;
          val = drop_bit 1 orig;
          r = setStatus FLAG_C (orig AND 0x01 \<noteq> 0) r;
          (p, r, b) = rmwStore P p B r b orig val;
          r = r\<lparr>reg_a := reg_a r XOR val\<rparr>;
          r = setNZ (reg_a r) r
      in (n, r, b))"

definition RRA_execute :: "('p, 'b, 'z) IParams_scheme \<Rightarrow> 'b execute" where
  "RRA_execute P n B r b =
     (let (p, r, b) = p_init P B r b;
          (p, b) = p_dummyRead P B r p b;
          (old, p, b) = p_get8bit P B r p b;
          val = drop_bit 1 old OR (if getStatus FLAG_C r then 0x80 else 0);
          r = setStatus FLAG_C (old AND 0x01 \<noteq> 0) r;
          (p, r, b) = rmwStore P p B r b old val;
          r = adcCore val r
      in (n, r, b))"

definition ANC_execute :: "('p, 'b, 'z) IParams_scheme \<Rightarrow> 'b execute" where
  "ANC_execute P n B r b =
     (let (p, r, b) = p_init P B r b;
          (v, p, b) = p_get8bit P B r p b;
          r = r\<lparr>reg_a := reg_a r AND v\<rparr>;
          r = setNZ (reg_a r) r;
          r = setStatus FLAG_C (reg_a r AND 0x80 \<noteq> 0) r
      in (n, r, b))"

definition ALR_execute :: "('p, 'b, 'z) IParams_scheme \<Rightarrow> 'b execute" where
  "ALR_execute P n B r b =
     (let (p, r, b) = p_init P B r b;
          (v, p, b) = p_get8bit P B r p b;
          val = reg_a r AND v;
          r = setStatus FLAG_C (val AND 0x01 \<noteq> 0) r;
          r = r\<lparr>reg_a := drop_bit 1 val\<rparr>;
          r = setNZ (reg_a r) r
      in (n, r, b))"

definition ARR_execute :: "('p, 'b, 'z) IParams_scheme \<Rightarrow> 'b execute" where
  "ARR_execute P n B r b =
     (let (p, r, b) = p_init P B r b;
          (v, p, b) = p_get8bit P B r p b;
          val = reg_a r AND v;
          r = r\<lparr>reg_a := drop_bit 1 val OR (if getStatus FLAG_C r then 0x80 else 0)\<rparr>;
          r = setNZ (reg_a r) r;
          r = setStatus FLAG_C (reg_a r AND 0x40 \<noteq> 0) r;
          r = setStatus FLAG_V ((drop_bit 6 (reg_a r) XOR drop_bit 5 (reg_a r)) AND 0x01 \<noteq> 0) r
      in (n, r, b))"

definition SBX_execute :: "('p, 'b, 'z) IParams_scheme \<Rightarrow> 'b execute" where
  "SBX_execute P n B r b =
     (let (p, r, b) = p_init P B r b;
          (v, p, b) = p_get8bit P B r p b;
          lhs = reg_a r AND reg_x r;
          r = setStatus FLAG_C (v \<le> lhs) r;
          r = r\<lparr>reg_x := lhs - v\<rparr>;
          r = setNZ (reg_x r) r
      in (n, r, b))"

definition LAS_execute :: "('p, 'b, 'z) IParams_scheme \<Rightarrow> 'b execute" where
  "LAS_execute P n B r b =
     (let (p, r, b) = p_init P B r b;
          (v, p, b) = p_get8bit P B r p b;
          val = v AND reg_sp r;
          r = r\<lparr>reg_sp := val\<rparr>;
          r = r\<lparr>reg_x := reg_sp r\<rparr>;
          r = r\<lparr>reg_a := reg_x r\<rparr>;
          r = setNZ val r
      in (n + p_extraCycles P p, r, b))"

text \<open>
  \<open>SHx\<close> takes the register selector of its template as \<open>Reg\<close>: 0 is SHA, 1 SHX, 2 SHY, 3 TAS.
\<close>

definition SHx_execute :: "('p, 'b, 'z) IndexedParams_scheme \<Rightarrow> nat \<Rightarrow> 'b execute" where
  "SHx_execute P Reg n B r b =
     (let (p, r, b) = p_init P B r b;
          src = (if Reg = 1 then reg_x r
                 else if Reg = 2 then reg_y r
                 else reg_a r AND reg_x r);
          r = (if Reg = 3 then r\<lparr>reg_sp := reg_a r AND reg_x r\<rparr> else r);
          (base, p, b) = p_base P B r p b;
          hi = ucast (drop_bit 8 base + 1);
          (p, r, b) = p_set8bit P B (src AND hi) p r b
      in (n, r, b))"

definition XAA_execute :: "('p, 'b, 'z) IParams_scheme \<Rightarrow> 'b execute" where
  "XAA_execute P n B r b =
     (let (p, r, b) = p_init P B r b;
          (v, p, b) = p_get8bit P B r p b;
          r = r\<lparr>reg_a := (reg_a r OR 0xEE) AND reg_x r AND v\<rparr>;
          r = setNZ (reg_a r) r
      in (n, r, b))"

definition KIL_execute :: "'b execute" where
  "KIL_execute n B r b =
     (n, r\<lparr>reg_pc := reg_pc r - 1\<rparr>, b)"

section \<open>Instruction objects\<close>

text \<open>The instruction classes whose template takes a policy and a cycle count.\<close>

datatype (plugins only: code) Impl =
    ADC_Impl | AND_Impl | ASL_Impl | BCC_Impl | BCS_Impl | BEQ_Impl | BIT_Impl | BMI_Impl | BNE_Impl
  | BPL_Impl | BRK_Impl | BVC_Impl | BVS_Impl | CLC_Impl | CLD_Impl | CLI_Impl | CLV_Impl | CMP_Impl
  | CPX_Impl | CPY_Impl | DEC_Impl | DEX_Impl | DEY_Impl | EOR_Impl | INC_Impl | INX_Impl | INY_Impl
  | JMP_Impl | JSR_Impl | LDA_Impl | LDX_Impl | LDY_Impl | LSR_Impl | NOP_Impl | NOPR_Impl | ORA_Impl
  | PHA_Impl | PHP_Impl | PLA_Impl | PLP_Impl | ROL_Impl | ROR_Impl | RTI_Impl | RTS_Impl | SBC_Impl
  | SEC_Impl | SED_Impl | SEI_Impl | STA_Impl | STX_Impl | STY_Impl | TAX_Impl | TAY_Impl | TSX_Impl
  | TXA_Impl | TXS_Impl | TYA_Impl | LAX_Impl | SAX_Impl | DCP_Impl | ISC_Impl | SLO_Impl | RLA_Impl
  | SRE_Impl | RRA_Impl | ANC_Impl | ALR_Impl | ARR_Impl | SBX_Impl | LAS_Impl | XAA_Impl | KIL_Impl

primrec execute_with :: "('p, 'b, 'z) IParams_scheme \<Rightarrow> Impl \<Rightarrow> 'b execute" where
  "execute_with P ADC_Impl n B r b = ADC_execute P n B r b"
| "execute_with P AND_Impl n B r b = AND_execute P n B r b"
| "execute_with P ASL_Impl n B r b = ASL_execute P n B r b"
| "execute_with P BCC_Impl n B r b = BCC_execute P n B r b"
| "execute_with P BCS_Impl n B r b = BCS_execute P n B r b"
| "execute_with P BEQ_Impl n B r b = BEQ_execute P n B r b"
| "execute_with P BIT_Impl n B r b = BIT_execute P n B r b"
| "execute_with P BMI_Impl n B r b = BMI_execute P n B r b"
| "execute_with P BNE_Impl n B r b = BNE_execute P n B r b"
| "execute_with P BPL_Impl n B r b = BPL_execute P n B r b"
| "execute_with P BRK_Impl n B r b = BRK_execute n B r b"
| "execute_with P BVC_Impl n B r b = BVC_execute P n B r b"
| "execute_with P BVS_Impl n B r b = BVS_execute P n B r b"
| "execute_with P CLC_Impl n B r b = CLC_execute n B r b"
| "execute_with P CLD_Impl n B r b = CLD_execute n B r b"
| "execute_with P CLI_Impl n B r b = CLI_execute n B r b"
| "execute_with P CLV_Impl n B r b = CLV_execute n B r b"
| "execute_with P CMP_Impl n B r b = CMP_execute P n B r b"
| "execute_with P CPX_Impl n B r b = CPX_execute P n B r b"
| "execute_with P CPY_Impl n B r b = CPY_execute P n B r b"
| "execute_with P DEC_Impl n B r b = DEC_execute P n B r b"
| "execute_with P DEX_Impl n B r b = DEX_execute n B r b"
| "execute_with P DEY_Impl n B r b = DEY_execute n B r b"
| "execute_with P EOR_Impl n B r b = EOR_execute P n B r b"
| "execute_with P INC_Impl n B r b = INC_execute P n B r b"
| "execute_with P INX_Impl n B r b = INX_execute n B r b"
| "execute_with P INY_Impl n B r b = INY_execute n B r b"
| "execute_with P JMP_Impl n B r b = JMP_execute P n B r b"
| "execute_with P JSR_Impl n B r b = JSR_execute P n B r b"
| "execute_with P LDA_Impl n B r b = LDA_execute P n B r b"
| "execute_with P LDX_Impl n B r b = LDX_execute P n B r b"
| "execute_with P LDY_Impl n B r b = LDY_execute P n B r b"
| "execute_with P LSR_Impl n B r b = LSR_execute P n B r b"
| "execute_with P NOP_Impl n B r b = NOP_execute P n B r b"
| "execute_with P NOPR_Impl n B r b = NOPR_execute P n B r b"
| "execute_with P ORA_Impl n B r b = ORA_execute P n B r b"
| "execute_with P PHA_Impl n B r b = PHA_execute n B r b"
| "execute_with P PHP_Impl n B r b = PHP_execute n B r b"
| "execute_with P PLA_Impl n B r b = PLA_execute n B r b"
| "execute_with P PLP_Impl n B r b = PLP_execute n B r b"
| "execute_with P ROL_Impl n B r b = ROL_execute P n B r b"
| "execute_with P ROR_Impl n B r b = ROR_execute P n B r b"
| "execute_with P RTI_Impl n B r b = RTI_execute n B r b"
| "execute_with P RTS_Impl n B r b = RTS_execute n B r b"
| "execute_with P SBC_Impl n B r b = SBC_execute P n B r b"
| "execute_with P SEC_Impl n B r b = SEC_execute n B r b"
| "execute_with P SED_Impl n B r b = SED_execute n B r b"
| "execute_with P SEI_Impl n B r b = SEI_execute n B r b"
| "execute_with P STA_Impl n B r b = STA_execute P n B r b"
| "execute_with P STX_Impl n B r b = STX_execute P n B r b"
| "execute_with P STY_Impl n B r b = STY_execute P n B r b"
| "execute_with P TAX_Impl n B r b = TAX_execute n B r b"
| "execute_with P TAY_Impl n B r b = TAY_execute n B r b"
| "execute_with P TSX_Impl n B r b = TSX_execute n B r b"
| "execute_with P TXA_Impl n B r b = TXA_execute n B r b"
| "execute_with P TXS_Impl n B r b = TXS_execute n B r b"
| "execute_with P TYA_Impl n B r b = TYA_execute n B r b"
| "execute_with P LAX_Impl n B r b = LAX_execute P n B r b"
| "execute_with P SAX_Impl n B r b = SAX_execute P n B r b"
| "execute_with P DCP_Impl n B r b = DCP_execute P n B r b"
| "execute_with P ISC_Impl n B r b = ISC_execute P n B r b"
| "execute_with P SLO_Impl n B r b = SLO_execute P n B r b"
| "execute_with P RLA_Impl n B r b = RLA_execute P n B r b"
| "execute_with P SRE_Impl n B r b = SRE_execute P n B r b"
| "execute_with P RRA_Impl n B r b = RRA_execute P n B r b"
| "execute_with P ANC_Impl n B r b = ANC_execute P n B r b"
| "execute_with P ALR_Impl n B r b = ALR_execute P n B r b"
| "execute_with P ARR_Impl n B r b = ARR_execute P n B r b"
| "execute_with P SBX_Impl n B r b = SBX_execute P n B r b"
| "execute_with P LAS_Impl n B r b = LAS_execute P n B r b"
| "execute_with P XAA_Impl n B r b = XAA_execute P n B r b"
| "execute_with P KIL_Impl n B r b = KIL_execute n B r b"

text \<open>
  A table entry \<^verbatim>\<open>new ADC_Impl<AbsoluteXParams, 4>()\<close> is \<open>Inst ADC_Impl AbsoluteX 4\<close>, and
  \<^verbatim>\<open>new SHx_Impl<AbsoluteYParams, 5, 3>()\<close> is \<open>SHx_Inst ByAbsoluteY 5 3\<close>: that template only
  compiles for the three modes with a \<open>base\<close>.
\<close>

datatype IndexedMode = ByAbsoluteX | ByAbsoluteY | ByIndirectY

datatype BaseInstruction = Inst Impl Params int | SHx_Inst IndexedMode int nat

fun execute :: "BaseInstruction \<Rightarrow> 'b Bus \<Rightarrow> Registers \<Rightarrow> 'b \<Rightarrow> int \<times> Registers \<times> 'b" where
  "execute (Inst I Null n) = execute_with NullParams I n"
| "execute (Inst I Accumulator n) = execute_with AccumulatorParams I n"
| "execute (Inst I Immediate n) = execute_with ImmediateParams I n"
| "execute (Inst I Relative n) = execute_with RelativeParams I n"
| "execute (Inst I AbsConst n) = execute_with AbsConstParams I n"
| "execute (Inst I ZeroPage n) = execute_with ZeroPageParams I n"
| "execute (Inst I ZeroPageX n) = execute_with ZeroPageXParams I n"
| "execute (Inst I ZeroPageY n) = execute_with ZeroPageYParams I n"
| "execute (Inst I Absolute n) = execute_with AbsoluteParams I n"
| "execute (Inst I AbsoluteX n) = execute_with AbsoluteXParams I n"
| "execute (Inst I AbsoluteY n) = execute_with AbsoluteYParams I n"
| "execute (Inst I Indirect n) = execute_with IndirectParams I n"
| "execute (Inst I IndirectX n) = execute_with IndirectXParams I n"
| "execute (Inst I IndirectY n) = execute_with IndirectYParams I n"
| "execute (SHx_Inst ByAbsoluteX n Reg) = SHx_execute AbsoluteXParams Reg n"
| "execute (SHx_Inst ByAbsoluteY n Reg) = SHx_execute AbsoluteYParams Reg n"
| "execute (SHx_Inst ByIndirectY n Reg) = SHx_execute IndirectYParams Reg n"

end
