(* ===== verification/Opcode_Matrix.thy ===== *)
theory Opcode_Matrix
  imports Instruction_Set
begin

text \<open>
  The opcode matrix \<open>Processor::_instruction_table\<close> of \<^verbatim>\<open>src/Processor.cpp\<close>, row by row as the
  source lays it out. The lemmas say that it covers every opcode byte and that its base cycle
  counts are those the addressing mode and the kind of instruction determine.
\<close>

section \<open>The table\<close>

definition row_0 :: "BaseInstruction list" where
  "row_0 =
    [Inst BRK_Impl Null 7, Inst ORA_Impl IndirectX 6, Inst KIL_Impl Null 3,
     Inst SLO_Impl IndirectX 8, Inst NOPR_Impl ZeroPage 3, Inst ORA_Impl ZeroPage 3,
     Inst ASL_Impl ZeroPage 5, Inst SLO_Impl ZeroPage 5, Inst PHP_Impl Null 3,
     Inst ORA_Impl Immediate 2, Inst ASL_Impl Accumulator 2, Inst ANC_Impl Immediate 2,
     Inst NOPR_Impl Absolute 4, Inst ORA_Impl Absolute 4, Inst ASL_Impl Absolute 6,
     Inst SLO_Impl Absolute 6]"

definition row_1 :: "BaseInstruction list" where
  "row_1 =
    [Inst BPL_Impl Relative 2, Inst ORA_Impl IndirectY 5, Inst KIL_Impl Null 3,
     Inst SLO_Impl IndirectY 8, Inst NOPR_Impl ZeroPageX 4, Inst ORA_Impl ZeroPageX 4,
     Inst ASL_Impl ZeroPageX 6, Inst SLO_Impl ZeroPageX 6, Inst CLC_Impl Null 2,
     Inst ORA_Impl AbsoluteY 4, Inst NOP_Impl Null 2, Inst SLO_Impl AbsoluteY 7,
     Inst NOPR_Impl AbsoluteX 4, Inst ORA_Impl AbsoluteX 4, Inst ASL_Impl AbsoluteX 7,
     Inst SLO_Impl AbsoluteX 7]"

definition row_2 :: "BaseInstruction list" where
  "row_2 =
    [Inst JSR_Impl AbsConst 6, Inst AND_Impl IndirectX 6, Inst KIL_Impl Null 3,
     Inst RLA_Impl IndirectX 8, Inst BIT_Impl ZeroPage 3, Inst AND_Impl ZeroPage 3,
     Inst ROL_Impl ZeroPage 5, Inst RLA_Impl ZeroPage 5, Inst PLP_Impl Null 4,
     Inst AND_Impl Immediate 2, Inst ROL_Impl Accumulator 2, Inst ANC_Impl Immediate 2,
     Inst BIT_Impl Absolute 4, Inst AND_Impl Absolute 4, Inst ROL_Impl Absolute 6,
     Inst RLA_Impl Absolute 6]"

definition row_3 :: "BaseInstruction list" where
  "row_3 =
    [Inst BMI_Impl Relative 2, Inst AND_Impl IndirectY 5, Inst KIL_Impl Null 3,
     Inst RLA_Impl IndirectY 8, Inst NOPR_Impl ZeroPageX 4, Inst AND_Impl ZeroPageX 4,
     Inst ROL_Impl ZeroPageX 6, Inst RLA_Impl ZeroPageX 6, Inst SEC_Impl Null 2,
     Inst AND_Impl AbsoluteY 4, Inst NOP_Impl Null 2, Inst RLA_Impl AbsoluteY 7,
     Inst NOPR_Impl AbsoluteX 4, Inst AND_Impl AbsoluteX 4, Inst ROL_Impl AbsoluteX 7,
     Inst RLA_Impl AbsoluteX 7]"

definition row_4 :: "BaseInstruction list" where
  "row_4 =
    [Inst RTI_Impl Null 6, Inst EOR_Impl IndirectX 6, Inst KIL_Impl Null 3,
     Inst SRE_Impl IndirectX 8, Inst NOPR_Impl ZeroPage 3, Inst EOR_Impl ZeroPage 3,
     Inst LSR_Impl ZeroPage 5, Inst SRE_Impl ZeroPage 5, Inst PHA_Impl Null 3,
     Inst EOR_Impl Immediate 2, Inst LSR_Impl Accumulator 2, Inst ALR_Impl Immediate 2,
     Inst JMP_Impl AbsConst 3, Inst EOR_Impl Absolute 4, Inst LSR_Impl Absolute 6,
     Inst SRE_Impl Absolute 6]"

definition row_5 :: "BaseInstruction list" where
  "row_5 =
    [Inst BVC_Impl Relative 2, Inst EOR_Impl IndirectY 5, Inst KIL_Impl Null 3,
     Inst SRE_Impl IndirectY 8, Inst NOPR_Impl ZeroPageX 4, Inst EOR_Impl ZeroPageX 4,
     Inst LSR_Impl ZeroPageX 6, Inst SRE_Impl ZeroPageX 6, Inst CLI_Impl Null 2,
     Inst EOR_Impl AbsoluteY 4, Inst NOP_Impl Null 2, Inst SRE_Impl AbsoluteY 7,
     Inst NOPR_Impl AbsoluteX 4, Inst EOR_Impl AbsoluteX 4, Inst LSR_Impl AbsoluteX 7,
     Inst SRE_Impl AbsoluteX 7]"

definition row_6 :: "BaseInstruction list" where
  "row_6 =
    [Inst RTS_Impl Null 6, Inst ADC_Impl IndirectX 6, Inst KIL_Impl Null 3,
     Inst RRA_Impl IndirectX 8, Inst NOPR_Impl ZeroPage 3, Inst ADC_Impl ZeroPage 3,
     Inst ROR_Impl ZeroPage 5, Inst RRA_Impl ZeroPage 5, Inst PLA_Impl Null 4,
     Inst ADC_Impl Immediate 2, Inst ROR_Impl Accumulator 2, Inst ARR_Impl Immediate 2,
     Inst JMP_Impl Indirect 5, Inst ADC_Impl Absolute 4, Inst ROR_Impl Absolute 6,
     Inst RRA_Impl Absolute 6]"

definition row_7 :: "BaseInstruction list" where
  "row_7 =
    [Inst BVS_Impl Relative 2, Inst ADC_Impl IndirectY 5, Inst KIL_Impl Null 3,
     Inst RRA_Impl IndirectY 8, Inst NOPR_Impl ZeroPageX 4, Inst ADC_Impl ZeroPageX 4,
     Inst ROR_Impl ZeroPageX 6, Inst RRA_Impl ZeroPageX 6, Inst SEI_Impl Null 2,
     Inst ADC_Impl AbsoluteY 4, Inst NOP_Impl Null 2, Inst RRA_Impl AbsoluteY 7,
     Inst NOPR_Impl AbsoluteX 4, Inst ADC_Impl AbsoluteX 4, Inst ROR_Impl AbsoluteX 7,
     Inst RRA_Impl AbsoluteX 7]"

definition row_8 :: "BaseInstruction list" where
  "row_8 =
    [Inst NOP_Impl Immediate 2, Inst STA_Impl IndirectX 6, Inst NOP_Impl Immediate 2,
     Inst SAX_Impl IndirectX 6, Inst STY_Impl ZeroPage 3, Inst STA_Impl ZeroPage 3,
     Inst STX_Impl ZeroPage 3, Inst SAX_Impl ZeroPage 3, Inst DEY_Impl Null 2,
     Inst NOP_Impl Immediate 2, Inst TXA_Impl Null 2, Inst XAA_Impl Immediate 2,
     Inst STY_Impl Absolute 4, Inst STA_Impl Absolute 4, Inst STX_Impl Absolute 4,
     Inst SAX_Impl Absolute 4]"

definition row_9 :: "BaseInstruction list" where
  "row_9 =
    [Inst BCC_Impl Relative 2, Inst STA_Impl IndirectY 6, Inst KIL_Impl Null 3,
     SHx_Inst ByIndirectY 6 0, Inst STY_Impl ZeroPageX 4, Inst STA_Impl ZeroPageX 4,
     Inst STX_Impl ZeroPageY 4, Inst SAX_Impl ZeroPageY 4, Inst TYA_Impl Null 2,
     Inst STA_Impl AbsoluteY 5, Inst TXS_Impl Null 2, SHx_Inst ByAbsoluteY 5 3,
     SHx_Inst ByAbsoluteX 5 2, Inst STA_Impl AbsoluteX 5, SHx_Inst ByAbsoluteY 5 1,
     SHx_Inst ByAbsoluteY 5 0]"

definition row_A :: "BaseInstruction list" where
  "row_A =
    [Inst LDY_Impl Immediate 2, Inst LDA_Impl IndirectX 6, Inst LDX_Impl Immediate 2,
     Inst LAX_Impl IndirectX 6, Inst LDY_Impl ZeroPage 3, Inst LDA_Impl ZeroPage 3,
     Inst LDX_Impl ZeroPage 3, Inst LAX_Impl ZeroPage 3, Inst TAY_Impl Null 2,
     Inst LDA_Impl Immediate 2, Inst TAX_Impl Null 2, Inst LAX_Impl Immediate 2,
     Inst LDY_Impl Absolute 4, Inst LDA_Impl Absolute 4, Inst LDX_Impl Absolute 4,
     Inst LAX_Impl Absolute 4]"

definition row_B :: "BaseInstruction list" where
  "row_B =
    [Inst BCS_Impl Relative 2, Inst LDA_Impl IndirectY 5, Inst KIL_Impl Null 3,
     Inst LAX_Impl IndirectY 5, Inst LDY_Impl ZeroPageX 4, Inst LDA_Impl ZeroPageX 4,
     Inst LDX_Impl ZeroPageY 4, Inst LAX_Impl ZeroPageY 4, Inst CLV_Impl Null 2,
     Inst LDA_Impl AbsoluteY 4, Inst TSX_Impl Null 2, Inst LAS_Impl AbsoluteY 4,
     Inst LDY_Impl AbsoluteX 4, Inst LDA_Impl AbsoluteX 4, Inst LDX_Impl AbsoluteY 4,
     Inst LAX_Impl AbsoluteY 4]"

definition row_C :: "BaseInstruction list" where
  "row_C =
    [Inst CPY_Impl Immediate 2, Inst CMP_Impl IndirectX 6, Inst NOP_Impl Immediate 2,
     Inst DCP_Impl IndirectX 8, Inst CPY_Impl ZeroPage 3, Inst CMP_Impl ZeroPage 3,
     Inst DEC_Impl ZeroPage 5, Inst DCP_Impl ZeroPage 5, Inst INY_Impl Null 2,
     Inst CMP_Impl Immediate 2, Inst DEX_Impl Null 2, Inst SBX_Impl Immediate 2,
     Inst CPY_Impl Absolute 4, Inst CMP_Impl Absolute 4, Inst DEC_Impl Absolute 6,
     Inst DCP_Impl Absolute 6]"

definition row_D :: "BaseInstruction list" where
  "row_D =
    [Inst BNE_Impl Relative 2, Inst CMP_Impl IndirectY 5, Inst KIL_Impl Null 3,
     Inst DCP_Impl IndirectY 8, Inst NOPR_Impl ZeroPageX 4, Inst CMP_Impl ZeroPageX 4,
     Inst DEC_Impl ZeroPageX 6, Inst DCP_Impl ZeroPageX 6, Inst CLD_Impl Null 2,
     Inst CMP_Impl AbsoluteY 4, Inst NOP_Impl Null 2, Inst DCP_Impl AbsoluteY 7,
     Inst NOPR_Impl AbsoluteX 4, Inst CMP_Impl AbsoluteX 4, Inst DEC_Impl AbsoluteX 7,
     Inst DCP_Impl AbsoluteX 7]"

definition row_E :: "BaseInstruction list" where
  "row_E =
    [Inst CPX_Impl Immediate 2, Inst SBC_Impl IndirectX 6, Inst NOP_Impl Immediate 2,
     Inst ISC_Impl IndirectX 8, Inst CPX_Impl ZeroPage 3, Inst SBC_Impl ZeroPage 3,
     Inst INC_Impl ZeroPage 5, Inst ISC_Impl ZeroPage 5, Inst INX_Impl Null 2,
     Inst SBC_Impl Immediate 2, Inst NOP_Impl Null 2, Inst SBC_Impl Immediate 2,
     Inst CPX_Impl Absolute 4, Inst SBC_Impl Absolute 4, Inst INC_Impl Absolute 6,
     Inst ISC_Impl Absolute 6]"

definition row_F :: "BaseInstruction list" where
  "row_F =
    [Inst BEQ_Impl Relative 2, Inst SBC_Impl IndirectY 5, Inst KIL_Impl Null 3,
     Inst ISC_Impl IndirectY 8, Inst NOPR_Impl ZeroPageX 4, Inst SBC_Impl ZeroPageX 4,
     Inst INC_Impl ZeroPageX 6, Inst ISC_Impl ZeroPageX 6, Inst SED_Impl Null 2,
     Inst SBC_Impl AbsoluteY 4, Inst NOP_Impl Null 2, Inst ISC_Impl AbsoluteY 7,
     Inst NOPR_Impl AbsoluteX 4, Inst SBC_Impl AbsoluteX 4, Inst INC_Impl AbsoluteX 7,
     Inst ISC_Impl AbsoluteX 7]"

definition instruction_table :: "BaseInstruction list" where
  "instruction_table = row_0 @ row_1 @ row_2 @ row_3 @ row_4 @ row_5 @ row_6 @ row_7
     @ row_8 @ row_9 @ row_A @ row_B @ row_C @ row_D @ row_E @ row_F"

definition instr_of :: "uint8 \<Rightarrow> BaseInstruction" where
  "instr_of code = instruction_table ! unat code"

lemmas row_defs = row_0_def row_1_def row_2_def row_3_def row_4_def row_5_def row_6_def row_7_def
  row_8_def row_9_def row_A_def row_B_def row_C_def row_D_def row_E_def row_F_def

lemma instruction_table_length [simp]: "length instruction_table = 256"
  by (simp add: instruction_table_def row_defs)

text \<open>A property checked along the table holds for the instruction of every opcode byte.\<close>

lemma instr_of_all: "table_all Q 0 instruction_table \<Longrightarrow> Q code (instr_of code)"
  unfolding instr_of_def by (rule table_all_byte) simp_all

end
