(* ===== verification/Emu_Clock.thy ===== *)
theory Emu_Clock
  imports Prelude
begin

text \<open>
  \<^verbatim>\<open>include/6502cc/emu_clock.h\<close> and \<^verbatim>\<open>src/emuclock.cpp\<close>: the virtual clock interface as a table
  of its functions over a clock state \<open>'k\<close>, and the free-running \<open>default_clock\<close>, whose state is
  the 64-bit cycle counter. The locale \<open>counting_clock\<close> is what the processor relies on: charging
  cycles adds them to the counter modulo 2^64.
\<close>

type_synonym uint64 = "64 word"

record 'k Clock =
  clk_beginCycle :: "'k \<Rightarrow> 'k"
  clk_waitCycles :: "int \<Rightarrow> 'k \<Rightarrow> 'k"
  clk_reset :: "'k \<Rightarrow> 'k"
  clk_cycles :: "'k \<Rightarrow> uint64"

section \<open>The default clock\<close>

definition default_clock_new :: uint64 where
  "default_clock_new = 0"

definition default_beginCycle :: "uint64 \<Rightarrow> uint64" where
  "default_beginCycle m_current_cycles = m_current_cycles"

definition default_waitCycles :: "int \<Rightarrow> uint64 \<Rightarrow> uint64" where
  "default_waitCycles cycles m_current_cycles = m_current_cycles + of_int cycles"

definition default_cycles :: "uint64 \<Rightarrow> uint64" where
  "default_cycles m_current_cycles = m_current_cycles"

definition default_reset :: "uint64 \<Rightarrow> uint64" where
  "default_reset m_current_cycles = 0"

definition default_clock :: "uint64 Clock" where
  "default_clock = \<lparr>clk_beginCycle = default_beginCycle, clk_waitCycles = default_waitCycles,
     clk_reset = default_reset, clk_cycles = default_cycles\<rparr>"

section \<open>The contract of a clock\<close>

locale counting_clock =
  fixes K :: "'k Clock"
  assumes begin_law: "clk_cycles K (clk_beginCycle K k) = clk_cycles K k"
    and wait_law: "clk_cycles K (clk_waitCycles K n k) = clk_cycles K k + of_int n"
    and reset_law: "clk_cycles K (clk_reset K k) = 0"
begin

lemma wait_twice:
  "clk_cycles K (clk_waitCycles K n (clk_waitCycles K m k)) = clk_cycles K (clk_waitCycles K (m + n) k)"
  by (simp add: wait_law)

lemma reset_sequence: "clk_cycles K (clk_waitCycles K n (clk_beginCycle K (clk_reset K k))) = of_int n"
  by (simp add: wait_law begin_law reset_law)

end

interpretation default: counting_clock default_clock
  by unfold_locales
    (simp_all add: default_clock_def default_cycles_def default_beginCycle_def
      default_waitCycles_def default_reset_def)

section \<open>The pacing clocks\<close>

text \<open>
  \<open>precision_clock\<close> is a \<open>default_clock\<close> with a deadline. The host supplies the time and the
  sleep; here \<open>now\<close> is the value that \<open>nanoTime()\<close> returns in a call and the state keeps the
  sleeps asked for. The budget of an instruction is a floating-point product in the source,
  \<^verbatim>\<open>(uint64_t) (cycles * m_cycle_time * 1e9)\<close>, and is the parameter \<open>budget\<close>.
\<close>

record precision_state =
  pc_cycles :: uint64
  pc_deadline :: uint64
  pc_slept :: "uint64 list"

definition RESYNC_NS :: int where
  "RESYNC_NS = 50000000"

definition precision_new :: precision_state where
  "precision_new = \<lparr>pc_cycles = 0, pc_deadline = 0, pc_slept = []\<rparr>"

definition precision_beginCycle :: "uint64 \<Rightarrow> precision_state \<Rightarrow> precision_state" where
  "precision_beginCycle now s = s\<lparr>pc_deadline := now\<rparr>"

definition precision_waitCycles ::
  "(int \<Rightarrow> uint64) \<Rightarrow> uint64 \<Rightarrow> int \<Rightarrow> precision_state \<Rightarrow> precision_state" where
  "precision_waitCycles budget now cycles s =
     (let s = s\<lparr>pc_cycles := default_waitCycles cycles (pc_cycles s)\<rparr>;
          s = s\<lparr>pc_deadline := pc_deadline s + budget cycles\<rparr>
      in if now < pc_deadline s then s\<lparr>pc_slept := pc_slept s @ [pc_deadline s - now]\<rparr>
         else if sint (now - pc_deadline s) > RESYNC_NS then s\<lparr>pc_deadline := now\<rparr>
         else s)"

definition precision_clock :: "(int \<Rightarrow> uint64) \<Rightarrow> uint64 \<Rightarrow> precision_state Clock" where
  "precision_clock budget now = \<lparr>clk_beginCycle = precision_beginCycle now,
     clk_waitCycles = precision_waitCycles budget now,
     clk_reset = (\<lambda>s. s\<lparr>pc_cycles := default_reset (pc_cycles s)\<rparr>),
     clk_cycles = (\<lambda>s. default_cycles (pc_cycles s))\<rparr>"

text \<open>Pacing does not change the accounting: the pacing clock fulfils the same contract.\<close>

interpretation precision: counting_clock "precision_clock budget now" for budget now
  by unfold_locales
    (simp_all add: precision_clock_def precision_beginCycle_def precision_waitCycles_def
      default_cycles_def default_waitCycles_def default_reset_def Let_def)

text \<open>After a wait the deadline is never more than the resynchronisation window behind the present.\<close>

lemma sint_small: "uint (w :: uint64) < 2 ^ 63 \<Longrightarrow> sint w = uint w"
  using uint_ge_0 [of w] by (simp add: sint_uint signed_take_bit_eq_take_bit_shift take_bit_eq_mod)

lemma sint_ahead:
  assumes "d \<le> now" and "uint (now :: uint64) < 2 ^ 63"
  shows "sint (now - d) = uint now - uint d"
proof -
  have "uint (now - d) = uint now - uint d"
    using assms(1) by (simp add: uint_minus_simple_alt [THEN iffD1] word_le_def)
  moreover have "uint now - uint d < 2 ^ 63"
    using assms(2) uint_ge_0 [of d] by linarith
  ultimately show ?thesis by (simp add: sint_small)
qed

lemma precision_resync:
  assumes "uint now < 2 ^ 63"
  shows "uint now - uint (pc_deadline (precision_waitCycles budget now cycles s)) \<le> RESYNC_NS"
proof -
  define d where "d = pc_deadline s + budget cycles"
  have "uint now - uint d \<le> RESYNC_NS" if "now < d"
    using that by (simp add: word_less_def RESYNC_NS_def)
  then show ?thesis
    using sint_ahead [OF _ assms, of d]
    by (auto simp: precision_waitCycles_def Let_def d_def [symmetric] RESYNC_NS_def not_less)
qed

end
