(* ===== verification/Processor_Step.thy ===== *)
theory Processor_Step
  imports Opcode_Matrix Emu_Clock "HOL-Library.While_Combinator"
begin

text \<open>
  \<^verbatim>\<open>include/6502cc/emu_processor.h\<close> and \<^verbatim>\<open>src/Processor.cpp\<close>: the interpreter. A \<open>Processor\<close>
  holds the registers, the bus state and the clock state it borrows beside its own flags. What it
  calls through pointers, the virtual functions of bus and clock and the installed callbacks, is
  the record \<open>Env\<close>. A callback is host code that may pause the processor, raise interrupts or write
  registers, so it is a function on processors. \<open>nmi\<close>, \<open>irq\<close> and \<open>pause\<close> may be called from
  other threads; here a call comes between two steps, and \<open>Threads\<close> shows what that leaves out.
\<close>

section \<open>The class\<close>

record ('b, 'k) Processor =
  p_regs :: Registers
  p_bus :: 'b
  p_clock :: 'k
  m_running :: bool
  m_stopping :: bool
  m_nmi_pending :: bool
  m_irq_line :: bool
  m_i_flag_delayed :: bool
  m_i_flag_before :: bool

type_synonym ('b, 'k) InstructionCallBackType = "(('b, 'k) Processor \<Rightarrow> ('b, 'k) Processor) option"

record ('b, 'k) Env =
  v_bus :: "'b Bus"
  v_clock :: "'k Clock"
  p_instr_callback :: "('b, 'k) InstructionCallBackType"

definition Processor_new :: "'b \<Rightarrow> Registers \<Rightarrow> 'k \<Rightarrow> ('b, 'k) Processor" where
  "Processor_new bus regs clock =
     \<lparr>p_regs = regs, p_bus = bus, p_clock = clock, m_running = False, m_stopping = False,
      m_nmi_pending = False, m_irq_line = False, m_i_flag_delayed = False, m_i_flag_before = True\<rparr>"

definition pause :: "('b, 'k) Processor \<Rightarrow> ('b, 'k) Processor" where
  "pause P = P\<lparr>m_stopping := True\<rparr>"

definition isRunning :: "('b, 'k) Processor \<Rightarrow> bool" where
  "isRunning P = m_running P"

definition nmi :: "('b, 'k) Processor \<Rightarrow> ('b, 'k) Processor" where
  "nmi P = P\<lparr>m_nmi_pending := True\<rparr>"

definition irq :: "bool \<Rightarrow> ('b, 'k) Processor \<Rightarrow> ('b, 'k) Processor" where
  "irq asserted P = P\<lparr>m_irq_line := asserted\<rparr>"

definition nmiPending :: "('b, 'k) Processor \<Rightarrow> bool" where
  "nmiPending P = m_nmi_pending P"

definition irqAsserted :: "('b, 'k) Processor \<Rightarrow> bool" where
  "irqAsserted P = m_irq_line P"

definition clearInterrupts :: "('b, 'k) Processor \<Rightarrow> ('b, 'k) Processor" where
  "clearInterrupts P = P\<lparr>m_nmi_pending := False, m_irq_line := False, m_i_flag_delayed := False\<rparr>"

definition setInstructionCallback ::
  "('b, 'k) InstructionCallBackType \<Rightarrow> ('b, 'k) Env \<Rightarrow> ('b, 'k) Env" where
  "setInstructionCallback cb E = E\<lparr>p_instr_callback := cb\<rparr>"

definition call_back :: "('b, 'k) InstructionCallBackType \<Rightarrow> ('b, 'k) Processor \<Rightarrow> ('b, 'k) Processor"
  where "call_back cb P = (case cb of Some f \<Rightarrow> f P | None \<Rightarrow> P)"

definition waitCycles :: "('b, 'k) Env \<Rightarrow> int \<Rightarrow> ('b, 'k) Processor \<Rightarrow> ('b, 'k) Processor" where
  "waitCycles E n P = P\<lparr>p_clock := clk_waitCycles (v_clock E) n (p_clock P)\<rparr>"

section \<open>One step\<close>

definition serviceInterrupt ::
  "('b, 'k) Env \<Rightarrow> uint16 \<Rightarrow> ('b, 'k) Processor \<Rightarrow> int \<times> ('b, 'k) Processor" where
  "serviceInterrupt E vector P =
     (let B = v_bus E;
          (r, b) = push16 B (reg_pc (p_regs P)) (p_regs P) (p_bus P);
          (r, b) = push8 B ((reg_sr r AND NOT FLAG_B) OR FLAG_U) r b;
          r = setStatus FLAG_I True r;
          (lo, b) = bus_read B vector b;
          (hi, b) = bus_read B (vector + 1) b;
          r = r\<lparr>reg_pc := le16 lo hi\<rparr>
      in (7, P\<lparr>p_regs := r, p_bus := b\<rparr>))"

text \<open>Everything \<open>step\<close> does before it calls the instruction callback, and \<open>step\<close> itself.\<close>

definition execute_next :: "('b, 'k) Env \<Rightarrow> ('b, 'k) Processor \<Rightarrow> ('b, 'k) Processor" where
  "execute_next E P =
     (let (code, b) = bus_read (v_bus E) (reg_pc (p_regs P)) (p_bus P);
          r = (p_regs P)\<lparr>reg_pc := reg_pc (p_regs P) + 1\<rparr>;
          before = getStatus FLAG_I r;
          p_instr = instr_of code;
          (cycles, r, b) = execute p_instr (v_bus E) r b;
          P = P\<lparr>p_regs := r, p_bus := b\<rparr>;
          P = waitCycles E cycles P
      in P\<lparr>m_i_flag_delayed := (code = 0x58 \<or> code = 0x78 \<or> code = 0x28),
           m_i_flag_before := before\<rparr>)"

definition step_core :: "('b, 'k) Env \<Rightarrow> ('b, 'k) Processor \<Rightarrow> ('b, 'k) Processor" where
  "step_core E P =
     (let masked = (if m_i_flag_delayed P then m_i_flag_before P else getStatus FLAG_I (p_regs P));
          pending = m_nmi_pending P;
          P = P\<lparr>m_nmi_pending := False\<rparr>
      in if pending then
           let (cycles, P) = serviceInterrupt E 0xFFFA P;
               P = waitCycles E cycles P
           in P\<lparr>m_i_flag_delayed := False\<rparr>
         else if m_irq_line P \<and> \<not> masked then
           let (cycles, P) = serviceInterrupt E 0xFFFE P;
               P = waitCycles E cycles P
           in P\<lparr>m_i_flag_delayed := False\<rparr>
         else execute_next E P)"

definition step :: "('b, 'k) Env \<Rightarrow> ('b, 'k) Processor \<Rightarrow> ('b, 'k) Processor" where
  "step E P = call_back (p_instr_callback E) (step_core E P)"

section \<open>The run loops\<close>

text \<open>A loop that never stops has the result \<open>None\<close>.\<close>

definition run_start :: "('b, 'k) Env \<Rightarrow> ('b, 'k) Processor \<Rightarrow> ('b, 'k) Processor" where
  "run_start E P =
     (let P = P\<lparr>m_running := True, m_stopping := False\<rparr>
      in P\<lparr>p_clock := clk_beginCycle (v_clock E) (p_clock P)\<rparr>)"

definition run_end :: "('b, 'k) Processor \<Rightarrow> ('b, 'k) Processor" where
  "run_end P = P\<lparr>m_running := False, m_stopping := False\<rparr>"

definition run_cond :: "('b, 'k) Processor \<Rightarrow> bool" where
  "run_cond P \<longleftrightarrow> m_running P \<and> \<not> m_stopping P"

definition run :: "('b, 'k) Env \<Rightarrow> ('b, 'k) Processor \<Rightarrow> ('b, 'k) Processor option" where
  "run E P = map_option run_end (while_option run_cond (step E) (run_start E P))"

definition resume :: "('b, 'k) Env \<Rightarrow> ('b, 'k) Processor \<Rightarrow> ('b, 'k) Processor option" where
  "resume E P = run E P"

section \<open>The debugging processor\<close>

record ('b, 'k) DebugEnv = "('b, 'k) Env" +
  m_breakpoints :: "uint16 set"
  p_breakp_callback :: "('b, 'k) InstructionCallBackType"

definition at_breakpoint :: "('b, 'k) DebugEnv \<Rightarrow> ('b, 'k) Processor \<Rightarrow> bool" where
  "at_breakpoint E P \<longleftrightarrow> reg_pc (p_regs P) \<in> m_breakpoints E"

definition DebugProcessor_run ::
  "('b, 'k) DebugEnv \<Rightarrow> ('b, 'k) Processor \<Rightarrow> ('b, 'k) Processor option" where
  "DebugProcessor_run E P =
     (let E' = Env.truncate E;
          P = step E' (run_start E' P)
      in map_option
           (\<lambda>P. run_end (if at_breakpoint E P then call_back (p_breakp_callback E) P else P))
           (while_option (\<lambda>P. \<not> at_breakpoint E P \<and> run_cond P) (step E') P))"

definition addBreakpoint :: "uint16 \<Rightarrow> ('b, 'k) DebugEnv \<Rightarrow> bool \<times> ('b, 'k) DebugEnv" where
  "addBreakpoint address E =
     (address \<notin> m_breakpoints E, E\<lparr>m_breakpoints := insert address (m_breakpoints E)\<rparr>)"

definition removeBreakpoint :: "uint16 \<Rightarrow> ('b, 'k) DebugEnv \<Rightarrow> bool \<times> ('b, 'k) DebugEnv" where
  "removeBreakpoint address E =
     (address \<in> m_breakpoints E, E\<lparr>m_breakpoints := m_breakpoints E - {address}\<rparr>)"

definition clearBreakpoints :: "('b, 'k) DebugEnv \<Rightarrow> ('b, 'k) DebugEnv" where
  "clearBreakpoints E = E\<lparr>m_breakpoints := {}\<rparr>"

definition setBreakpointCallback ::
  "('b, 'k) InstructionCallBackType \<Rightarrow> ('b, 'k) DebugEnv \<Rightarrow> ('b, 'k) DebugEnv" where
  "setBreakpointCallback cb E = E\<lparr>p_breakp_callback := cb\<rparr>"

end
