(* ===== verification/Isa_Spec.thy ===== *)
theory Isa_Spec
  imports Operand_Spec Instruction_Set
begin

text \<open>
  The instruction set as a programmer's reference gives it: what each instruction does to the
  registers, the flags and the memory, with operands already located, and how many cycles it takes
  beyond its base count. It is stated over \<open>cpu\<close> and a memory function, with shifts as
  multiplication and division, branch targets as signed addition and status bytes as flag lists;
  the code of \<open>Instruction_Set\<close> works on words, masks and a bus. Only the names of the instruction
  classes are shared.
\<close>

section \<open>Register writes that set N and Z\<close>

definition set_a :: "uint8 \<Rightarrow> cpu \<Rightarrow> cpu" where
  "set_a v c = nz_spec v (c\<lparr>cA := v\<rparr>)"

definition set_x :: "uint8 \<Rightarrow> cpu \<Rightarrow> cpu" where
  "set_x v c = nz_spec v (c\<lparr>cX := v\<rparr>)"

definition set_y :: "uint8 \<Rightarrow> cpu \<Rightarrow> cpu" where
  "set_y v c = nz_spec v (c\<lparr>cY := v\<rparr>)"

section \<open>Shifts and rotates\<close>

definition asl_val :: "uint8 \<Rightarrow> uint8" where
  "asl_val v = of_nat (2 * unat v)"

definition lsr_val :: "uint8 \<Rightarrow> uint8" where
  "lsr_val v = of_nat (unat v div 2)"

definition rol_val :: "bool \<Rightarrow> uint8 \<Rightarrow> uint8" where
  "rol_val cin v = of_nat (2 * unat v + of_bool cin)"

definition ror_val :: "bool \<Rightarrow> uint8 \<Rightarrow> uint8" where
  "ror_val cin v = of_nat (unat v div 2 + 128 * of_bool cin)"

section \<open>Branches\<close>

definition branch_target :: "uint8 \<Rightarrow> uint16 \<Rightarrow> uint16" where
  "branch_target disp pc = of_int (uint pc + sint disp)"

definition branch_to :: "uint8 \<Rightarrow> cpu \<Rightarrow> cpu" where
  "branch_to disp c = c\<lparr>cPC := branch_target disp (cPC c)\<rparr>"

definition branch_cost :: "uint8 \<Rightarrow> cpu \<Rightarrow> int" where
  "branch_cost disp c = (if page (branch_target disp (cPC c)) = page (cPC c) then 1 else 2)"

section \<open>The stack and interrupts\<close>

definition push_byte :: "uint8 \<Rightarrow> cpu \<Rightarrow> mem \<Rightarrow> cpu \<times> mem" where
  "push_byte v c m = (c\<lparr>cS := cS c - 1\<rparr>, m(0x0100 + ucast (cS c) := v))"

definition push_word :: "uint16 \<Rightarrow> cpu \<Rightarrow> mem \<Rightarrow> cpu \<times> mem" where
  "push_word w c m = (let (c, m) = push_byte (hi8 w) c m in push_byte (lo8 w) c m)"

definition pull_byte :: "cpu \<Rightarrow> mem \<Rightarrow> uint8 \<times> cpu" where
  "pull_byte c m = (m (0x0100 + ucast (cS c + 1)), c\<lparr>cS := cS c + 1\<rparr>)"

definition pull_word :: "cpu \<Rightarrow> mem \<Rightarrow> uint16 \<times> cpu" where
  "pull_word c m =
     (let (lo, c) = pull_byte c m; (hi, c) = pull_byte c m in (le16 lo hi, c))"

definition interrupt :: "bool \<Rightarrow> uint16 \<Rightarrow> cpu \<Rightarrow> mem \<Rightarrow> cpu \<times> mem" where
  "interrupt brk vector c m =
     (let (c, m) = push_word (cPC c) c m;
          (c, m) = push_byte (status_byte brk c) c m
      in (c\<lparr>fI := True, cPC := word_at m vector\<rparr>, m))"

section \<open>The instructions\<close>

text \<open>\<open>c\<close> has its program counter behind the operand, \<open>l\<close> is the place of the operand.\<close>

primrec isa :: "Impl \<Rightarrow> place \<Rightarrow> cpu \<Rightarrow> mem \<Rightarrow> cpu \<times> mem" where
  "isa ADC_Impl l c m =
     (let v = fetch8 l c m in (adc_spec v c, m))"
| "isa AND_Impl l c m =
     (let v = fetch8 l c m in (set_a (cA c AND v) c, m))"
| "isa ASL_Impl l c m =
     (let v = fetch8 l c m; w = asl_val v in (nz_spec w (store_cpu l w (c\<lparr>fC := (128 \<le> unat v)\<rparr>)), store_mem l w m))"
| "isa BCC_Impl l c m =
     (if \<not> fC c then branch_to (fetch8 l c m) c else c, m)"
| "isa BCS_Impl l c m =
     (if fC c then branch_to (fetch8 l c m) c else c, m)"
| "isa BEQ_Impl l c m =
     (if fZ c then branch_to (fetch8 l c m) c else c, m)"
| "isa BIT_Impl l c m =
     (let v = fetch8 l c m in (c\<lparr>fV := bit v 6, fN := bit v 7, fZ := (v AND cA c = 0)\<rparr>, m))"
| "isa BMI_Impl l c m =
     (if fN c then branch_to (fetch8 l c m) c else c, m)"
| "isa BNE_Impl l c m =
     (if \<not> fZ c then branch_to (fetch8 l c m) c else c, m)"
| "isa BPL_Impl l c m =
     (if \<not> fN c then branch_to (fetch8 l c m) c else c, m)"
| "isa BRK_Impl l c m =
     interrupt True 0xFFFE (c\<lparr>cPC := cPC c + 1\<rparr>) m"
| "isa BVC_Impl l c m =
     (if \<not> fV c then branch_to (fetch8 l c m) c else c, m)"
| "isa BVS_Impl l c m =
     (if fV c then branch_to (fetch8 l c m) c else c, m)"
| "isa CLC_Impl l c m =
     (c\<lparr>fC := False\<rparr>, m)"
| "isa CLD_Impl l c m =
     (c\<lparr>fD := False\<rparr>, m)"
| "isa CLI_Impl l c m =
     (c\<lparr>fI := False\<rparr>, m)"
| "isa CLV_Impl l c m =
     (c\<lparr>fV := False\<rparr>, m)"
| "isa CMP_Impl l c m =
     (let v = fetch8 l c m in (cmp_spec (cA c) v c, m))"
| "isa CPX_Impl l c m =
     (let v = fetch8 l c m in (cmp_spec (cX c) v c, m))"
| "isa CPY_Impl l c m =
     (let v = fetch8 l c m in (cmp_spec (cY c) v c, m))"
| "isa DEC_Impl l c m =
     (let v = fetch8 l c m; w = v - 1 in (nz_spec w (store_cpu l w c), store_mem l w m))"
| "isa DEX_Impl l c m =
     (set_x (cX c - 1) c, m)"
| "isa DEY_Impl l c m =
     (set_y (cY c - 1) c, m)"
| "isa EOR_Impl l c m =
     (let v = fetch8 l c m in (set_a (cA c XOR v) c, m))"
| "isa INC_Impl l c m =
     (let v = fetch8 l c m; w = v + 1 in (nz_spec w (store_cpu l w c), store_mem l w m))"
| "isa INX_Impl l c m =
     (set_x (cX c + 1) c, m)"
| "isa INY_Impl l c m =
     (set_y (cY c + 1) c, m)"
| "isa JMP_Impl l c m =
     (c\<lparr>cPC := fetch16 l c m\<rparr>, m)"
| "isa JSR_Impl l c m =
     (let (c', m') = push_word (cPC c - 1) c m in (c'\<lparr>cPC := fetch16 l c m\<rparr>, m'))"
| "isa LDA_Impl l c m =
     (let v = fetch8 l c m in (set_a v c, m))"
| "isa LDX_Impl l c m =
     (let v = fetch8 l c m in (set_x v c, m))"
| "isa LDY_Impl l c m =
     (let v = fetch8 l c m in (set_y v c, m))"
| "isa LSR_Impl l c m =
     (let v = fetch8 l c m; w = lsr_val v in (nz_spec w (store_cpu l w (c\<lparr>fC := odd (unat v)\<rparr>)), store_mem l w m))"
| "isa NOP_Impl l c m =
     (c, m)"
| "isa NOPR_Impl l c m =
     (c, m)"
| "isa ORA_Impl l c m =
     (let v = fetch8 l c m in (set_a (cA c OR v) c, m))"
| "isa PHA_Impl l c m =
     push_byte (cA c) c m"
| "isa PHP_Impl l c m =
     push_byte (status_byte True c) c m"
| "isa PLA_Impl l c m =
     (let (v, c) = pull_byte c m in (set_a v c, m))"
| "isa PLP_Impl l c m =
     (let (v, c) = pull_byte c m in (load_status v c, m))"
| "isa ROL_Impl l c m =
     (let v = fetch8 l c m; w = rol_val (fC c) v in (nz_spec w (store_cpu l w (c\<lparr>fC := (128 \<le> unat v)\<rparr>)), store_mem l w m))"
| "isa ROR_Impl l c m =
     (let v = fetch8 l c m; w = ror_val (fC c) v in (nz_spec w (store_cpu l w (c\<lparr>fC := odd (unat v)\<rparr>)), store_mem l w m))"
| "isa RTI_Impl l c m =
     (let (v, c) = pull_byte c m; (w, c) = pull_word (load_status v c) m in (c\<lparr>cPC := w\<rparr>, m))"
| "isa RTS_Impl l c m =
     (let (w, c) = pull_word c m in (c\<lparr>cPC := w + 1\<rparr>, m))"
| "isa SBC_Impl l c m =
     (let v = fetch8 l c m in (sbc_spec v c, m))"
| "isa SEC_Impl l c m =
     (c\<lparr>fC := True\<rparr>, m)"
| "isa SED_Impl l c m =
     (c\<lparr>fD := True\<rparr>, m)"
| "isa SEI_Impl l c m =
     (c\<lparr>fI := True\<rparr>, m)"
| "isa STA_Impl l c m =
     (store_cpu l (cA c) c, store_mem l (cA c) m)"
| "isa STX_Impl l c m =
     (store_cpu l (cX c) c, store_mem l (cX c) m)"
| "isa STY_Impl l c m =
     (store_cpu l (cY c) c, store_mem l (cY c) m)"
| "isa TAX_Impl l c m =
     (set_x (cA c) c, m)"
| "isa TAY_Impl l c m =
     (set_y (cA c) c, m)"
| "isa TSX_Impl l c m =
     (set_x (cS c) c, m)"
| "isa TXA_Impl l c m =
     (set_a (cX c) c, m)"
| "isa TXS_Impl l c m =
     (c\<lparr>cS := cX c\<rparr>, m)"
| "isa TYA_Impl l c m =
     (set_a (cY c) c, m)"
| "isa LAX_Impl l c m =
     (let v = fetch8 l c m in (set_x v (set_a v c), m))"
| "isa SAX_Impl l c m =
     (store_cpu l (cA c AND cX c) c, store_mem l (cA c AND cX c) m)"
| "isa DCP_Impl l c m =
     (let v = fetch8 l c m; w = v - 1 in ((let c = store_cpu l w c in cmp_spec (cA c) w c), store_mem l w m))"
| "isa ISC_Impl l c m =
     (let v = fetch8 l c m; w = v + 1 in (sbc_spec w (store_cpu l w c), store_mem l w m))"
| "isa SLO_Impl l c m =
     (let v = fetch8 l c m; w = asl_val v in ((let c = store_cpu l w (c\<lparr>fC := (128 \<le> unat v)\<rparr>) in set_a (cA c OR w) c), store_mem l w m))"
| "isa RLA_Impl l c m =
     (let v = fetch8 l c m; w = rol_val (fC c) v in ((let c = store_cpu l w (c\<lparr>fC := (128 \<le> unat v)\<rparr>) in set_a (cA c AND w) c), store_mem l w m))"
| "isa SRE_Impl l c m =
     (let v = fetch8 l c m; w = lsr_val v in ((let c = store_cpu l w (c\<lparr>fC := odd (unat v)\<rparr>) in set_a (cA c XOR w) c), store_mem l w m))"
| "isa RRA_Impl l c m =
     (let v = fetch8 l c m; w = ror_val (fC c) v in (adc_spec w (store_cpu l w (c\<lparr>fC := odd (unat v)\<rparr>)), store_mem l w m))"
| "isa ANC_Impl l c m =
     (let v = fetch8 l c m in ((let c = set_a (cA c AND v) c in c\<lparr>fC := fN c\<rparr>), m))"
| "isa ALR_Impl l c m =
     (let v = fetch8 l c m in ((let w = cA c AND v in set_a (lsr_val w) (c\<lparr>fC := odd (unat w)\<rparr>)), m))"
| "isa ARR_Impl l c m =
     (let v = fetch8 l c m in ((let w = ror_val (fC c) (cA c AND v) in (set_a w c)\<lparr>fC := bit w 6, fV := (bit w 6 \<noteq> bit w 5)\<rparr>), m))"
| "isa SBX_Impl l c m =
     (let v = fetch8 l c m in ((let w = cA c AND cX c in set_x (w - v) (c\<lparr>fC := (unat v \<le> unat w)\<rparr>)), m))"
| "isa LAS_Impl l c m =
     (let v = fetch8 l c m in ((let w = v AND cS c in (set_a w c)\<lparr>cX := w, cS := w\<rparr>), m))"
| "isa XAA_Impl l c m =
     (let v = fetch8 l c m in (set_a ((cA c OR 0xEE) AND cX c AND v) c, m))"
| "isa KIL_Impl l c m =
     (c\<lparr>cPC := cPC c - 1\<rparr>, m)"

text \<open>Instructions that have no operand bytes whatever their mode.\<close>

definition implied :: "Impl \<Rightarrow> bool" where
  "implied I \<longleftrightarrow> I \<in> set [BRK_Impl, CLC_Impl, CLD_Impl, CLI_Impl, CLV_Impl, DEX_Impl, DEY_Impl, INX_Impl,
     INY_Impl, PHA_Impl, PHP_Impl, PLA_Impl, PLP_Impl, RTI_Impl, RTS_Impl, SEC_Impl,
     SED_Impl, SEI_Impl, TAX_Impl, TAY_Impl, TSX_Impl, TXA_Impl, TXS_Impl, TYA_Impl,
     KIL_Impl]"

definition pays_crossing :: "Impl \<Rightarrow> bool" where
  "pays_crossing I \<longleftrightarrow> I \<in> set [ADC_Impl, AND_Impl, CMP_Impl, EOR_Impl, LDA_Impl, LDX_Impl, LDY_Impl, NOPR_Impl,
     ORA_Impl, SBC_Impl, LAX_Impl, LAS_Impl]"

definition branch_taken :: "Impl \<Rightarrow> cpu \<Rightarrow> bool" where
  "branch_taken I c \<longleftrightarrow>
     I = BCC_Impl \<and> \<not> fC c
     \<or> I = BCS_Impl \<and> fC c
     \<or> I = BNE_Impl \<and> \<not> fZ c
     \<or> I = BEQ_Impl \<and> fZ c
     \<or> I = BPL_Impl \<and> \<not> fN c
     \<or> I = BMI_Impl \<and> fN c
     \<or> I = BVC_Impl \<and> \<not> fV c
     \<or> I = BVS_Impl \<and> fV c"

definition extra_cycles :: "Impl \<Rightarrow> place \<Rightarrow> cpu \<Rightarrow> mem \<Rightarrow> int" where
  "extra_cycles I l c m =
     (if branch_taken I c then branch_cost (fetch8 l c m) c
      else if pays_crossing I then penalty l
      else 0)"

definition isa_step :: "Impl \<Rightarrow> Params \<Rightarrow> int \<Rightarrow> cpu \<Rightarrow> mem \<Rightarrow> int \<times> cpu \<times> mem" where
  "isa_step I M n c m =
     (let l = locate M c m;
          c' = (if implied I then c else c\<lparr>cPC := cPC c + of_nat (operand_len M)\<rparr>)
      in (n + extra_cycles I l c' m, isa I l c' m))"

text \<open>
  The unstable store family: the source register is ANDed with the high byte of the address
  before indexing, plus one.
\<close>

definition shx_step :: "nat \<Rightarrow> Params \<Rightarrow> int \<Rightarrow> cpu \<Rightarrow> mem \<Rightarrow> int \<times> cpu \<times> mem" where
  "shx_step Reg M n c m =
     (let l = locate M c m;
          src = (if Reg = 1 then cX c else if Reg = 2 then cY c else cA c AND cX c);
          c' = c\<lparr>cPC := cPC c + of_nat (operand_len M)\<rparr>;
          c' = (if Reg = 3 then c'\<lparr>cS := cA c AND cX c\<rparr> else c');
          hi = (case l of LMem base ea \<Rightarrow> page base + 1 | _ \<Rightarrow> 0)
      in (n, c', store_mem l (src AND hi) m))"

fun indexed_params :: "IndexedMode \<Rightarrow> Params" where
  "indexed_params ByAbsoluteX = AbsoluteX"
| "indexed_params ByAbsoluteY = AbsoluteY"
| "indexed_params ByIndirectY = IndirectY"

fun spec_step :: "BaseInstruction \<Rightarrow> cpu \<Rightarrow> mem \<Rightarrow> int \<times> cpu \<times> mem" where
  "spec_step (Inst I M n) c m = isa_step I M n c m"
| "spec_step (SHx_Inst M n Reg) c m = shx_step Reg (indexed_params M) n c m"

end
