(* ===== verification/Refinement.thy ===== *)
theory Refinement
  imports Isa_Spec
begin

text \<open>
  Every instruction of \<open>Instruction_Set\<close>, over any bus that behaves as RAM and with any policy that
  fulfils the contract of \<open>Addressing_Modes\<close>, does what \<open>Isa_Spec\<close> says and takes the cycles it
  says. The proofs are done once per instruction inside the locale \<open>addressing_mode\<close>, by the path
  (read, read-modify-write, store, jump) that the instruction takes through its policy; the
  interpretations of the locale give the fourteen modes.
\<close>

section \<open>Words as numbers\<close>

lemma asl_val_code: "push_bit 1 v = asl_val v"
  by (simp add: asl_val_def push_bit_eq_mult)

lemma lsr_val_code: "drop_bit 1 v = lsr_val v"
  by (rule unsigned_word_eqI [where ?'a = nat])
    (simp add: lsr_val_def drop_bit_eq_div unat_div unat_of_nat less_mult_imp_div_less
      order.strict_trans1 [OF div_le_dividend])

lemma rol_val_code: "push_bit 1 v OR (if cin then 1 else 0) = rol_val cin v"
proof -
  have "push_bit 1 v OR 1 = push_bit 1 v + (1 :: uint8)"
    by (rule disjunctive_add [symmetric]) (simp only: bit_push_bit_iff bit_1_iff, simp)
  then show ?thesis
    by (simp add: rol_val_def push_bit_eq_mult)
qed

lemma bit_80_8: "bit (0x80 :: uint8) n \<longleftrightarrow> n = 7"
  using bit_FLAG(8) by (simp add: FLAG_N_def)

lemma ror_val_code: "drop_bit 1 v OR (if cin then 0x80 else 0) = ror_val cin v"
proof -
  have "drop_bit 1 v OR 0x80 = drop_bit 1 v + (0x80 :: uint8)"
    by (rule disjunctive_add [symmetric])
      (auto simp: bit_80_8 bit_simps dest: bit_imp_le_length simp del: bit_numeral_word_iff)
  moreover have "ror_val True v = lsr_val v + 128"
    by (simp add: ror_val_def lsr_val_def)
  ultimately show ?thesis
    using lsr_val_code [of v] by (simp del: One_nat_def) (simp add: ror_val_def lsr_val_def)
qed

lemma low_bit_8: "v AND 1 \<noteq> 0 \<longleftrightarrow> odd (unat v)" for v :: uint8
proof -
  have "v AND 1 \<noteq> 0 \<longleftrightarrow> bit v 0"
    using and_exp_eq_0_iff_not_bit [of v 0] by simp
  then show ?thesis
    using bit_unsigned_iff [where ?'a = nat, of v 0] by (simp add: bit_0)
qed

lemma bit6_code: "v AND 0x40 \<noteq> 0 \<longleftrightarrow> bit v 6" for v :: uint8
  using and_exp_eq_0_iff_not_bit [of v 6] by simp

lemma bit65_code:
  "(drop_bit 6 v XOR drop_bit 5 v) AND 0x01 \<noteq> 0 \<longleftrightarrow> (bit v 6 \<noteq> bit v 5)" for v :: uint8
proof -
  have "(drop_bit 6 v XOR drop_bit 5 v) AND 0x01 \<noteq> 0 \<longleftrightarrow> bit (drop_bit 6 v XOR drop_bit 5 v) 0"
    using and_exp_eq_0_iff_not_bit [of "drop_bit 6 v XOR drop_bit 5 v" 0] by simp
  then show ?thesis
    by (simp add: bit_xor_iff bit_drop_bit_eq del: bit_0)
qed

lemma flag_bits_of_byte:
  "v AND FLAG_V \<noteq> 0 \<longleftrightarrow> bit v 6" "v AND FLAG_N \<noteq> 0 \<longleftrightarrow> bit v 7"
  unfolding FLAG_exp by (simp_all only: and_exp_eq_0_iff_not_bit not_not)

lemma unat_of_nat_16: "unat (of_nat (unat (v :: uint8)) :: uint16) = unat v"
  by simp

lemma sign_extend:
  fixes disp :: uint8 and pc :: uint16
  shows "(if (ucast disp :: uint16) AND 0x80 \<noteq> 0 then ucast disp OR 0xFF00 else ucast disp) + pc
    = branch_target disp pc"
proof (cases "128 \<le> unat disp")
  case True
  have "(ucast disp :: uint16) OR 0xFF00 = ucast disp + 0xFF00" (is "?l = _")
    by (rule disjunctive_add [symmetric])
      (auto simp: bit_FF00 bit_simps dest: bit_imp_le_length simp del: bit_numeral_word_iff)
  moreover have "branch_target disp pc = pc + (of_nat (unat disp) - 256)"
    using True by (simp add: branch_target_def sint8_unat)
  moreover have "(of_nat (unat disp) :: uint16) = ucast disp"
    by (rule unsigned_word_eqI [where ?'a = nat])
      (simp only: unat_ucast_8_16 unat_of_nat_16)
  ultimately have "?l + pc = branch_target disp pc"
    by simp
  then show ?thesis
    using True by (simp add: and_0x80_16)
next
  case False
  then show ?thesis
    by (simp add: and_0x80_16 branch_target_def sint8_unat)
qed

lemma branch_page:
  fixes v w :: uint16
  shows "v AND 0xFF00 \<noteq> w AND 0xFF00 \<longleftrightarrow> page w \<noteq> page v"
  by (auto simp: page_def high_byte_eq_iff)

section \<open>Instructions through the contract of a policy\<close>

text \<open>A result of the code that agrees with a result of the specification.\<close>

definition implements :: "('b \<Rightarrow> mem) \<Rightarrow> ('b \<Rightarrow> bool) \<Rightarrow> int \<times> Registers \<times> 'b \<Rightarrow> int \<times> cpu \<times> mem \<Rightarrow> bool"
  where "implements view ok res spec \<longleftrightarrow>
    (case res of (k, r, b) \<Rightarrow> ok b \<and> spec = (k, abs_cpu r, view b))"

lemmas isa_defs = implements_def isa_step_def extra_cycles_def implied_def pays_crossing_def branch_taken_def
  set_a_def set_x_def set_y_def Let_def

lemmas shift_codes = asl_val_code [unfolded One_nat_def] lsr_val_code [unfolded One_nat_def]
  rol_val_code [unfolded One_nat_def] ror_val_code [unfolded One_nat_def] low_bit_8 and_0x80_8

lemma reg_a_store_reg [simp]: "reg_a (store_reg l v r) = cA (store_cpu l v (abs_cpu r))"
  by (metis abs_cpu_select(1) abs_store_reg)

subsection \<open>Instructions without an operand\<close>

lemmas stack_specs = push_word_def push_byte_def pull_word_def pull_byte_def interrupt_def word_at_def

context ram_bus
begin

lemma push_codes [simp]:
  assumes "inv b"
  shows "fst (push8 B v r b) = r\<lparr>reg_sp := reg_sp r - 1\<rparr>"
    and "view (snd (push8 B v r b)) = (view b)(0x0100 + ucast (reg_sp r) := v)"
    and "inv (snd (push8 B v r b))"
    and "fst (push16 B w r b) = r\<lparr>reg_sp := reg_sp r - 2\<rparr>"
    and "view (snd (push16 B w r b)) = (view b)(0x0100 + ucast (reg_sp r) := hi8 w,
           0x0100 + ucast (reg_sp r - 1) := lo8 w)"
    and "inv (snd (push16 B w r b))"
  using assms by (simp_all add: push8_def push16_def Let_def)

lemma pop_codes [simp]:
  assumes "inv b"
  shows "fst (pop8 B r b) = view b (0x0100 + ucast (reg_sp r + 1))"
    and "fst (snd (pop8 B r b)) = r\<lparr>reg_sp := reg_sp r + 1\<rparr>"
    and "view (snd (snd (pop8 B r b))) = view b" and "inv (snd (snd (pop8 B r b)))"
    and "fst (pop16 B r b) = le16 (view b (0x0100 + ucast (reg_sp r + 1)))
           (view b (0x0100 + ucast (reg_sp r + 2)))"
    and "fst (snd (pop16 B r b)) = r\<lparr>reg_sp := reg_sp r + 2\<rparr>"
    and "view (snd (snd (pop16 B r b))) = view b" and "inv (snd (snd (pop16 B r b)))"
  using assms by (simp_all add: pop8_def pop16_def Let_def case_prod_beta add_ac)

lemma flag_instructions:
  assumes "inv b"
  shows "implements view inv (CLC_execute n B r b)
      (isa_step CLC_Impl M n (abs_cpu r) (view b))"
    and "implements view inv (CLD_execute n B r b)
      (isa_step CLD_Impl M n (abs_cpu r) (view b))"
    and "implements view inv (CLI_execute n B r b)
      (isa_step CLI_Impl M n (abs_cpu r) (view b))"
    and "implements view inv (CLV_execute n B r b)
      (isa_step CLV_Impl M n (abs_cpu r) (view b))"
    and "implements view inv (SEC_execute n B r b)
      (isa_step SEC_Impl M n (abs_cpu r) (view b))"
    and "implements view inv (SED_execute n B r b)
      (isa_step SED_Impl M n (abs_cpu r) (view b))"
    and "implements view inv (SEI_execute n B r b)
      (isa_step SEI_Impl M n (abs_cpu r) (view b))"
  unfolding CLC_execute_def CLD_execute_def CLI_execute_def CLV_execute_def SEC_execute_def
    SED_execute_def SEI_execute_def
  using assms by (simp_all add: isa_defs )

lemma register_instructions:
  assumes "inv b"
  shows "implements view inv (DEX_execute n B r b)
      (isa_step DEX_Impl M n (abs_cpu r) (view b))"
    and "implements view inv (DEY_execute n B r b)
      (isa_step DEY_Impl M n (abs_cpu r) (view b))"
    and "implements view inv (INX_execute n B r b)
      (isa_step INX_Impl M n (abs_cpu r) (view b))"
    and "implements view inv (INY_execute n B r b)
      (isa_step INY_Impl M n (abs_cpu r) (view b))"
    and "implements view inv (TAX_execute n B r b)
      (isa_step TAX_Impl M n (abs_cpu r) (view b))"
    and "implements view inv (TAY_execute n B r b)
      (isa_step TAY_Impl M n (abs_cpu r) (view b))"
    and "implements view inv (TSX_execute n B r b)
      (isa_step TSX_Impl M n (abs_cpu r) (view b))"
    and "implements view inv (TXA_execute n B r b)
      (isa_step TXA_Impl M n (abs_cpu r) (view b))"
    and "implements view inv (TXS_execute n B r b)
      (isa_step TXS_Impl M n (abs_cpu r) (view b))"
    and "implements view inv (TYA_execute n B r b)
      (isa_step TYA_Impl M n (abs_cpu r) (view b))"
    and "implements view inv (KIL_execute n B r b)
      (isa_step KIL_Impl M n (abs_cpu r) (view b))"
  unfolding DEX_execute_def DEY_execute_def INX_execute_def INY_execute_def TAX_execute_def
    TAY_execute_def TSX_execute_def TXA_execute_def TXS_execute_def TYA_execute_def
    KIL_execute_def
  using assms by (simp_all add: isa_defs )

lemma push_instructions:
  assumes "inv b"
  shows "implements view inv (PHA_execute n B r b)
      (isa_step PHA_Impl M n (abs_cpu r) (view b))"
    and "implements view inv (PHP_execute n B r b)
      (isa_step PHP_Impl M n (abs_cpu r) (view b))"
    and "implements view inv (BRK_execute n B r b)
      (isa_step BRK_Impl M n (abs_cpu r) (view b))"
  unfolding PHA_execute_def PHP_execute_def BRK_execute_def
  unfolding status_byte_php
  using assms by (simp_all add: isa_defs stack_specs case_prod_beta del: fun_upd_apply)

lemma pull_instructions:
  assumes "inv b"
  shows "implements view inv (PLA_execute n B r b)
      (isa_step PLA_Impl M n (abs_cpu r) (view b))"
    and "implements view inv (PLP_execute n B r b)
      (isa_step PLP_Impl M n (abs_cpu r) (view b))"
    and "implements view inv (RTI_execute n B r b)
      (isa_step RTI_Impl M n (abs_cpu r) (view b))"
    and "implements view inv (RTS_execute n B r b)
      (isa_step RTS_Impl M n (abs_cpu r) (view b))"
  unfolding PLA_execute_def PLP_execute_def RTI_execute_def RTS_execute_def
  using assms by (simp_all add: isa_defs stack_specs case_prod_beta abs_cpu_pull load_status_def add_ac)

lemmas implied_instructions = flag_instructions register_instructions push_instructions pull_instructions

end

subsection \<open>Instructions with an operand\<close>

context addressing_mode
begin

lemma rmw_store_path:
  assumes "inv b"
  obtains p1 b1 p2 b2 p3 b3 where
    "p_init P B r b = (p1, r\<lparr>reg_pc := reg_pc r + of_nat (operand_len M)\<rparr>, b1)"
    and "p_dummyRead P B (r\<lparr>reg_pc := reg_pc r + of_nat (operand_len M)\<rparr>) p1 b1 = (p2, b2)"
    and "p_get8bit P B (r\<lparr>reg_pc := reg_pc r + of_nat (operand_len M)\<rparr>) p2 b2
      = (fetch8 (locate M (abs_cpu r) (view b)) (abs_cpu r) (view b), p3, b3)"
    and "\<And>w v r'. reg_x r' = reg_x r \<Longrightarrow> reg_y r' = reg_y r \<Longrightarrow>
      fst (snd (rmwStore P p3 B r' b3 w v)) = store_reg (locate M (abs_cpu r) (view b)) v r'"
    and "\<And>w v r'. reg_x r' = reg_x r \<Longrightarrow> reg_y r' = reg_y r \<Longrightarrow>
      view (snd (snd (rmwStore P p3 B r' b3 w v))) = store_mem (locate M (abs_cpu r) (view b)) v (view b)"
    and "\<And>w v r'. reg_x r' = reg_x r \<Longrightarrow> reg_y r' = reg_y r \<Longrightarrow>
      inv (snd (snd (rmwStore P p3 B r' b3 w v)))"
proof (rule rmw_path [OF assms, of r], goal_cases)
  case (1 p1 b1 p2 b2 p3 b3)
  have "fst (snd (rmwStore P p3 B r' b3 w v)) = store_reg (locate M (abs_cpu r) (view b)) v r'
      \<and> view (snd (snd (rmwStore P p3 B r' b3 w v))) = store_mem (locate M (abs_cpu r) (view b)) v (view b)
      \<and> inv (snd (snd (rmwStore P p3 B r' b3 w v)))"
    if "reg_x r' = reg_x r" "reg_y r' = reg_y r" for w v and r' :: Registers
    using 1(5) [OF that, of w v] by (auto simp: rmwStore_def)
  then show ?case
    by (intro 1(1) [OF 1(2-4)]) blast+
qed

lemma store_set_path:
  assumes "inv b"
  obtains p1 b1 p2 b2 where
    "p_init P B r b = (p1, r\<lparr>reg_pc := reg_pc r + of_nat (operand_len M)\<rparr>, b1)"
    and "p_dummyRead P B (r\<lparr>reg_pc := reg_pc r + of_nat (operand_len M)\<rparr>) p1 b1 = (p2, b2)"
    and "\<And>v. fst (snd (p_set8bit P B v p2 (r\<lparr>reg_pc := reg_pc r + of_nat (operand_len M)\<rparr>) b2))
        = store_reg (locate M (abs_cpu r) (view b)) v (r\<lparr>reg_pc := reg_pc r + of_nat (operand_len M)\<rparr>)"
    and "\<And>v. view (snd (snd (p_set8bit P B v p2 (r\<lparr>reg_pc := reg_pc r + of_nat (operand_len M)\<rparr>) b2)))
        = store_mem (locate M (abs_cpu r) (view b)) v (view b)"
    and "\<And>v. inv (snd (snd (p_set8bit P B v p2 (r\<lparr>reg_pc := reg_pc r + of_nat (operand_len M)\<rparr>) b2)))"
proof (rule store_path [OF assms, of r], goal_cases)
  case (1 p1 b1 p2 b2)
  let ?r = "r\<lparr>reg_pc := reg_pc r + of_nat (operand_len M)\<rparr>"
  have "fst (snd (p_set8bit P B v p2 ?r b2)) = store_reg (locate M (abs_cpu r) (view b)) v ?r
      \<and> view (snd (snd (p_set8bit P B v p2 ?r b2))) = store_mem (locate M (abs_cpu r) (view b)) v (view b)
      \<and> inv (snd (snd (p_set8bit P B v p2 ?r b2)))" for v
    using 1(4) [of v] by auto
  then show ?case
    by (intro 1(1) [OF 1(2-3)]) blast+
qed

lemma load_instructions:
  assumes "inv b"
  shows "implements view inv (LDA_execute P n B r b)
      (isa_step LDA_Impl M n (abs_cpu r) (view b))"
    and "implements view inv (LDX_execute P n B r b)
      (isa_step LDX_Impl M n (abs_cpu r) (view b))"
    and "implements view inv (LDY_execute P n B r b)
      (isa_step LDY_Impl M n (abs_cpu r) (view b))"
    and "implements view inv (LAX_execute P n B r b)
      (isa_step LAX_Impl M n (abs_cpu r) (view b))"
    and "implements view inv (NOPR_execute P n B r b)
      (isa_step NOPR_Impl M n (abs_cpu r) (view b))"
  unfolding LDA_execute_def LDX_execute_def LDY_execute_def LAX_execute_def NOPR_execute_def
  by (rule read_path [OF assms, of r]; simp add: isa_defs nz_spec_def; fail)+

lemma alu_instructions:
  assumes "inv b"
  shows "implements view inv (ADC_execute P n B r b)
      (isa_step ADC_Impl M n (abs_cpu r) (view b))"
    and "implements view inv (SBC_execute P n B r b)
      (isa_step SBC_Impl M n (abs_cpu r) (view b))"
    and "implements view inv (AND_execute P n B r b)
      (isa_step AND_Impl M n (abs_cpu r) (view b))"
    and "implements view inv (EOR_execute P n B r b)
      (isa_step EOR_Impl M n (abs_cpu r) (view b))"
    and "implements view inv (ORA_execute P n B r b)
      (isa_step ORA_Impl M n (abs_cpu r) (view b))"
    and "implements view inv (CMP_execute P n B r b)
      (isa_step CMP_Impl M n (abs_cpu r) (view b))"
    and "implements view inv (CPX_execute P n B r b)
      (isa_step CPX_Impl M n (abs_cpu r) (view b))"
    and "implements view inv (CPY_execute P n B r b)
      (isa_step CPY_Impl M n (abs_cpu r) (view b))"
  unfolding ADC_execute_def SBC_execute_def AND_execute_def EOR_execute_def ORA_execute_def
    CMP_execute_def CPX_execute_def CPY_execute_def
  by (rule read_path [OF assms, of r]; simp add: isa_defs ; fail)+

lemma immediate_instructions:
  assumes "inv b"
  shows "implements view inv (BIT_execute P n B r b)
      (isa_step BIT_Impl M n (abs_cpu r) (view b))"
    and "implements view inv (ANC_execute P n B r b)
      (isa_step ANC_Impl M n (abs_cpu r) (view b))"
    and "implements view inv (XAA_execute P n B r b)
      (isa_step XAA_Impl M n (abs_cpu r) (view b))"
    and "implements view inv (LAS_execute P n B r b)
      (isa_step LAS_Impl M n (abs_cpu r) (view b))"
    and "implements view inv (SBX_execute P n B r b)
      (isa_step SBX_Impl M n (abs_cpu r) (view b))"
    and "implements view inv (ALR_execute P n B r b)
      (isa_step ALR_Impl M n (abs_cpu r) (view b))"
  unfolding BIT_execute_def ANC_execute_def XAA_execute_def LAS_execute_def SBX_execute_def
    ALR_execute_def
  unfolding flag_bits_of_byte lsr_val_code
  by (rule read_path [OF assms, of r]; simp add: isa_defs nz_spec_def low_bit_8 and_0x80_8 word_le_nat_alt; fail)+

lemma rotate_instruction:
  assumes "inv b"
  shows "implements view inv (ARR_execute P n B r b)
      (isa_step ARR_Impl M n (abs_cpu r) (view b))"
  unfolding ARR_execute_def
  unfolding ror_val_code bit6_code bit65_code
  by (rule read_path [OF assms, of r]; simp add: isa_defs nz_spec_def; fail)+

lemma nop_instruction:
  assumes "inv b"
  shows "implements view inv (NOP_execute P n B r b)
      (isa_step NOP_Impl M n (abs_cpu r) (view b))"
  unfolding NOP_execute_def
  by (rule initE [OF assms, of r]; simp add: isa_defs ; fail)+

lemma store_instructions:
  assumes "inv b"
  shows "implements view inv (STA_execute P n B r b)
      (isa_step STA_Impl M n (abs_cpu r) (view b))"
    and "implements view inv (STX_execute P n B r b)
      (isa_step STX_Impl M n (abs_cpu r) (view b))"
    and "implements view inv (STY_execute P n B r b)
      (isa_step STY_Impl M n (abs_cpu r) (view b))"
    and "implements view inv (SAX_execute P n B r b)
      (isa_step SAX_Impl M n (abs_cpu r) (view b))"
  unfolding STA_execute_def STX_execute_def STY_execute_def SAX_execute_def
  by (rule store_set_path [OF assms, of r]; simp add: isa_defs case_prod_beta; fail)+

lemma rmw_instructions:
  assumes "inv b"
  shows "implements view inv (ASL_execute P n B r b)
      (isa_step ASL_Impl M n (abs_cpu r) (view b))"
    and "implements view inv (LSR_execute P n B r b)
      (isa_step LSR_Impl M n (abs_cpu r) (view b))"
    and "implements view inv (ROL_execute P n B r b)
      (isa_step ROL_Impl M n (abs_cpu r) (view b))"
    and "implements view inv (ROR_execute P n B r b)
      (isa_step ROR_Impl M n (abs_cpu r) (view b))"
    and "implements view inv (INC_execute P n B r b)
      (isa_step INC_Impl M n (abs_cpu r) (view b))"
    and "implements view inv (DEC_execute P n B r b)
      (isa_step DEC_Impl M n (abs_cpu r) (view b))"
    and "implements view inv (DCP_execute P n B r b)
      (isa_step DCP_Impl M n (abs_cpu r) (view b))"
    and "implements view inv (ISC_execute P n B r b)
      (isa_step ISC_Impl M n (abs_cpu r) (view b))"
    and "implements view inv (SLO_execute P n B r b)
      (isa_step SLO_Impl M n (abs_cpu r) (view b))"
    and "implements view inv (RLA_execute P n B r b)
      (isa_step RLA_Impl M n (abs_cpu r) (view b))"
    and "implements view inv (SRE_execute P n B r b)
      (isa_step SRE_Impl M n (abs_cpu r) (view b))"
    and "implements view inv (RRA_execute P n B r b)
      (isa_step RRA_Impl M n (abs_cpu r) (view b))"
  unfolding ASL_execute_def LSR_execute_def ROL_execute_def ROR_execute_def INC_execute_def
    DEC_execute_def DCP_execute_def ISC_execute_def SLO_execute_def RLA_execute_def
    SRE_execute_def RRA_execute_def
  unfolding rol_val_code ror_val_code
  unfolding asl_val_code lsr_val_code
  by (rule rmw_store_path [OF assms, of r]; simp add: isa_defs low_bit_8 and_0x80_8 case_prod_beta; fail)+

lemma jump_instructions:
  assumes "inv b"
  shows "implements view inv (JMP_execute P n B r b)
      (isa_step JMP_Impl M n (abs_cpu r) (view b))"
    and "implements view inv (JSR_execute P n B r b)
      (isa_step JSR_Impl M n (abs_cpu r) (view b))"
  unfolding JMP_execute_def JSR_execute_def
  by (rule jump_path [OF assms, of r]; simp add: isa_defs stack_specs case_prod_beta; fail)+

lemma implements_eq: "implements view inv res s \<Longrightarrow> s = s' \<Longrightarrow> implements view inv res s'"
  by simp

lemma branch_refines:
  fixes r :: Registers
  assumes "inv b"
  defines "v \<equiv> fetch8 (locate M (abs_cpu r) (view b)) (abs_cpu r) (view b)"
    and "c \<equiv> (abs_cpu r)\<lparr>cPC := reg_pc r + of_nat (operand_len M)\<rparr>"
  shows "implements view inv (branch P B r b flag want n)
    (if getStatus flag r = want then (n + branch_cost v c, branch_to v c, view b) else (n, c, view b))"
  unfolding branch_def Let_def branch_page
  by (rule read_path [OF assms(1), of r])
    (simp add: implements_def v_def c_def sign_extend branch_to_def branch_cost_def)

lemma branch_instructions:
  assumes "inv b"
  shows "implements view inv (BCC_execute P n B r b)
      (isa_step BCC_Impl M n (abs_cpu r) (view b))"
    and "implements view inv (BCS_execute P n B r b)
      (isa_step BCS_Impl M n (abs_cpu r) (view b))"
    and "implements view inv (BEQ_execute P n B r b)
      (isa_step BEQ_Impl M n (abs_cpu r) (view b))"
    and "implements view inv (BMI_execute P n B r b)
      (isa_step BMI_Impl M n (abs_cpu r) (view b))"
    and "implements view inv (BNE_execute P n B r b)
      (isa_step BNE_Impl M n (abs_cpu r) (view b))"
    and "implements view inv (BPL_execute P n B r b)
      (isa_step BPL_Impl M n (abs_cpu r) (view b))"
    and "implements view inv (BVC_execute P n B r b)
      (isa_step BVC_Impl M n (abs_cpu r) (view b))"
    and "implements view inv (BVS_execute P n B r b)
      (isa_step BVS_Impl M n (abs_cpu r) (view b))"
  unfolding BCC_execute_def BCS_execute_def BEQ_execute_def BMI_execute_def BNE_execute_def
    BPL_execute_def BVC_execute_def BVS_execute_def
  by (rule implements_eq [OF branch_refines [OF assms]]; simp add: isa_step_def implied_def
      extra_cycles_def branch_taken_def pays_crossing_def Let_def; fail)+

lemma execute_with_refines:
  assumes "inv b"
  shows "implements view inv (execute_with P I n B r b) (isa_step I M n (abs_cpu r) (view b))"
  using implied_instructions [OF assms] load_instructions [OF assms] alu_instructions [OF assms]
    immediate_instructions [OF assms] rotate_instruction [OF assms] nop_instruction [OF assms]
    store_instructions [OF assms] rmw_instructions [OF assms] jump_instructions [OF assms]
    branch_instructions [OF assms]
  by (cases I) (simp_all only: execute_with.simps)

end

context indexed_mode
begin

lemma SHx_refines:
  assumes "inv b"
  shows "implements view inv (SHx_execute P Reg n B r b) (shx_step Reg M n (abs_cpu r) (view b))"
proof (rule base_path [OF assms, of r])
  fix p1 b1 w ea
  let ?r = "r\<lparr>reg_pc := reg_pc r + of_nat (operand_len M)\<rparr>"
  assume init: "p_init P B r b = (p1, ?r, b1)"
    and l: "locate M (abs_cpu r) (view b) = LMem w ea"
    and path: "\<And>r' v. reg_x r' = reg_x r \<Longrightarrow> reg_y r' = reg_y r \<Longrightarrow>
      \<exists>p2 b2 p3 b3. p_base P B r' p1 b1 = (w, p2, b2) \<and> p_set8bit P B v p2 r' b2 = (p3, r', b3)
        \<and> view b3 = (view b)(ea := v) \<and> inv b3"
  define src where "src = (if Reg = 1 then reg_x r else if Reg = 2 then reg_y r else reg_a r AND reg_x r)"
  define r' where "r' = (if Reg = 3 then ?r\<lparr>reg_sp := reg_a r AND reg_x r\<rparr> else ?r)"
  have hi: "ucast (drop_bit 8 w + 1) = page w + 1"
    by (simp only: ucast_succ page_def) (simp add: hi8_ucast)
  have "reg_x r' = reg_x r" "reg_y r' = reg_y r"
    by (simp_all add: r'_def)
  from path [OF this, of "src AND (page w + 1)"]
  obtain p2 b2 p3 b3 where
    "p_base P B r' p1 b1 = (w, p2, b2)" "p_set8bit P B (src AND (page w + 1)) p2 r' b2 = (p3, r', b3)"
    "view b3 = (view b)(ea := src AND (page w + 1))" "inv b3"
    by blast
  then show ?thesis
    unfolding SHx_execute_def shx_step_def implements_def
    by (simp add: init l Let_def hi src_def r'_def split: if_splits)
qed

end

section \<open>Every instruction object\<close>

context ram_bus
begin

lemma execute_refines:
  assumes "inv b"
  shows "implements view inv (execute ins B r b) (spec_step ins (abs_cpu r) (view b))"
proof (cases ins)
  case (Inst I M n)
  then show ?thesis
    by (cases M)
      (simp_all add: assms m_null.execute_with_refines m_acc.execute_with_refines
        m_imm.execute_with_refines m_rel.execute_with_refines m_abc.execute_with_refines
        m_zp.execute_with_refines m_zpx.execute_with_refines m_zpy.execute_with_refines
        m_abs.execute_with_refines m_abx.execute_with_refines m_aby.execute_with_refines
        m_ind.execute_with_refines m_inx.execute_with_refines m_iny.execute_with_refines)
next
  case (SHx_Inst M n Reg)
  then show ?thesis
    by (cases M) (simp_all add: assms m_abx.SHx_refines m_aby.SHx_refines m_iny.SHx_refines)
qed

end

end
