(* ===== verification/Step_Refinement.thy ===== *)
theory Step_Refinement
  imports Processor_Step Refinement
begin

text \<open>
  The abstract machine, a programmer's view of \<open>Processor::step\<close> with the interrupt lines, and the
  proof that \<open>step\<close> implements it over any bus that behaves as RAM: a functional refinement,
  cycle for cycle. The delayed polling of the I flag is an optional value here: the value that
  the next interrupt decision uses in place of the flag.
\<close>

section \<open>The abstract machine\<close>

record machine =
  mc_cpu :: cpu
  mc_mem :: mem
  mc_nmi :: bool
  mc_irq :: bool
  mc_poll :: "bool option"

definition late_I_opcodes :: "uint8 list" where
  "late_I_opcodes = [0x58, 0x78, 0x28]"

definition take_interrupt :: "uint16 \<Rightarrow> machine \<Rightarrow> int \<times> machine" where
  "take_interrupt vector s =
     (let (c, m) = interrupt False vector (mc_cpu s) (mc_mem s)
      in (7, s\<lparr>mc_cpu := c, mc_mem := m, mc_poll := None\<rparr>))"

definition take_instruction :: "machine \<Rightarrow> int \<times> machine" where
  "take_instruction s =
     (let c = mc_cpu s;
          code = mc_mem s (cPC c);
          (k, c', m') = spec_step (instr_of code) (c\<lparr>cPC := cPC c + 1\<rparr>) (mc_mem s)
      in (k, s\<lparr>mc_cpu := c', mc_mem := m',
               mc_poll := (if code \<in> set late_I_opcodes then Some (fI c) else None)\<rparr>))"

definition masked_now :: "machine \<Rightarrow> bool" where
  "masked_now s = (case mc_poll s of Some i \<Rightarrow> i | None \<Rightarrow> fI (mc_cpu s))"

definition machine_step :: "machine \<Rightarrow> int \<times> machine" where
  "machine_step s =
     (if mc_nmi s then take_interrupt 0xFFFA (s\<lparr>mc_nmi := False\<rparr>)
      else if mc_irq s \<and> \<not> masked_now s then take_interrupt 0xFFFE s
      else take_instruction s)"

definition abs_machine :: "('b \<Rightarrow> mem) \<Rightarrow> ('b, 'k) Processor \<Rightarrow> machine" where
  "abs_machine view P =
     \<lparr>mc_cpu = abs_cpu (p_regs P), mc_mem = view (p_bus P), mc_nmi = m_nmi_pending P,
      mc_irq = m_irq_line P,
      mc_poll = (if m_i_flag_delayed P then Some (m_i_flag_before P) else None)\<rparr>"

section \<open>The refinement\<close>

text \<open>\<open>P'\<close> is a correct result of a step of \<open>P\<close> that costs \<open>k\<close> cycles and reaches \<open>s\<close>.\<close>

definition step_result ::
  "('b, 'k) Env \<Rightarrow> ('b \<Rightarrow> mem) \<Rightarrow> ('b \<Rightarrow> bool) \<Rightarrow> ('b, 'k) Processor \<Rightarrow> ('b, 'k) Processor
    \<Rightarrow> int \<times> machine \<Rightarrow> bool" where
  "step_result E view ok P P' ks \<longleftrightarrow>
     abs_machine view P' = snd ks \<and> ok (p_bus P') \<and>
     p_clock P' = clk_waitCycles (v_clock E) (fst ks) (p_clock P) \<and>
     m_running P' = m_running P \<and> m_stopping P' = m_stopping P"

lemma waitCycles_select [simp]:
  "p_regs (waitCycles E n P) = p_regs P" "p_bus (waitCycles E n P) = p_bus P"
  "p_clock (waitCycles E n P) = clk_waitCycles (v_clock E) n (p_clock P)"
  "m_running (waitCycles E n P) = m_running P" "m_stopping (waitCycles E n P) = m_stopping P"
  "m_nmi_pending (waitCycles E n P) = m_nmi_pending P" "m_irq_line (waitCycles E n P) = m_irq_line P"
  "m_i_flag_delayed (waitCycles E n P) = m_i_flag_delayed P"
  "m_i_flag_before (waitCycles E n P) = m_i_flag_before P"
  by (simp_all add: waitCycles_def)

context ram_bus
begin

lemma serviceInterrupt_refines:
  assumes "v_bus E = B" and "inv (p_bus P)"
  obtains r b where "serviceInterrupt E vector P = (7, P\<lparr>p_regs := r, p_bus := b\<rparr>)"
    and "interrupt False vector (abs_cpu (p_regs P)) (view (p_bus P)) = (abs_cpu r, view b)" and "inv b"
proof -
  obtain r b where "serviceInterrupt E vector P = (7, P\<lparr>p_regs := r, p_bus := b\<rparr>)"
    and "interrupt False vector (abs_cpu (p_regs P)) (view (p_bus P)) = (abs_cpu r, view b) \<and> inv b"
    using assms unfolding serviceInterrupt_def Let_def status_byte_irq
    by (simp add: case_prod_beta stack_specs Let_def del: fun_upd_apply)
  with that show thesis by blast
qed

lemma execute_next_refines:
  fixes P :: "('b, 'k) Processor"
  assumes "v_bus E = B" and "inv (p_bus P)"
  shows "step_result E view inv P (execute_next E P) (take_instruction (abs_machine view P))"
proof -
  let ?r = "p_regs P"
  obtain b1 where fetch: "bus_read B (reg_pc ?r) (p_bus P) = (view (p_bus P) (reg_pc ?r), b1)"
    "view b1 = view (p_bus P)" "inv b1"
    by (rule readE [OF assms(2)])
  define code where "code = view (p_bus P) (reg_pc ?r)"
  define r1 where "r1 = ?r\<lparr>reg_pc := reg_pc ?r + 1\<rparr>"
  obtain k r2 b2 where ex: "execute (instr_of code) B r1 b1 = (k, r2, b2)"
    by (cases "execute (instr_of code) B r1 b1") auto
  have spec: "spec_step (instr_of code) (abs_cpu r1) (view b1) = (k, abs_cpu r2, view b2)" "inv b2"
    using execute_refines [OF fetch(3), of "instr_of code" r1] by (simp_all add: implements_def ex)
  have code_step: "execute_next E P = (waitCycles E k (P\<lparr>p_regs := r2, p_bus := b2\<rparr>))
      \<lparr>m_i_flag_delayed := code \<in> set late_I_opcodes, m_i_flag_before := getStatus FLAG_I r1\<rparr>"
    by (simp add: execute_next_def assms(1) fetch(1) code_def [symmetric] r1_def [symmetric] ex
        late_I_opcodes_def)
  have abs_step: "take_instruction (abs_machine view P) = (k, (abs_machine view P)\<lparr>
      mc_cpu := abs_cpu r2, mc_mem := view b2,
      mc_poll := (if code \<in> set late_I_opcodes then Some (getStatus FLAG_I r1) else None)\<rparr>)"
    using spec(1) by (simp add: take_instruction_def abs_machine_def code_def [symmetric] fetch(2) r1_def)
  show ?thesis
    unfolding code_step abs_step using spec(2) by (simp add: step_result_def abs_machine_def)
qed

lemma step_core_refines:
  fixes P :: "('b, 'k) Processor"
  assumes "v_bus E = B" and "inv (p_bus P)"
  shows "step_result E view inv P (step_core E P) (machine_step (abs_machine view P))"
proof -
  define P0 where "P0 = P\<lparr>m_nmi_pending := False\<rparr>"
  have P0: "inv (p_bus P0)" "p_regs P0 = p_regs P" "p_bus P0 = p_bus P"
    using assms(2) by (simp_all add: P0_def)
  have service: "step_result E view inv P
      (case serviceInterrupt E vector P0 of (k, P') \<Rightarrow> (waitCycles E k P')\<lparr>m_i_flag_delayed := False\<rparr>)
      (take_interrupt vector ((abs_machine view P)\<lparr>mc_nmi := False\<rparr>))" for vector
  proof (rule serviceInterrupt_refines [OF assms(1) P0(1), of vector], goal_cases)
    case (1 r b)
    then show ?case
      by (simp add: step_result_def take_interrupt_def abs_machine_def P0_def)
  qed
  have masked: "masked_now (abs_machine view P)
      = (if m_i_flag_delayed P then m_i_flag_before P else getStatus FLAG_I (p_regs P))"
    by (simp add: masked_now_def abs_machine_def)
  have lines: "mc_nmi (abs_machine view P) = m_nmi_pending P" "mc_irq (abs_machine view P) = m_irq_line P"
    by (simp_all add: abs_machine_def)
  have nonmi: "\<not> m_nmi_pending P \<Longrightarrow> P0 = P \<and> (abs_machine view P)\<lparr>mc_nmi := False\<rparr> = abs_machine view P"
    by (simp add: P0_def abs_machine_def)
  have irq: "m_irq_line P0 = m_irq_line P"
    by (simp add: P0_def)
  show ?thesis
    using service [of "0xFFFA"] service [of "0xFFFE"] execute_next_refines [OF assms] nonmi
    unfolding step_core_def Let_def P0_def [symmetric] machine_step_def masked lines irq
    by auto
qed

end

end
