(* ===== verification/Emulator.thy ===== *)
theory Emulator
  imports Step_Refinement
begin

text \<open>
  \<^verbatim>\<open>src/I6502Emulator.cpp\<close>: reset, start and stop. \<open>run\<close> is virtual, so \<open>start\<close> takes it as an
  argument. \<open>stop\<close> spins until the thread that runs the processor has left its loop; what the other
  threads do to the processor while this one yields is the argument \<open>others\<close>, and \<open>run_slice\<close> is what
  the run loop of another thread does between two looks at its condition.
\<close>

section \<open>The facade\<close>

definition Emulator_start ::
  "(('b, 'k) Processor \<Rightarrow> ('b, 'k) Processor option) \<Rightarrow> ('b, 'k) Env \<Rightarrow> bool
    \<Rightarrow> ('b, 'k) Processor \<Rightarrow> ('b, 'k) Processor option" where
  "Emulator_start virtual_run E go P =
     (let r = Registers_zero;
          r = r\<lparr>reg_sp := 0xFD\<rparr>;
          r = r\<lparr>reg_sr := FLAG_U OR FLAG_I\<rparr>;
          (lo, b) = bus_read (v_bus E) 0xFFFC (p_bus P);
          (hi, b) = bus_read (v_bus E) 0xFFFD b;
          r = r\<lparr>reg_pc := le16 lo hi\<rparr>;
          P = P\<lparr>p_regs := r, p_bus := b\<rparr>;
          P = clearInterrupts P;
          P = P\<lparr>p_clock := clk_reset (v_clock E) (p_clock P)\<rparr>;
          P = P\<lparr>p_clock := clk_beginCycle (v_clock E) (p_clock P)\<rparr>;
          P = waitCycles E 7 P
      in if go then virtual_run P else Some P)"

definition Emulator_stop ::
  "(('b, 'k) Processor \<Rightarrow> ('b, 'k) Processor) \<Rightarrow> ('b, 'k) Processor \<Rightarrow> ('b, 'k) Processor option"
  where "Emulator_stop others P = while_option isRunning others (pause P)"

definition Emulator_reset ::
  "(('b, 'k) Processor \<Rightarrow> ('b, 'k) Processor option) \<Rightarrow> (('b, 'k) Processor \<Rightarrow> ('b, 'k) Processor)
    \<Rightarrow> ('b, 'k) Env \<Rightarrow> bool \<Rightarrow> ('b, 'k) Processor \<Rightarrow> ('b, 'k) Processor option" where
  "Emulator_reset virtual_run others E go P =
     (case Emulator_stop others P of None \<Rightarrow> None | Some P \<Rightarrow> Emulator_start virtual_run E go P)"

definition run_slice :: "('b, 'k) Env \<Rightarrow> ('b, 'k) Processor \<Rightarrow> ('b, 'k) Processor" where
  "run_slice E P = (if run_cond P then step E P else run_end P)"

section \<open>Reset\<close>

text \<open>The abstract machine after a reset.\<close>

definition reset_cpu :: "mem \<Rightarrow> cpu" where
  "reset_cpu m = \<lparr>cA = 0, cX = 0, cY = 0, cS = 0xFD, cPC = word_at m 0xFFFC,
     fN = False, fV = False, fD = False, fI = True, fZ = False, fC = False, cBCD = True\<rparr>"

definition reset_machine :: "mem \<Rightarrow> machine" where
  "reset_machine m = \<lparr>mc_cpu = reset_cpu m, mc_mem = m, mc_nmi = False, mc_irq = False, mc_poll = None\<rparr>"

lemma reset_registers:
  "abs_cpu (Registers_zero\<lparr>reg_sp := 0xFD, reg_sr := FLAG_U OR FLAG_I, reg_pc := pc\<rparr>)
    = \<lparr>cA = 0, cX = 0, cY = 0, cS = 0xFD, cPC = pc,
       fN = False, fV = False, fD = False, fI = True, fZ = False, fC = False, cBCD = True\<rparr>"
  by (simp add: abs_cpu_def Registers_zero_def getStatus_def flag_defs)

context ram_bus
begin

lemma start_refines:
  assumes "v_bus E = B" and "inv (p_bus P)" and "counting_clock (v_clock E)"
  obtains P' where "Emulator_start virtual_run E False P = Some P'"
    and "abs_machine view P' = reset_machine (view (p_bus P))"
    and "inv (p_bus P')" and "clk_cycles (v_clock E) (p_clock P') = 7"
    and "m_running P' = m_running P" and "m_stopping P' = m_stopping P"
proof -
  define P' where "P' = the (Emulator_start virtual_run E False P)"
  have "Emulator_start virtual_run E False P = Some P'"
    by (simp add: P'_def Emulator_start_def Let_def case_prod_beta)
  moreover have "abs_machine view P' = reset_machine (view (p_bus P))" "inv (p_bus P')"
    "m_running P' = m_running P" "m_stopping P' = m_stopping P"
    using assms(1,2)
    by (simp_all add: P'_def Emulator_start_def Let_def case_prod_beta clearInterrupts_def
        abs_machine_def reset_machine_def reset_cpu_def word_at_def reset_registers [simplified])
  moreover have "clk_cycles (v_clock E) (p_clock P') = 7"
    using counting_clock.reset_sequence [OF assms(3), of 7]
    by (simp add: P'_def Emulator_start_def Let_def case_prod_beta clearInterrupts_def)
  ultimately show thesis
    using that by blast
qed

end

section \<open>Stop\<close>

text \<open>A paused run loop ends at its next look at the condition, and \<open>stop\<close> returns.\<close>

lemma stop_running_thread:
  assumes "m_running P"
  shows "Emulator_stop (run_slice E) P = Some (run_end P)"
  using assms
  by (simp add: Emulator_stop_def while_option_unfold isRunning_def pause_def run_slice_def
      run_cond_def run_end_def)

lemma stop_idle:
  assumes "\<not> m_running P"
  shows "Emulator_stop others P = Some (pause P)"
  using assms by (simp add: Emulator_stop_def while_option_unfold isRunning_def pause_def)

end
