(* ===== verification/Interrupts.thy ===== *)
theory Interrupts
  imports Step_Refinement
begin

text \<open>
  The interrupt behaviour of \<open>Processor::step\<close>: which of NMI, IRQ and the next instruction a step
  takes, the one-instruction delay of \<open>CLI\<close>, \<open>SEI\<close> and \<open>PLP\<close>, the return from a handler, and the
  jam of \<open>KIL\<close>. The statements about decisions hold on any bus; those that follow values through
  memory hold on any bus that behaves as RAM.
\<close>

section \<open>Decisions\<close>

definition masked :: "('b, 'k) Processor \<Rightarrow> bool" where
  "masked P = (if m_i_flag_delayed P then m_i_flag_before P else getStatus FLAG_I (p_regs P))"

definition take_vector :: "('b, 'k) Env \<Rightarrow> uint16 \<Rightarrow> ('b, 'k) Processor \<Rightarrow> ('b, 'k) Processor" where
  "take_vector E vector P = (case serviceInterrupt E vector P of
     (k, P') \<Rightarrow> (waitCycles E k P')\<lparr>m_i_flag_delayed := False\<rparr>)"

lemma step_core_cases:
  "step_core E P =
     (if m_nmi_pending P then take_vector E 0xFFFA (P\<lparr>m_nmi_pending := False\<rparr>)
      else if m_irq_line P \<and> \<not> masked P then take_vector E 0xFFFE P
      else execute_next E P)"
proof -
  have same: "\<not> m_nmi_pending P \<Longrightarrow> P\<lparr>m_nmi_pending := False\<rparr> = P"
    by (cases P) simp
  show ?thesis
    by (cases "m_nmi_pending P") (simp_all add: step_core_def take_vector_def masked_def Let_def same)
qed

lemma take_vector_lines [simp]:
  "m_irq_line (take_vector E vector P) = m_irq_line P"
  "m_nmi_pending (take_vector E vector P) = m_nmi_pending P"
  "\<not> m_i_flag_delayed (take_vector E vector P)"
  "m_running (take_vector E vector P) = m_running P"
  "m_stopping (take_vector E vector P) = m_stopping P"
  by (simp_all add: take_vector_def serviceInterrupt_def Let_def case_prod_beta)

lemma take_vector_masks: "getStatus FLAG_I (p_regs (take_vector E vector P))"
  by (simp add: take_vector_def serviceInterrupt_def Let_def case_prod_beta)

lemma execute_next_lines [simp]:
  "m_irq_line (execute_next E P) = m_irq_line P"
  "m_nmi_pending (execute_next E P) = m_nmi_pending P"
  "m_running (execute_next E P) = m_running P"
  "m_stopping (execute_next E P) = m_stopping P"
  by (simp_all add: execute_next_def Let_def case_prod_beta)

text \<open>The opcode that the next step fetches, if it fetches one.\<close>

definition next_code :: "('b, 'k) Env \<Rightarrow> ('b, 'k) Processor \<Rightarrow> uint8" where
  "next_code E P = fst (bus_read (v_bus E) (reg_pc (p_regs P)) (p_bus P))"

lemma execute_next_delay [simp]:
  "m_i_flag_delayed (execute_next E P) \<longleftrightarrow> next_code E P \<in> set late_I_opcodes"
  "m_i_flag_before (execute_next E P) = getStatus FLAG_I (p_regs P)"
  by (simp_all add: execute_next_def next_code_def late_I_opcodes_def Let_def case_prod_beta)

lemma table_entries:
  "instr_of 0x58 = Inst CLI_Impl Null 2" "instr_of 0x78 = Inst SEI_Impl Null 2"
  "instr_of 0x28 = Inst PLP_Impl Null 4" "instr_of 0x40 = Inst RTI_Impl Null 6"
  "instr_of 0x00 = Inst BRK_Impl Null 7" "instr_of 0x60 = Inst RTS_Impl Null 6"
  "instr_of 0x20 = Inst JSR_Impl AbsConst 6" "instr_of 0x08 = Inst PHP_Impl Null 3"
  by (simp_all add: instr_of_def instruction_table_def row_defs)

lemma execute_cli:
  assumes "next_code E P = 0x58"
  shows "\<not> getStatus FLAG_I (p_regs (execute_next E P))"
  using assms by (simp add: next_code_def execute_next_def Let_def case_prod_beta table_entries
      CLI_execute_def)

lemma execute_sei:
  assumes "next_code E P = 0x78"
  shows "getStatus FLAG_I (p_regs (execute_next E P))"
  using assms by (simp add: next_code_def execute_next_def Let_def case_prod_beta table_entries
      SEI_execute_def)

section \<open>Returning from a handler\<close>

lemma vector_pages [simp]:
  "hi8 0xFFFA = 0xFF" "hi8 0xFFFB = 0xFF" "hi8 0xFFFE = 0xFF" "hi8 0xFFFF = 0xFF"
  by (simp_all add: hi8_ucast)

text \<open>The three bytes an interrupt pushes, and the state it leaves.\<close>

lemma interrupt_eq:
  assumes "hi8 vector \<noteq> 1" and "hi8 (vector + 1) \<noteq> 1"
  shows "interrupt brk vector c m =
    (c\<lparr>cS := cS c - 3, fI := True, cPC := word_at m vector\<rparr>,
     m(0x0100 + ucast (cS c) := hi8 (cPC c), 0x0100 + ucast (cS c - 1) := lo8 (cPC c),
       0x0100 + ucast (cS c - 2) := status_byte brk c))"
  using assms by (simp add: stack_specs Let_def)

text \<open>\<open>RTI\<close> after an interrupt restores every register and flag, and memory outside the stack.\<close>

lemma rti_after_interrupt:
  assumes "hi8 vector \<noteq> 1" and "hi8 (vector + 1) \<noteq> 1" and "interrupt brk vector c m = (c', m')"
  shows "isa RTI_Impl l (c'\<lparr>cPC := pc\<rparr>) m' = (c, m')"
proof -
  have c': "c' = c\<lparr>cS := cS c - 3, fI := True, cPC := word_at m vector\<rparr>"
    and m': "m' = m(0x0100 + ucast (cS c) := hi8 (cPC c), 0x0100 + ucast (cS c - 1) := lo8 (cPC c),
       0x0100 + ucast (cS c - 2) := status_byte brk c)"
    using assms(3) unfolding interrupt_eq [OF assms(1,2)] by simp_all
  have "m' (0x0100 + ucast (cS c - 2)) = status_byte brk c"
    "m' (0x0100 + ucast (cS c - 1)) = lo8 (cPC c)" "m' (0x0100 + ucast (cS c)) = hi8 (cPC c)"
    unfolding m' by simp_all
  then show ?thesis
    by (simp add: stack_specs Let_def c')
qed

text \<open>Steps of the processor over RAM, in terms of the abstract machine.\<close>

lemma step_core_ram:
  assumes "ram_bus (v_bus E) view ok" and "ok (p_bus P)"
  shows "abs_machine view (step_core E P) = snd (machine_step (abs_machine view P))"
    and "ok (p_bus (step_core E P))"
    and "p_clock (step_core E P)
      = clk_waitCycles (v_clock E) (fst (machine_step (abs_machine view P))) (p_clock P)"
  using ram_bus.step_core_refines [OF assms(1) refl assms(2)] by (auto simp: step_result_def)

lemma abs_machine_select [simp]:
  "mc_cpu (abs_machine view P) = abs_cpu (p_regs P)" "mc_mem (abs_machine view P) = view (p_bus P)"
  "mc_nmi (abs_machine view P) = m_nmi_pending P" "mc_irq (abs_machine view P) = m_irq_line P"
  "masked_now (abs_machine view P) = masked P"
  by (simp_all add: abs_machine_def masked_now_def masked_def)

lemma irq_select [simp]:
  "p_regs (irq l P) = p_regs P" "p_bus (irq l P) = p_bus P" "p_clock (irq l P) = p_clock P"
  "m_irq_line (irq l P) = l" "m_nmi_pending (irq l P) = m_nmi_pending P" "masked (irq l P) = masked P"
  by (simp_all add: irq_def masked_def)

lemma abs_machine_irq [simp]: "abs_machine view (irq l P) = (abs_machine view P)\<lparr>mc_irq := l\<rparr>"
  by (simp add: abs_machine_def irq_def)

lemma take_interrupt_eq:
  assumes "hi8 vector \<noteq> 1" and "hi8 (vector + 1) \<noteq> 1"
  shows "take_interrupt vector s =
    (7, s\<lparr>mc_cpu := (mc_cpu s)\<lparr>cS := cS (mc_cpu s) - 3, fI := True, cPC := word_at (mc_mem s) vector\<rparr>,
      mc_mem := snd (interrupt False vector (mc_cpu s) (mc_mem s)), mc_poll := None\<rparr>)"
  using interrupt_eq [OF assms, of False "mc_cpu s" "mc_mem s"] by (simp add: take_interrupt_def)

lemma interrupt_memory:
  assumes "hi8 vector \<noteq> 1" and "hi8 (vector + 1) \<noteq> 1" and "page ad \<noteq> 1"
  shows "snd (interrupt brk vector c m) ad = m ad"
  using interrupt_eq [OF assms(1,2), of brk c m] assms(3) by (auto simp: stack_page)

lemma rti_step:
  assumes "mc_mem s (cPC (mc_cpu s)) = 0x40" and "\<not> mc_nmi s" and "\<not> mc_irq s"
  shows "machine_step s = (6, s\<lparr>mc_cpu := fst (isa RTI_Impl LNone ((mc_cpu s)\<lparr>cPC := cPC (mc_cpu s) + 1\<rparr>) (mc_mem s)),
      mc_poll := None\<rparr>)"
  using assms
  by (simp add: machine_step_def take_instruction_def table_entries isa_step_def implied_def
      extra_cycles_def branch_taken_def pays_crossing_def late_I_opcodes_def stack_specs Let_def)

text \<open>
  C5: An IRQ whose handler is a single \<open>RTI\<close> (and whose device releases the line) returns to the
  interrupted instruction with every register and flag restored, all memory outside the stack page
  unchanged, and 7 + 6 cycles charged, over any bus that behaves as RAM.
\<close>

theorem irq_rti_round_trip:
  fixes P :: "('b, 'k) Processor"
  assumes ram: "ram_bus (v_bus E) view ok" "ok (p_bus P)"
    and "\<not> m_nmi_pending P" and "m_irq_line P" and "\<not> masked P"
    and handler: "view (p_bus P) (word_at (view (p_bus P)) 0xFFFE) = 0x40"
      "page (word_at (view (p_bus P)) 0xFFFE) \<noteq> 1"
  defines "P2 \<equiv> step_core E (irq False (step_core E P))"
  shows "abs_cpu (p_regs P2) = abs_cpu (p_regs P)
    \<and> (\<forall>ad. page ad \<noteq> 1 \<longrightarrow> view (p_bus P2) ad = view (p_bus P) ad)
    \<and> p_clock P2 = clk_waitCycles (v_clock E) 6 (clk_waitCycles (v_clock E) 7 (p_clock P))"
proof -
  let ?s = "abs_machine view P" and ?v = "0xFFFE :: uint16"
  let ?c = "abs_cpu (p_regs P)" and ?m = "view (p_bus P)"
  let ?m1 = "snd (interrupt False ?v ?c ?m)"
  define s1 where "s1 = snd (machine_step ?s)"
  have step1: "machine_step ?s = take_interrupt ?v ?s"
    using assms(3-5) by (simp add: machine_step_def)
  have v: "hi8 ?v \<noteq> 1" "hi8 (?v + 1) \<noteq> 1"
    by simp_all
  have s1: "mc_cpu s1 = ?c\<lparr>cS := cS ?c - 3, fI := True, cPC := word_at ?m ?v\<rparr>" "mc_mem s1 = ?m1"
    "\<not> mc_nmi s1" "fst (machine_step ?s) = 7"
    using assms(3) by (simp_all add: s1_def step1 take_interrupt_eq [OF v])
  have "mc_mem s1 (cPC (mc_cpu s1)) = 0x40"
    using handler interrupt_memory [OF v handler(2), of False ?c ?m] by (simp add: s1)
  then have step2: "machine_step (s1\<lparr>mc_irq := False\<rparr>) = (6, s1\<lparr>mc_irq := False,
      mc_cpu := fst (isa RTI_Impl LNone ((mc_cpu s1)\<lparr>cPC := cPC (mc_cpu s1) + 1\<rparr>) (mc_mem s1)),
      mc_poll := None\<rparr>)"
    using rti_step [of "s1\<lparr>mc_irq := False\<rparr>"] s1(3) by simp
  obtain c1 m1 where int: "interrupt False ?v ?c ?m = (c1, m1)"
    by (cases "interrupt False ?v ?c ?m") auto
  then have "c1 = mc_cpu s1" "m1 = mc_mem s1"
    using interrupt_eq [OF v, of False ?c ?m] by (simp_all add: s1)
  then have "fst (isa RTI_Impl LNone ((mc_cpu s1)\<lparr>cPC := pc\<rparr>) (mc_mem s1)) = ?c" for pc
    using rti_after_interrupt [OF v int, of LNone pc] by simp
  note returns = this
  have P1: "abs_machine view (irq False (step_core E P)) = s1\<lparr>mc_irq := False\<rparr>"
    "ok (p_bus (irq False (step_core E P)))"
    using step_core_ram [OF ram] by (simp_all add: s1_def)
  note P2 = step_core_ram [OF ram(1) P1(2), folded P2_def, unfolded P1(1) step2]
  have "abs_cpu (p_regs P2) = ?c"
    using arg_cong [OF P2(1), of mc_cpu] returns by simp
  moreover have "view (p_bus P2) ad = ?m ad" if "page ad \<noteq> 1" for ad
    using arg_cong [OF P2(1), of mc_mem] interrupt_memory [OF v that, of False ?c ?m] s1(2)
    by simp
  moreover have "p_clock P2 = clk_waitCycles (v_clock E) 6 (clk_waitCycles (v_clock E) 7 (p_clock P))"
    using P2(3) step_core_ram(3) [OF ram] s1(4) by simp
  ultimately show ?thesis by blast
qed

definition plain_system :: "(mem, uint64) Env" where
  "plain_system = \<lparr>v_bus = array_Bus, v_clock = default_clock, p_instr_callback = None\<rparr>"

definition booted :: "mem \<Rightarrow> uint16 \<Rightarrow> (mem, uint64) Processor" where
  "booted m pc = Processor_new m (Registers_zero\<lparr>reg_sp := 0xFD, reg_pc := pc\<rparr>) 0"

lemma plain_system_ram: "ram_bus (v_bus plain_system) (\<lambda>m. m) (\<lambda>_. True)"
  by (simp add: plain_system_def array.ram_bus_axioms)

lemma booted_select [simp]:
  "p_bus (booted m pc) = m" "p_clock (booted m pc) = 0" "\<not> m_nmi_pending (booted m pc)"
  "\<not> m_irq_line (booted m pc)" "\<not> m_i_flag_delayed (booted m pc)" "reg_pc (p_regs (booted m pc)) = pc"
  "\<not> masked (booted m pc)" "reg_sp (p_regs (booted m pc)) = 0xFD"
  by (simp_all add: booted_def Processor_new_def masked_def Registers_zero_def getStatus_def)

lemma irq_rti_round_trip_witness:
  "let P = irq True (booted ((\<lambda>_. 0)(0xFFFF := 0x80, 0x8000 := 0x40)) 0x1234);
       P2 = step_core plain_system (irq False (step_core plain_system P))
   in reg_pc (p_regs P2) = 0x1234 \<and> reg_sp (p_regs P2) = 0xFD"
proof -
  let ?P = "irq True (booted ((\<lambda>_. 0)(0xFFFF := 0x80, 0x8000 := 0x40)) 0x1234)"
  have "abs_cpu (p_regs (step_core plain_system (irq False (step_core plain_system ?P))))
      = abs_cpu (p_regs ?P)"
    using irq_rti_round_trip [OF plain_system_ram, of ?P] 
    by (simp add: word_at_def le16_def page_def hi8_ucast)
  then have "cPC (abs_cpu (p_regs (step_core plain_system (irq False (step_core plain_system ?P))))) = 0x1234"
    "cS (abs_cpu (p_regs (step_core plain_system (irq False (step_core plain_system ?P))))) = 0xFD"
    by simp_all
  then show ?thesis
    by (simp add: Let_def)
qed

section \<open>Latency and priority\<close>

lemma masked_after_instruction:
  "masked (execute_next E P) \<longleftrightarrow>
     (if next_code E P \<in> set late_I_opcodes then getStatus FLAG_I (p_regs P)
      else getStatus FLAG_I (p_regs (execute_next E P)))"
  by (simp add: masked_def)

text \<open>
  C6: \<open>CLI\<close> takes effect one instruction late, on any bus. With an IRQ held and I set, \<open>CLI\<close> clears
  I but the next step still executes an instruction. If that instruction is \<open>SEI\<close>, I is set again
  and the IRQ is taken all the same, just after the \<open>SEI\<close>; if it is an ordinary instruction that
  leaves I clear, the IRQ is taken after it.
\<close>

theorem cli_latency:
  assumes "\<not> m_nmi_pending P" and "m_irq_line P" and "masked P" and I: "getStatus FLAG_I (p_regs P)"
    and "next_code E P = 0x58"
  defines "P1 \<equiv> step_core E P"
  defines "P2 \<equiv> step_core E P1"
  shows "\<not> getStatus FLAG_I (p_regs P1) \<and> P2 = execute_next E P1 \<and>
      (next_code E P1 = 0x78 \<longrightarrow>
         getStatus FLAG_I (p_regs P2) \<and> step_core E P2 = take_vector E 0xFFFE P2) \<and>
      (next_code E P1 \<notin> set late_I_opcodes \<and> \<not> getStatus FLAG_I (p_regs P2) \<longrightarrow>
         step_core E P2 = take_vector E 0xFFFE P2)"
proof -
  have P1: "P1 = execute_next E P"
    using assms(1,3) by (simp add: P1_def step_core_cases)
  have lines: "\<not> m_nmi_pending P1" "m_irq_line P1"
    using assms(1,2) by (simp_all add: P1)
  have "masked P1"
    using I assms(5) by (simp add: P1 masked_after_instruction late_I_opcodes_def)
  then have P2: "P2 = execute_next E P1"
    using lines by (simp add: P2_def step_core_cases)
  have clear: "\<not> getStatus FLAG_I (p_regs P1)"
    using execute_cli [OF assms(5)] by (simp add: P1)
  have "step_core E P2 = take_vector E 0xFFFE P2" if "\<not> masked P2"
    using lines that by (simp add: step_core_cases) (simp add: P2)
  moreover have "next_code E P1 = 0x78 \<Longrightarrow> \<not> masked P2"
    using clear by (simp add: P2 masked_after_instruction late_I_opcodes_def)
  moreover have "next_code E P1 \<notin> set late_I_opcodes \<Longrightarrow> \<not> getStatus FLAG_I (p_regs P2) \<Longrightarrow> \<not> masked P2"
    by (simp add: P2 masked_after_instruction)
  ultimately show "\<not> getStatus FLAG_I (p_regs P1) \<and> P2 = execute_next E P1 \<and>
      (next_code E P1 = 0x78 \<longrightarrow>
         getStatus FLAG_I (p_regs P2) \<and> step_core E P2 = take_vector E 0xFFFE P2) \<and>
      (next_code E P1 \<notin> set late_I_opcodes \<and> \<not> getStatus FLAG_I (p_regs P2) \<longrightarrow>
         step_core E P2 = take_vector E 0xFFFE P2)"
    using clear P2 execute_sei [of E P1] by auto
qed

definition cli_sei_program :: mem where
  "cli_sei_program = (\<lambda>_. 0xEA)(0x0200 := 0x58, 0x0201 := 0x78)"

definition sei_booted :: "mem \<Rightarrow> uint16 \<Rightarrow> (mem, uint64) Processor" where
  "sei_booted m pc = irq True (Processor_new m
     (Registers_zero\<lparr>reg_sp := 0xFD, reg_sr := FLAG_I, reg_pc := pc\<rparr>) 0)"

lemma sei_booted_select [simp]:
  "p_bus (sei_booted m pc) = m" "\<not> m_nmi_pending (sei_booted m pc)" "m_irq_line (sei_booted m pc)"
  "reg_pc (p_regs (sei_booted m pc)) = pc" "getStatus FLAG_I (p_regs (sei_booted m pc))"
  "masked (sei_booted m pc)"
  by (simp_all add: sei_booted_def Processor_new_def masked_def getStatus_def irq_def flag_defs)

lemma cli_latency_witness:
  "let P2 = step_core plain_system (step_core plain_system (sei_booted cli_sei_program 0x0200))
   in getStatus FLAG_I (p_regs P2) \<and> step_core plain_system P2 = take_vector plain_system 0xFFFE P2"
proof -
  let ?P = "sei_booted cli_sei_program 0x0200"
  have code: "next_code plain_system ?P = 0x58"
    by (simp add: next_code_def plain_system_def array_Bus_def cli_sei_program_def)
  have P: "\<not> m_nmi_pending ?P" "m_irq_line ?P" "masked ?P" "getStatus FLAG_I (p_regs ?P)"
    by simp_all
  have "step_core plain_system ?P = execute_next plain_system ?P"
    by (simp add: step_core_cases)
  moreover have "next_code plain_system (execute_next plain_system ?P) = 0x78"
    using code by (simp add: next_code_def execute_next_def table_entries CLI_execute_def
        plain_system_def array_Bus_def cli_sei_program_def)
  ultimately have "next_code plain_system (step_core plain_system ?P) = 0x78"
    by simp
  then show ?thesis
    unfolding Let_def using cli_latency [OF P code] by blast
qed

text \<open>
  C7: An NMI is taken exactly once and before an IRQ, whatever the I flag, on any bus: the step
  clears the latch, leaves the IRQ line as it was and masks it, so the next step executes the
  first instruction of the handler even with the IRQ still held; and an IRQ alone is never taken
  while it is masked.
\<close>

theorem nmi_priority:
  fixes E :: "('b, 'k) Env"
  assumes "m_nmi_pending P"
  defines "P1 \<equiv> step_core E P"
  shows "P1 = take_vector E 0xFFFA (P\<lparr>m_nmi_pending := False\<rparr>) \<and> \<not> m_nmi_pending P1
    \<and> m_irq_line P1 = m_irq_line P \<and> masked P1 \<and> step_core E P1 = execute_next E P1"
proof -
  have P1: "P1 = take_vector E 0xFFFA (P\<lparr>m_nmi_pending := False\<rparr>)"
    using assms(1) by (simp add: P1_def step_core_cases)
  moreover have "masked P1"
    by (simp add: P1 masked_def take_vector_masks)
  ultimately show ?thesis
    by (simp add: step_core_cases)
qed

lemma nmi_priority_witness:
  "let P1 = step_core plain_system (nmi (sei_booted (\<lambda>_. 0) 0x0200))
   in m_irq_line P1 \<and> step_core plain_system P1 = execute_next plain_system P1"
proof -
  let ?P = "nmi (sei_booted (\<lambda>_. 0) 0x0200)"
  have P: "m_nmi_pending ?P" "m_irq_line ?P"
    by (simp_all add: nmi_def)
  show ?thesis
    unfolding Let_def using nmi_priority [OF P(1), of plain_system] P(2) by blast
qed

section \<open>The jam\<close>

definition kil_opcodes :: "uint8 list" where
  "kil_opcodes = [0x02, 0x12, 0x22, 0x32, 0x42, 0x52, 0x62, 0x72, 0x92, 0xB2, 0xD2, 0xF2]"

lemma kil_entry: "code \<in> set kil_opcodes \<Longrightarrow> instr_of code = Inst KIL_Impl Null 3"
  unfolding kil_opcodes_def by (auto simp: instr_of_def instruction_table_def row_defs)

lemma kil_step:
  assumes "mc_mem s (cPC (mc_cpu s)) \<in> set kil_opcodes" and "\<not> mc_nmi s"
    and "\<not> mc_irq s \<or> fI (mc_cpu s)" and "mc_poll s = None"
  shows "machine_step s = (3, s)"
proof -
  have "take_instruction s = (3, s\<lparr>mc_poll := None\<rparr>)"
    using kil_entry [OF assms(1)] assms(1)
    by (auto simp: take_instruction_def isa_step_def implied_def extra_cycles_def branch_taken_def
        pays_crossing_def Let_def late_I_opcodes_def kil_opcodes_def)
  moreover have "s\<lparr>mc_poll := None\<rparr> = s"
    using assms(4) by (cases s) simp
  moreover have "masked_now s = fI (mc_cpu s)"
    using assms(4) by (simp add: masked_now_def)
  ultimately show ?thesis
    using assms(2,3) by (auto simp: machine_step_def)
qed

lemma abs_machine_nmi [simp]: "abs_machine view (nmi P) = (abs_machine view P)\<lparr>mc_nmi := True\<rparr>"
  by (simp add: abs_machine_def nmi_def)

lemma p_bus_nmi [simp]: "p_bus (nmi P) = p_bus P"
  by (simp add: nmi_def)

text \<open>
  C25: A \<open>KIL\<close> opcode jams the processor over RAM: however often it steps, registers, flags and
  memory stay as they are and 3 cycles are charged each time. An NMI still leaves the jam, for the
  handler at \<open>$FFFA\<close>, although the source says that only a reset does.
\<close>

theorem kil_jams:
  fixes P :: "('b, 'k) Processor"
  assumes ram: "ram_bus (v_bus E) view ok" "ok (p_bus P)"
    and kil: "view (p_bus P) (reg_pc (p_regs P)) \<in> set kil_opcodes"
    and calm: "\<not> m_nmi_pending P" "\<not> m_irq_line P \<or> getStatus FLAG_I (p_regs P)"
      "\<not> m_i_flag_delayed P" "p_instr_callback E = None"
  shows "abs_machine view ((step E ^^ n) P) = abs_machine view P
    \<and> p_clock ((step E ^^ n) P) = (clk_waitCycles (v_clock E) 3 ^^ n) (p_clock P)
    \<and> reg_pc (p_regs (step_core E (nmi ((step E ^^ n) P)))) = word_at (view (p_bus P)) 0xFFFA"
proof -
  let ?s = "abs_machine view P"
  have jam: "machine_step ?s = (3, ?s)"
    using kil calm by (intro kil_step) (simp_all add: abs_machine_def)
  have "abs_machine view ((step E ^^ n) P) = ?s \<and> ok (p_bus ((step E ^^ n) P))
    \<and> p_clock ((step E ^^ n) P) = (clk_waitCycles (v_clock E) 3 ^^ n) (p_clock P)"
  proof (induction n)
    case 0
    show ?case using ram by simp
  next
    case (Suc n)
    let ?Q = "(step E ^^ n) P"
    have "step E ?Q = step_core E ?Q"
      using calm(4) by (simp add: step_def call_back_def)
    then show ?case
      using Suc step_core_ram [OF ram(1), of ?Q] jam by simp
  qed
  moreover from this have "ok (p_bus (nmi ((step E ^^ n) P)))"
    by simp
  note nmi_step = step_core_ram(1) [OF ram(1) this]
  have "machine_step (?s\<lparr>mc_nmi := True\<rparr>) = take_interrupt 0xFFFA (?s\<lparr>mc_nmi := False\<rparr>)"
    by (simp add: machine_step_def)
  moreover have "cPC (mc_cpu (snd (take_interrupt 0xFFFA s))) = word_at (mc_mem s) 0xFFFA" for s
    by (simp add: take_interrupt_eq)
  ultimately show ?thesis
    using arg_cong [OF nmi_step, of "\<lambda>s. cPC (mc_cpu s)"] by simp
qed

lemma kil_jams_witness:
  "reg_pc (p_regs ((step plain_system ^^ 1000) (booted (\<lambda>_. 0x02) 0x0200))) = 0x0200"
proof -
  let ?P = "booted (\<lambda>_. 0x02) 0x0200"
  have "abs_machine (\<lambda>m. m) ((step plain_system ^^ 1000) ?P) = abs_machine (\<lambda>m. m) ?P"
    using kil_jams [OF plain_system_ram, of ?P 1000]
    by (simp add: kil_opcodes_def) (simp add: plain_system_def)
  then have "cPC (mc_cpu (abs_machine (\<lambda>m. m) ((step plain_system ^^ 1000) ?P))) = 0x0200"
    by simp
  then show ?thesis by simp
qed

end
