(* ===== verification/Run_Loops.thy ===== *)
theory Run_Loops
  imports Emulator Interrupts
begin

text \<open>
  The run loops of \<^verbatim>\<open>src/Processor.cpp\<close> and the facade on top of them: when \<open>Processor::run\<close> and
  \<open>DebugProcessor::run\<close> return, in which state, and after how many cycles. A run may go on for ever, so it is an
  option; the theorems say exactly when it is \<open>Some\<close>. The locale \<open>watching_callback\<close> is the contract of an
  instruction callback that looks at the processor and may pause it, and nothing else.
\<close>

section \<open>The flags of the loop\<close>

lemma step_core_flags [simp]:
  "m_running (step_core E P) = m_running P" "m_stopping (step_core E P) = m_stopping P"
  by (simp_all add: step_core_def execute_next_def serviceInterrupt_def waitCycles_def Let_def
      case_prod_beta)

lemma run_start_select [simp]:
  "p_regs (run_start E P) = p_regs P" "p_bus (run_start E P) = p_bus P"
  "p_clock (run_start E P) = clk_beginCycle (v_clock E) (p_clock P)"
  "m_running (run_start E P)" "\<not> m_stopping (run_start E P)"
  "abs_machine view (run_start E P) = abs_machine view P"
  by (simp_all add: run_start_def abs_machine_def)

lemma run_end_select [simp]:
  "\<not> isRunning (run_end P)" "p_regs (run_end P) = p_regs P" "p_bus (run_end P) = p_bus P"
  "p_clock (run_end P) = p_clock P" "abs_machine view (run_end P) = abs_machine view P"
  by (simp_all add: run_end_def isRunning_def abs_machine_def)

text \<open>The machine after \<open>k\<close> steps and the cycles of these steps.\<close>

definition machine_at :: "nat \<Rightarrow> machine \<Rightarrow> machine" where
  "machine_at k s = ((snd \<circ> machine_step) ^^ k) s"

definition cycles_to :: "nat \<Rightarrow> machine \<Rightarrow> int" where
  "cycles_to k s = (\<Sum>j < k. fst (machine_step (machine_at j s)))"

lemma machine_at_0 [simp]: "machine_at 0 s = s"
  and machine_at_Suc: "machine_at (Suc k) s = snd (machine_step (machine_at k s))"
  by (simp_all add: machine_at_def)

section \<open>The contract of a watching callback\<close>

locale watching_callback = ram_bus B view inv
  for B :: "'b Bus" and view :: "'b \<Rightarrow> uint16 \<Rightarrow> uint8" and inv :: "'b \<Rightarrow> bool" +
  fixes E :: "('b, 'k) Env"
    and watch :: "('b, 'k) Processor \<Rightarrow> bool"
  assumes bus_of: "v_bus E = B"
    and cb_machine: "abs_machine view (call_back (p_instr_callback E) P) = abs_machine view P"
    and cb_inv: "inv (p_bus P) \<Longrightarrow> inv (p_bus (call_back (p_instr_callback E) P))"
    and cb_clock: "p_clock (call_back (p_instr_callback E) P) = p_clock P"
    and cb_running: "m_running (call_back (p_instr_callback E) P) = m_running P"
    and cb_stopping: "m_stopping (call_back (p_instr_callback E) P) \<longleftrightarrow> m_stopping P \<or> watch P"
begin

lemma step_state:
  assumes "inv (p_bus P)"
  shows "abs_machine view (step E P) = snd (machine_step (abs_machine view P))"
    and "inv (p_bus (step E P))"
    and "p_clock (step E P) = clk_waitCycles (v_clock E) (fst (machine_step (abs_machine view P))) (p_clock P)"
    and "m_running (step E P) = m_running P"
    and "m_stopping (step E P) \<longleftrightarrow> m_stopping P \<or> watch (step_core E P)"
  using step_core_refines [OF bus_of assms]
  by (simp_all add: step_result_def step_def cb_machine cb_inv cb_clock cb_running cb_stopping)

lemma steps_state:
  assumes "inv (p_bus P)"
  defines "S \<equiv> \<lambda>k. (step E ^^ k) P"
  shows "abs_machine view (S k) = machine_at k (abs_machine view P)"
    and "inv (p_bus (S k))"
    and "m_running (S k) = m_running P"
    and "m_stopping (S k) \<longleftrightarrow> m_stopping P \<or> (\<exists>j < k. watch (step_core E (S j)))"
    and "counting_clock (v_clock E) \<Longrightarrow> clk_cycles (v_clock E) (p_clock (S k)) =
      clk_cycles (v_clock E) (p_clock P) + of_int (cycles_to k (abs_machine view P))"
proof -
  have S: "S (Suc j) = step E (S j)" for j by (simp add: S_def)
  have ind: "abs_machine view (S k) = machine_at k (abs_machine view P) \<and> inv (p_bus (S k)) \<and>
    m_running (S k) = m_running P \<and>
    (m_stopping (S k) \<longleftrightarrow> m_stopping P \<or> (\<exists>j < k. watch (step_core E (S j))))" for k
  proof (induction k)
    case 0
    then show ?case using assms(1) by (simp add: S_def)
  next
    case (Suc k)
    then show ?case
      using step_state [of "S k"] by (auto simp: S machine_at_Suc less_Suc_eq)
  qed
  then show "abs_machine view (S k) = machine_at k (abs_machine view P)" "inv (p_bus (S k))"
    "m_running (S k) = m_running P"
    "m_stopping (S k) \<longleftrightarrow> m_stopping P \<or> (\<exists>j < k. watch (step_core E (S j)))"
    by blast+
  show "clk_cycles (v_clock E) (p_clock (S k)) =
      clk_cycles (v_clock E) (p_clock P) + of_int (cycles_to k (abs_machine view P))"
    if K: "counting_clock (v_clock E)"
  proof (induction k)
    case 0
    then show ?case by (simp add: S_def cycles_to_def)
  next
    case (Suc k)
    then show ?case
      using ind [of k] step_state(3) [of "S k"] by (simp add: S cycles_to_def counting_clock.wait_law [OF K])
  qed
qed

text \<open>
  A run returns if and only if some step ends in a state that makes the callback pause; it
  stops right after the first such step.
\<close>

lemma run_eq:
  assumes "inv (p_bus P)"
  defines "S \<equiv> \<lambda>k. (step E ^^ k) (run_start E P)"
  shows "run E P = (if \<exists>k. watch (step_core E (S k))
    then Some (run_end (S (Suc (LEAST k. watch (step_core E (S k)))))) else None)"
proof -
  have P: "inv (p_bus (run_start E P))" using assms(1) by simp
  have cond: "run_cond (S k) \<longleftrightarrow> \<not> (\<exists>j < k. watch (step_core E (S j)))" for k
    using steps_state(3,4) [OF P, of k] by (simp add: run_cond_def S_def)
  show ?thesis
  proof (cases "\<exists>k. watch (step_core E (S k))")
    case True
    define n where "n = (LEAST k. watch (step_core E (S k)))"
    have n: "watch (step_core E (S n))"
      unfolding n_def using True by (rule LeastI_ex)
    have before: "\<not> watch (step_core E (S j))" if "j < n" for j
      using not_less_Least that unfolding n_def by blast
    have stop: "\<not> run_cond (S (Suc n))" using n by (auto simp: cond)
    have go: "run_cond (S k)" if "k \<le> n" for k using that before by (auto simp: cond)
    have "(LEAST k. \<not> run_cond (S k)) = Suc n"
      by (rule Least_equality) (use stop go in \<open>auto simp: not_less_eq_eq [symmetric] intro: ccontr\<close>)
    moreover have "\<exists>k. \<not> run_cond (S k)" using stop by blast
    ultimately have "while_option run_cond (step E) (run_start E P) = Some (S (Suc n))"
      unfolding while_option_def S_def by simp
    with True show ?thesis by (simp add: run_def n_def)
  next
    case False
    then have "\<not> (\<exists>k. \<not> run_cond (S k))" by (simp add: cond)
    then have "while_option run_cond (step E) (run_start E P) = None"
      unfolding while_option_def S_def by simp
    with False show ?thesis by (simp add: run_def)
  qed
qed

lemma run_state:
  assumes "inv (p_bus P)"
  defines "S \<equiv> \<lambda>k. (step E ^^ k) (run_start E P)"
  shows "abs_machine view (step_core E (S k)) = machine_at (Suc k) (abs_machine view P)"
    and "abs_machine view (run_end (S k)) = machine_at k (abs_machine view P)"
    and "counting_clock (v_clock E) \<Longrightarrow> clk_cycles (v_clock E) (p_clock (run_end (S k))) =
      clk_cycles (v_clock E) (p_clock P) + of_int (cycles_to k (abs_machine view P))"
proof -
  have P: "inv (p_bus (run_start E P))" using assms(1) by simp
  note st = steps_state [OF P, of k]
  show "abs_machine view (step_core E (S k)) = machine_at (Suc k) (abs_machine view P)"
    using step_core_refines [OF bus_of st(2)] st(1) by (simp add: step_result_def machine_at_Suc S_def)
  show "abs_machine view (run_end (S k)) = machine_at k (abs_machine view P)"
    using st(1) by (simp add: S_def)
  show "clk_cycles (v_clock E) (p_clock (run_end (S k))) =
      clk_cycles (v_clock E) (p_clock P) + of_int (cycles_to k (abs_machine view P))"
    if K: "counting_clock (v_clock E)"
    using st(5) [OF K] counting_clock.begin_law [OF K] by (simp add: S_def)
qed

end

section \<open>Callbacks that pause\<close>

text \<open>No callback is a callback that never pauses.\<close>

lemma watching_none:
  assumes "ram_bus B view ok" and "v_bus E = B" and "p_instr_callback E = None"
  shows "watching_callback B view ok E (\<lambda>_. False)"
  using assms by (simp add: watching_callback_def watching_callback_axioms_def call_back_def)

text \<open>A callback that looks at the machine and pauses the processor when \<open>stop\<close> holds.\<close>

definition pausing_callback :: "('b \<Rightarrow> mem) \<Rightarrow> (machine \<Rightarrow> bool) \<Rightarrow> ('b, 'k) InstructionCallBackType" where
  "pausing_callback view stop = Some (\<lambda>P. if stop (abs_machine view P) then pause P else P)"

lemma pause_frame [simp]:
  "abs_machine view (pause P) = abs_machine view P" "p_bus (pause P) = p_bus P"
  "p_clock (pause P) = p_clock P" "m_running (pause P) = m_running P" "m_stopping (pause P)"
  "p_regs (pause P) = p_regs P"
  by (simp_all add: pause_def abs_machine_def)

lemma watching_pausing:
  assumes "ram_bus B view ok" and "v_bus E = B" and "p_instr_callback E = pausing_callback view stop"
  shows "watching_callback B view ok E (\<lambda>P. stop (abs_machine view P))"
  using assms by (auto simp: watching_callback_def watching_callback_axioms_def call_back_def pausing_callback_def)

section \<open>When a run returns\<close>

text \<open>
  C4: \<open>run\<close> with an instruction callback that pauses the processor when the machine satisfies \<open>stop\<close>
  returns if and only if the abstract machine, stepped from the present state, satisfies \<open>stop\<close> after one step
  or more. It returns right after the first such step, in that machine state, no longer
  running, with exactly the cycles of these steps added to the clock. A \<open>stop\<close> that holds already when \<open>run\<close>
  is called does not count.
\<close>

theorem run_returns_iff_stop_reached:
  assumes "ram_bus (v_bus E) view ok" and "ok (p_bus P)" and "counting_clock (v_clock E)"
    and "p_instr_callback E = pausing_callback view stop"
  shows "if \<exists>k. stop (machine_at (Suc k) (abs_machine view P))
    then \<exists>Q n. run E P = Some Q \<and> n = (LEAST k. stop (machine_at (Suc k) (abs_machine view P))) \<and>
      abs_machine view Q = machine_at (Suc n) (abs_machine view P) \<and> \<not> isRunning Q \<and>
      clk_cycles (v_clock E) (p_clock Q) =
        clk_cycles (v_clock E) (p_clock P) + of_int (cycles_to (Suc n) (abs_machine view P))
    else run E P = None"
proof -
  let ?s = "abs_machine view P" and ?S = "\<lambda>k. (step E ^^ k) (run_start E P)"
  note W = watching_pausing [OF assms(1) refl assms(4)]
  note st = watching_callback.run_state [OF W assms(2)]
  have eq: "run E P = (if \<exists>k. stop (machine_at (Suc k) ?s)
      then Some (run_end (?S (Suc (LEAST k. stop (machine_at (Suc k) ?s))))) else None)"
    using watching_callback.run_eq [OF W assms(2)] by (simp only: st(1))
  show ?thesis
    using st(2) st(3) [OF assms(3)] by (simp add: eq del: funpow.simps)
qed

text \<open>The array system with such a callback, and one whose program jumps to itself.\<close>

definition paused_system :: "(machine \<Rightarrow> bool) \<Rightarrow> (mem, uint64) Env" where
  "paused_system stop = setInstructionCallback (pausing_callback (\<lambda>m. m) stop) plain_system"

lemma paused_system_select [simp]:
  "v_bus (paused_system stop) = array_Bus" "v_clock (paused_system stop) = default_clock"
  "p_instr_callback (paused_system stop) = pausing_callback (\<lambda>m. m) stop"
  by (simp_all add: paused_system_def setInstructionCallback_def plain_system_def)

interpretation plain_run: watching_callback array_Bus "\<lambda>m. m" "\<lambda>_. True" plain_system "\<lambda>_. False"
  by (rule watching_none) (simp_all add: plain_system_def array.ram_bus_axioms)

interpretation paused_run: watching_callback array_Bus "\<lambda>m. m" "\<lambda>_. True" "paused_system stop"
    "\<lambda>P. stop (abs_machine (\<lambda>m. m) P)" for stop
  by (rule watching_pausing) (simp_all add: array.ram_bus_axioms)

lemma run_returns_iff_stop_reached_witness:
  "(\<exists>Q. run (paused_system (\<lambda>s. True)) (booted (\<lambda>_. 0xEA) 0x0200) = Some Q \<and> \<not> isRunning Q)
    \<and> run (paused_system (\<lambda>s. False)) (booted (\<lambda>_. 0xEA) 0x0200) = None"
proof -
  have c: "counting_clock (v_clock (paused_system stop))" for stop
    by (simp add: default.counting_clock_axioms)
  have r: "ram_bus (v_bus (paused_system stop)) (\<lambda>m. m) (\<lambda>_. True)" for stop
    by (simp add: array.ram_bus_axioms)
  show ?thesis
    using run_returns_iff_stop_reached [OF r TrueI c paused_system_select(3),
        of "\<lambda>_. True" "booted (\<lambda>_. 0xEA) 0x0200"]
      run_returns_iff_stop_reached [OF r TrueI c paused_system_select(3),
        of "\<lambda>_. False" "booted (\<lambda>_. 0xEA) 0x0200"]
    by auto
qed

section \<open>Without a callback\<close>

lemma run_cond_forever:
  assumes "p_instr_callback E = None"
  shows "run_cond ((step E ^^ k) (run_start E P))"
  by (induction k) (simp_all add: run_cond_def step_def call_back_def assms)

text \<open>
  Without an instruction callback \<open>run\<close> never returns by itself, on any bus and for any
  program, also after a KIL; and \<open>pause\<close> before \<open>run\<close> is lost, because \<open>run\<close> begins by clearing the
  request: with any callback a run after \<open>pause\<close> is the run without it. Only a pause during the loop
  ends it.
\<close>

theorem run_ends_by_pause_only:
  "(p_instr_callback E = None \<longrightarrow> run E P = None) \<and> run E (pause P) = run E P \<and>
   resume E (pause P) = run E P"
proof (intro conjI impI)
  assume "p_instr_callback E = None"
  then show "run E P = None"
    by (simp add: run_def while_option_def run_cond_forever)
qed (simp_all add: run_def resume_def run_start_def pause_def)

lemma run_ends_by_pause_only_witness:
  "run plain_system (pause (booted (\<lambda>_. 0xEA) 0x0200)) = None"
proof -
  have "p_instr_callback plain_system = None" by (simp add: plain_system_def)
  then show ?thesis using run_ends_by_pause_only [of plain_system "booted (\<lambda>_. 0xEA) 0x0200"] by simp
qed

section \<open>Breakpoints\<close>

lemma truncate_select [simp]:
  "v_bus (Env.truncate E) = v_bus E" "v_clock (Env.truncate E) = v_clock E"
  "p_instr_callback (Env.truncate E) = p_instr_callback E"
  by (simp_all add: Env.truncate_def)

lemma abs_machine_pc: "reg_pc (p_regs P) = cPC (mc_cpu (abs_machine view P))"
  by (simp add: abs_machine_def)

definition DebugProcessor_env :: "('b, 'k) Env \<Rightarrow> uint16 set \<Rightarrow> ('b, 'k) DebugEnv" where
  "DebugProcessor_env E breakpoints = Env.extend E
     (DebugEnv.fields breakpoints None)"

text \<open>
  With a watching callback the debugging run ends after the first step that comes to a breakpoint or makes the
  callback pause, and calls the breakpoint callback in the first case only.
\<close>

lemma debug_run_eq:
  fixes P :: "('b, 'k) Processor" and E :: "('b, 'k) DebugEnv"
  assumes W: "watching_callback B view ok (Env.truncate E) watch" and P: "ok (p_bus P)"
  defines "S \<equiv> \<lambda>k. (step (Env.truncate E) ^^ k) (run_start (Env.truncate E) P)"
  defines "ends \<equiv> \<lambda>k. at_breakpoint E (S (Suc k)) \<or> watch (step_core (Env.truncate E) (S k))"
  shows "DebugProcessor_run E P = (if \<exists>k. ends k
    then let Q = S (Suc (LEAST k. ends k))
      in Some (run_end (if at_breakpoint E Q then call_back (p_breakp_callback E) Q else Q))
    else None)"
proof -
  let ?E = "Env.truncate E"
  let ?c = "\<lambda>k. \<not> at_breakpoint E (S (Suc k)) \<and> run_cond (S (Suc k))"
  have start: "ok (p_bus (run_start ?E P))" using P by simp
  have cond: "run_cond (S k) \<longleftrightarrow> \<not> (\<exists>j < k. watch (step_core ?E (S j)))" for k
    using watching_callback.steps_state(3,4) [OF W start, of k] by (simp add: run_cond_def S_def)
  have S: "(step ?E ^^ k) (S 1) = S (Suc k)" for k
    by (simp add: S_def funpow_Suc_right del: funpow.simps(2))
  have stop: "\<not> ?c k \<longleftrightarrow> at_breakpoint E (S (Suc k)) \<or> (\<exists>j \<le> k. watch (step_core ?E (S j)))" for k
    by (simp only: cond less_Suc_eq_le) blast
  have ex: "(\<exists>k. \<not> ?c k) \<longleftrightarrow> (\<exists>k. ends k)"
    unfolding stop ends_def by blast
  have least: "(LEAST k. \<not> ?c k) = (LEAST k. ends k)" if "\<exists>k. ends k"
  proof (rule Least_equality)
    let ?n = "LEAST k. ends k"
    have "ends ?n" using that by (rule LeastI_ex)
    then show "\<not> ?c ?n" unfolding stop ends_def by blast
    show "?n \<le> k" if "\<not> ?c k" for k
    proof -
      have "ends k \<or> (\<exists>j \<le> k. ends j)" using that stop [of k] by (auto simp: ends_def)
      then have "\<exists>j \<le> k. ends j" by blast
      then show ?thesis by (blast intro: Least_le le_trans)
    qed
  qed
  have "while_option (\<lambda>P. \<not> at_breakpoint E P \<and> run_cond P) (step ?E) (S 1)
      = (if \<exists>k. ends k then Some (S (Suc (LEAST k. ends k))) else None)"
    unfolding while_option_def S ex using least by simp
  then show ?thesis
    by (simp add: DebugProcessor_run_def Let_def S_def)
qed

text \<open>
  C8: \<open>DebugProcessor::run\<close> without an instruction callback returns if and only if execution comes to a
  breakpoint after one step or more; it stops at the first one, with the program counter on it, having
  called the breakpoint callback once in that state. Because it steps before it looks, a run that
  starts on a breakpoint leaves it, and with an empty set of breakpoints it never returns.
\<close>

theorem debug_run_stops_at_breakpoint:
  fixes P :: "('b, 'k) Processor" and E :: "('b, 'k) DebugEnv"
  assumes "ram_bus (v_bus E) view ok" and "ok (p_bus P)" and "p_instr_callback E = None"
  shows "if \<exists>k. cPC (mc_cpu (machine_at (Suc k) (abs_machine view P))) \<in> m_breakpoints E
    then \<exists>S n. DebugProcessor_run E P = Some (run_end (call_back (p_breakp_callback E) S)) \<and>
      n = (LEAST k. cPC (mc_cpu (machine_at (Suc k) (abs_machine view P))) \<in> m_breakpoints E) \<and>
      abs_machine view S = machine_at (Suc n) (abs_machine view P) \<and> at_breakpoint E S
    else DebugProcessor_run E P = None"
proof -
  let ?E = "Env.truncate E" and ?s = "abs_machine view P"
  let ?S = "\<lambda>k. (step ?E ^^ k) (run_start ?E P)"
  define hit where "hit k \<longleftrightarrow> cPC (mc_cpu (machine_at (Suc k) ?s)) \<in> m_breakpoints E" for k
  have W: "watching_callback (v_bus E) view ok ?E (\<lambda>_. False)"
    by (rule watching_none) (simp_all add: assms)
  have machine: "abs_machine view (?S k) = machine_at k ?s" for k
    using watching_callback.run_state(2) [OF W assms(2), of k] by simp
  have bp: "at_breakpoint E (?S (Suc k)) \<longleftrightarrow> hit k" for k
    unfolding at_breakpoint_def hit_def abs_machine_pc [where view = view] machine ..
  let ?Q = "?S (Suc (LEAST k. hit k))"
  have eq: "DebugProcessor_run E P = (if \<exists>k. hit k
      then Some (run_end (if at_breakpoint E ?Q then call_back (p_breakp_callback E) ?Q else ?Q)) else None)"
    using debug_run_eq [OF W assms(2)] unfolding bp Let_def by (simp only: simp_thms)
  have "at_breakpoint E ?Q" if "\<exists>k. hit k"
    unfolding bp using that by (rule LeastI_ex)
  then show ?thesis
    using machine [of "Suc (LEAST k. hit k)"] unfolding hit_def [symmetric] eq
    by (simp del: funpow.simps) blast
qed

text \<open>The constructor that takes a list of addresses, and the set it keeps.\<close>

definition DebugProcessor_list :: "('b, 'k) Env \<Rightarrow> uint16 list \<Rightarrow> ('b, 'k) DebugEnv" where
  "DebugProcessor_list E addresses = DebugProcessor_env E (set addresses)"

definition breakpoints_of :: "('b, 'k) DebugEnv \<Rightarrow> uint16 set" where
  "breakpoints_of E = m_breakpoints E"

lemma breakpoints_edited:
  "breakpoints_of (DebugProcessor_list E addresses) = set addresses"
  "breakpoints_of (snd (addBreakpoint ad D)) = insert ad (breakpoints_of D)"
  "breakpoints_of (snd (removeBreakpoint ad D)) = breakpoints_of D - {ad}"
  "fst (addBreakpoint ad D) \<longleftrightarrow> ad \<notin> breakpoints_of D"
  "fst (removeBreakpoint ad D) \<longleftrightarrow> ad \<in> breakpoints_of D"
  "breakpoints_of (clearBreakpoints D) = {}"
  by (simp_all add: breakpoints_of_def DebugProcessor_list_def DebugProcessor_env_def Env.extend_def
      DebugEnv.fields_def addBreakpoint_def removeBreakpoint_def clearBreakpoints_def)

definition debug_system :: "uint16 set \<Rightarrow> (mem, uint64) DebugEnv" where
  "debug_system breakpoints = DebugProcessor_env plain_system breakpoints"

lemma debug_system_select [simp]:
  "v_bus (debug_system bs) = array_Bus" "p_instr_callback (debug_system bs) = None"
  "m_breakpoints (debug_system bs) = bs" "p_breakp_callback (debug_system bs) = None"
  by (simp_all add: debug_system_def DebugProcessor_env_def plain_system_def Env.extend_def
      DebugEnv.fields_def)

lemma debug_run_stops_at_breakpoint_witness:
  "DebugProcessor_run (debug_system {}) (booted (\<lambda>_. 0xEA) 0x0200) = None"
  using debug_run_stops_at_breakpoint [of "debug_system {}" "\<lambda>m. m" "\<lambda>_. True"
      "booted (\<lambda>_. 0xEA) 0x0200"]
  by (simp add: array.ram_bus_axioms)

section \<open>Stop and reset\<close>

text \<open>
  \<open>stop()\<close> returns when the processor runs on another thread: once that thread looks at its condition again
  it leaves the loop, and no further instruction is executed. \<open>reset(false)\<close>, which is stop and then start,
  so ends with the processor at rest in the reset state, 7 cycles on its clock and memory untouched,
  whether it was running or not.
\<close>

theorem stop_and_reset:
  assumes "ram_bus (v_bus E) view ok" and "ok (p_bus P)" and "counting_clock (v_clock E)"
  shows "(\<exists>Q. Emulator_stop (run_slice E) P = Some Q \<and> \<not> isRunning Q \<and>
      p_regs Q = p_regs P \<and> p_bus Q = p_bus P \<and> p_clock Q = p_clock P) \<and>
    (\<exists>R. Emulator_reset virtual_run (run_slice E) E False P = Some R \<and> \<not> isRunning R \<and>
      abs_machine view R = reset_machine (view (p_bus P)) \<and> clk_cycles (v_clock E) (p_clock R) = 7)"
proof -
  define Q where "Q = (if m_running P then run_end P else pause P)"
  have stop: "Emulator_stop (run_slice E) P = Some Q"
    by (simp add: Q_def stop_running_thread stop_idle)
  have Q: "\<not> isRunning Q" "p_regs Q = p_regs P" "p_bus Q = p_bus P" "p_clock Q = p_clock P"
    by (simp_all add: Q_def isRunning_def run_end_def)
  have "ok (p_bus Q)" using assms(2) Q(3) by simp
  from ram_bus.start_refines [OF assms(1) refl this assms(3)]
  obtain R where R: "Emulator_start virtual_run E False Q = Some R"
    "abs_machine view R = reset_machine (view (p_bus Q))"
    "clk_cycles (v_clock E) (p_clock R) = 7" "m_running R = m_running Q"
    by metis
  then have "Emulator_reset virtual_run (run_slice E) E False P = Some R"
    by (simp add: Emulator_reset_def stop)
  with stop Q R show ?thesis by (auto simp: isRunning_def)
qed

lemma stop_and_reset_witness:
  "\<exists>R. Emulator_reset Some (run_slice plain_system) plain_system False
      ((booted (\<lambda>_. 0) 0x1234)\<lparr>m_running := True\<rparr>) = Some R
    \<and> \<not> isRunning R \<and> abs_machine (\<lambda>m. m) R = reset_machine (\<lambda>_. 0)"
proof -
  have "counting_clock (v_clock plain_system)"
    by (simp add: plain_system_def default.counting_clock_axioms)
  from stop_and_reset [OF plain_system_ram TrueI this,
      of "(booted (\<lambda>_. 0) 0x1234)\<lparr>m_running := True\<rparr>" Some]
  show ?thesis by auto
qed

end
