(* ===== verification/Bus_Traffic.thy ===== *)
theory Bus_Traffic
  imports Step_Refinement
begin

text \<open>
  What the processor does to the bus, for any bus whatever its reads return: how many accesses an
  instruction makes, never more than its cycles leave room for, and the two writes of a
  read-modify-write. The bus is wrapped in \<open>Logging_Bus\<close>, and the contract of a policy (the locale
  \<open>mode_traffic\<close>) counts the accesses along the four ways an instruction uses its policy.
\<close>

section \<open>Budgets\<close>

fun read_budget :: "Params \<Rightarrow> int" where
  "read_budget Null = 0"
| "read_budget Accumulator = 0"
| "read_budget Immediate = 1"
| "read_budget Relative = 1"
| "read_budget AbsConst = 2"
| "read_budget ZeroPage = 2"
| "read_budget ZeroPageX = 3"
| "read_budget ZeroPageY = 3"
| "read_budget Absolute = 3"
| "read_budget AbsoluteX = 3"
| "read_budget AbsoluteY = 3"
| "read_budget Indirect = 3"
| "read_budget IndirectX = 4"
| "read_budget IndirectY = 4"

text \<open>The half-finished address is always read before a store or a read-modify-write.\<close>

definition store_budget :: "Params \<Rightarrow> int" where
  "store_budget M = read_budget M + (if M \<in> {AbsoluteX, AbsoluteY, IndirectY} then 1 else 0)"

definition is_memory :: "Params \<Rightarrow> bool" where
  "is_memory M \<longleftrightarrow> M \<in> {ZeroPage, ZeroPageX, ZeroPageY, Absolute, AbsoluteX, AbsoluteY,
     IndirectX, IndirectY}"

definition jump_budget :: "Params \<Rightarrow> int" where
  "jump_budget M = read_budget M + (if is_memory M \<or> M = Indirect then 1 else 0)"

fun is_read :: "access \<Rightarrow> bool" where
  "is_read (Rd ad) = True"
| "is_read (Wr ad v) = False"

text \<open>Between \<open>b\<close> and \<open>b'\<close> the bus was only read.\<close>

definition reads_since :: "'b logged \<Rightarrow> 'b logged \<Rightarrow> bool" where
  "reads_since b b' \<longleftrightarrow> (\<exists>pre. trace_of b' = trace_of b @ pre \<and> list_all is_read pre)"

abbreviation grows_by :: "'b logged \<Rightarrow> 'b logged \<Rightarrow> int \<Rightarrow> bool" where
  "grows_by b b' n \<equiv> int (accesses b') \<le> int (accesses b) + n"

section \<open>The contract of a policy on any bus\<close>

locale mode_traffic =
  fixes B :: "'b Bus" and P :: "('p, 'b logged, 'z) IParams_scheme" and M :: Params
  assumes init_traffic: "p_init P (Logging_Bus B) r b = (p1, r1, b1) \<Longrightarrow>
      grows_by b b1 (int (operand_len M))"
    and read_traffic: "p_init P (Logging_Bus B) r b = (p1, r1, b1) \<Longrightarrow>
      p_get8bit P (Logging_Bus B) r1 p1 b1 = (v, p2, b2) \<Longrightarrow>
      grows_by b b2 (read_budget M + p_extraCycles P p2)"
    and jump_traffic: "p_init P (Logging_Bus B) r b = (p1, r1, b1) \<Longrightarrow>
      p_get16bit P (Logging_Bus B) r1 p1 b1 = (u, p2, b2) \<Longrightarrow>
      grows_by b b2 (jump_budget M)"
    and store_traffic: "p_init P (Logging_Bus B) r b = (p1, r1, b1) \<Longrightarrow>
      p_dummyRead P (Logging_Bus B) r1 p1 b1 = (p2, b2) \<Longrightarrow>
      p_set8bit P (Logging_Bus B) v p2 r1 b2 = (p3, r3, b3) \<Longrightarrow>
      grows_by b b3 (store_budget M)"
    and rmw_traffic: "p_init P (Logging_Bus B) r b = (p1, r1, b1) \<Longrightarrow>
      p_dummyRead P (Logging_Bus B) r1 p1 b1 = (p2, b2) \<Longrightarrow>
      p_get8bit P (Logging_Bus B) r1 p2 b2 = (v, p3, b3) \<Longrightarrow>
      p_set8bit P (Logging_Bus B) v p3 r2 b3 = (p4, r4, b4) \<Longrightarrow>
      p_set8bit P (Logging_Bus B) w p4 r4 b4 = (p5, r5, b5) \<Longrightarrow>
      grows_by b b5 (store_budget M + (if is_memory M then 2 else 0)) \<and>
      (is_memory M \<and> reg_x r2 = reg_x r1 \<and> reg_y r2 = reg_y r1 \<longrightarrow>
        reads_since b b3 \<and> accesses b < accesses b3 \<and> (\<exists>ea. last (trace_of b3) = Rd ea \<and>
          trace_of b5 = trace_of b3 @ [Wr ea v, Wr ea w]))"
    and init_regs: "p_init P (Logging_Bus B) r b = (p1, r1, b1) \<Longrightarrow>
      r1 = r\<lparr>reg_pc := reg_pc r + of_nat (operand_len M)\<rparr>"
    and extra_bound: "0 \<le> p_extraCycles P p"
    and read_extra: "p_init P (Logging_Bus B) r b = (p1, r1, b1) \<Longrightarrow>
      p_get8bit P (Logging_Bus B) r1 p1 b1 = (v, p2, b2) \<Longrightarrow>
      p_extraCycles P p2 \<le> store_budget M - read_budget M"
begin

lemma rmwStore_traffic:
  assumes "p_init P (Logging_Bus B) r b = (p1, r1, b1)"
    and "p_dummyRead P (Logging_Bus B) r1 p1 b1 = (p2, b2)"
    and "p_get8bit P (Logging_Bus B) r1 p2 b2 = (v, p3, b3)"
    and "rmwStore P p3 (Logging_Bus B) r2 b3 v w = (p5, r5, b5)"
  shows "grows_by b b5 (store_budget M + (if is_memory M then 2 else 0))"
    and "is_memory M \<Longrightarrow> reg_x r2 = reg_x r1 \<Longrightarrow> reg_y r2 = reg_y r1 \<Longrightarrow>
        reads_since b b3 \<and> accesses b < accesses b3 \<and> (\<exists>ea. last (trace_of b3) = Rd ea \<and>
          trace_of b5 = trace_of b3 @ [Wr ea v, Wr ea w])"
proof -
  obtain p4 r4 b4 where first: "p_set8bit P (Logging_Bus B) v p3 r2 b3 = (p4, r4, b4)"
    by (cases "p_set8bit P (Logging_Bus B) v p3 r2 b3") auto
  then have "p_set8bit P (Logging_Bus B) w p4 r4 b4 = (p5, r5, b5)"
    using assms(4) by (simp add: rmwStore_def)
  from rmw_traffic [OF assms(1-3) first this]
  show "grows_by b b5 (store_budget M + (if is_memory M then 2 else 0))"
    and "is_memory M \<Longrightarrow> reg_x r2 = reg_x r1 \<Longrightarrow> reg_y r2 = reg_y r1 \<Longrightarrow>
        reads_since b b3 \<and> accesses b < accesses b3 \<and> (\<exists>ea. last (trace_of b3) = Rd ea \<and>
          trace_of b5 = trace_of b3 @ [Wr ea v, Wr ea w])"
    by blast+
qed

end

locale indexed_traffic = mode_traffic B P M
  for B :: "'b Bus" and P :: "('p, 'b logged, 'z) IndexedParams_scheme" and M :: Params +
  assumes base_traffic: "p_init P (Logging_Bus B) r b = (p1, r1, b1) \<Longrightarrow>
      p_base P (Logging_Bus B) r2 p1 b1 = (u, p2, b2) \<Longrightarrow>
      p_set8bit P (Logging_Bus B) v p2 r2 b2 = (p3, r3, b3) \<Longrightarrow>
      grows_by b b3 (read_budget M)"

section \<open>Every policy fulfils it\<close>

lemma logged_read:
  "accesses (snd (bus_read (Logging_Bus B) ad b)) = accesses b + 1"
  "accesses (bus_write (Logging_Bus B) ad v b) = accesses b + 1"
  by (simp_all add: accesses_def)

lemma logged_READ16 [simp]:
  "accesses (snd (READ16 (Logging_Bus B) ad b)) = accesses b + 2"
  "accesses (snd (ZP_READ16 (Logging_Bus B) z b)) = accesses b + 2"
  by (simp_all add: READ16_def ZP_READ16_def case_prod_beta logged_read)

lemma logged_READ16_trace [simp]:
  "trace_of (snd (READ16 (Logging_Bus B) ad b)) = trace_of b @ [Rd ad, Rd (ad + 1)]"
  "trace_of (snd (ZP_READ16 (Logging_Bus B) z b)) = trace_of b @ [Rd (ucast z), Rd (ucast (z + 1))]"
  by (simp_all add: READ16_def ZP_READ16_def case_prod_beta)

lemma reads_since_refl [simp]: "reads_since b b"
  by (simp add: reads_since_def)

lemma reads_since_read [simp]:
  assumes "reads_since b b'"
  shows "reads_since b (snd (bus_read (Logging_Bus B) ad b'))"
    and "reads_since b (snd (READ16 (Logging_Bus B) ad b'))"
    and "reads_since b (snd (ZP_READ16 (Logging_Bus B) z b'))"
  using assms by (auto simp: reads_since_def)

lemmas traffic_defs = mode_defs logged_read store_budget_def jump_budget_def is_memory_def

interpretation t_null: mode_traffic B NullParams Null for B
  by unfold_locales (auto simp: NullParams_def traffic_defs)

interpretation t_acc: mode_traffic B AccumulatorParams Accumulator for B
  by unfold_locales (auto simp: AccumulatorParams_def traffic_defs  split: if_splits)

interpretation t_imm: mode_traffic B ImmediateParams Immediate for B
  by unfold_locales (auto simp: ImmediateParams_def traffic_defs  split: if_splits)

interpretation t_rel: mode_traffic B RelativeParams Relative for B
  by unfold_locales (auto simp: RelativeParams_def traffic_defs  split: if_splits)

interpretation t_abc: mode_traffic B AbsConstParams AbsConst for B
  by unfold_locales (auto simp: AbsConstParams_def traffic_defs  split: if_splits)

interpretation t_zp: mode_traffic B ZeroPageParams ZeroPage for B
  by unfold_locales (auto simp: ZeroPageParams_def traffic_defs  split: if_splits)

interpretation t_zpx: mode_traffic B ZeroPageXParams ZeroPageX for B
  by unfold_locales (auto simp: ZeroPageXParams_def traffic_defs zp_dummyRead_def split: if_splits)

interpretation t_zpy: mode_traffic B ZeroPageYParams ZeroPageY for B
  by unfold_locales (auto simp: ZeroPageYParams_def traffic_defs zp_dummyRead_def split: if_splits)

interpretation t_abs: mode_traffic B AbsoluteParams Absolute for B
  by unfold_locales (auto simp: AbsoluteParams_def traffic_defs  split: if_splits)

interpretation t_ind: mode_traffic B IndirectParams Indirect for B
  by unfold_locales (auto simp: IndirectParams_def traffic_defs  split: if_splits)

interpretation t_abx: indexed_traffic B AbsoluteXParams AbsoluteX for B
  by unfold_locales (auto simp: AbsoluteXParams_def AbsoluteX_addr_def AbsoluteX_dummyRead_def
      traffic_defs split: if_splits)

interpretation t_aby: indexed_traffic B AbsoluteYParams AbsoluteY for B
  by unfold_locales (auto simp: AbsoluteYParams_def AbsoluteY_addr_def AbsoluteY_dummyRead_def
      traffic_defs split: if_splits)

interpretation t_inx: mode_traffic B IndirectXParams IndirectX for B
  by unfold_locales (auto simp: IndirectXParams_def IndirectX_init_def IndirectX_addr_def
      IndirectXState.defs traffic_defs split: if_splits)

text \<open>The operations of \<open>(zp),Y\<close> once its pointer is resolved, and before.\<close>

lemma IndirectY_resolved [simp]:
  "m_baseResolved p \<Longrightarrow> IndirectY_base B r p b = (m_base p, p, b)"
  "m_baseResolved p \<Longrightarrow> IndirectY_addr B r p b
    = (m_base p + ucast (reg_y r), p\<lparr>m_crossed := crosses (m_base p + ucast (reg_y r)) (m_base p)\<rparr>, b)"
  "m_dummyDone p \<Longrightarrow> IndirectY_dummyRead B r p b = (p, b)"
  by (simp_all add: IndirectY_base_def IndirectY_addr_def IndirectY_dummyRead_def Let_def)

lemma IndirectY_fresh:
  "\<not> m_baseResolved p \<Longrightarrow> IndirectY_base B r p b
    = (let w = ZP_READ16 B (data8 p) b in (fst w, p\<lparr>m_base := fst w, m_baseResolved := True\<rparr>, snd w))"
  by (simp add: IndirectY_base_def Let_def case_prod_beta)

lemma IndirectY_init_eq: "IndirectY_init B r b
    = (let w = bus_read B (reg_pc r) b
       in (\<lparr>m_crossed = False, m_dummyDone = False, data8 = fst w, m_baseResolved = False, m_base = 0\<rparr>,
           r\<lparr>reg_pc := reg_pc r + 1\<rparr>, snd w))"
  by (simp add: IndirectY_init_def mode_defs IndirectYState.defs)

lemma IndirectY_dummy_fresh:
  "\<not> m_dummyDone p \<Longrightarrow> \<not> m_baseResolved p \<Longrightarrow> IndirectY_dummyRead B r p b
    = (let w = ZP_READ16 B (data8 p) b
       in (p\<lparr>m_dummyDone := True, m_base := fst w, m_baseResolved := True\<rparr>,
           snd (bus_read B (unfixed (fst w) (reg_y r)) (snd w))))"
  by (simp add: IndirectY_dummyRead_def IndirectY_fresh Let_def case_prod_beta)

lemma IndirectY_dummy_resolved:
  "\<not> m_dummyDone p \<Longrightarrow> m_baseResolved p \<Longrightarrow> IndirectY_dummyRead B r p b
    = (p\<lparr>m_dummyDone := True\<rparr>, snd (bus_read B (unfixed (m_base p) (reg_y r)) b))"
  by (simp add: IndirectY_dummyRead_def Let_def case_prod_beta)

lemmas iny_defs = IndirectYParams_def IndirectY_init_eq IndirectY_fresh IndirectY_dummy_fresh
  IndirectY_dummy_resolved IndirectY_addr_def Let_def case_prod_beta traffic_defs

interpretation t_iny: indexed_traffic B IndirectYParams IndirectY for B
  by unfold_locales (auto simp: iny_defs split: if_splits)

section \<open>Instructions\<close>

text \<open>
  How an instruction uses the bus: \<open>Silent n\<close> never asks its policy and makes \<open>n\<close> stack accesses,
  \<open>Jumps n\<close> makes \<open>n\<close> beside resolving its target. \<open>Reads\<close> charge the page-crossing cycle,
  \<open>Fixed\<close> reads do not.
\<close>

datatype traffic_kind = Silent int | Fetches | Reads | Fixed | Jumps int | Stores | Modifies

definition kind_of :: "Impl \<Rightarrow> traffic_kind" where
  "kind_of I =
     (if I \<in> set [PHA_Impl, PHP_Impl, PLA_Impl, PLP_Impl] then Silent 1
      else if I = RTS_Impl then Silent 2
      else if I = RTI_Impl then Silent 3
      else if I = BRK_Impl then Silent 5
      else if implied I then Silent 0
      else if I = NOP_Impl then Fetches
      else if I = JMP_Impl then Jumps 0
      else if I = JSR_Impl then Jumps 2
      else if I \<in> set [STA_Impl, STX_Impl, STY_Impl, SAX_Impl] then Stores
      else if I \<in> set [ASL_Impl, LSR_Impl, ROL_Impl, ROR_Impl, INC_Impl, DEC_Impl, DCP_Impl, ISC_Impl,
          SLO_Impl, RLA_Impl, SRE_Impl, RRA_Impl] then Modifies
      else if pays_crossing I then Reads
      else Fixed)"

fun budget :: "traffic_kind \<Rightarrow> Params \<Rightarrow> int" where
  "budget (Silent n) M = n"
| "budget Fetches M = int (operand_len M)"
| "budget Reads M = read_budget M"
| "budget Fixed M = store_budget M"
| "budget (Jumps n) M = jump_budget M + n"
| "budget Stores M = store_budget M"
| "budget Modifies M = store_budget M + (if is_memory M then 2 else 0)"

text \<open>A result that costs \<open>k\<close> cycles of which \<open>n\<close> are the base count, within a budget \<open>q\<close>.\<close>

definition within :: "int \<Rightarrow> 'b logged \<Rightarrow> int \<times> Registers \<times> 'b logged \<Rightarrow> int \<Rightarrow> bool" where
  "within n b res q \<longleftrightarrow>
     (case res of (k, r', b') \<Rightarrow> n \<le> k \<and> int (accesses b') \<le> int (accesses b) + q + (k - n))"

lemma stack_traffic [simp]:
  "accesses (snd (push8 (Logging_Bus B) v r b)) = accesses b + 1"
  "accesses (snd (push16 (Logging_Bus B) w r b)) = accesses b + 2"
  "accesses (snd (snd (pop8 (Logging_Bus B) r b))) = accesses b + 1"
  "accesses (snd (snd (pop16 (Logging_Bus B) r b))) = accesses b + 2"
  by (simp_all add: push8_def push16_def pop8_def pop16_def Let_def case_prod_beta logged_read)

lemmas within_defs = within_def Let_def case_prod_beta logged_read

definition modified :: "Impl \<Rightarrow> bool \<Rightarrow> uint8 \<Rightarrow> uint8" where
  "modified I cin v =
     (if I = ASL_Impl \<or> I = SLO_Impl then asl_val v
      else if I = LSR_Impl \<or> I = SRE_Impl then lsr_val v
      else if I = ROL_Impl \<or> I = RLA_Impl then rol_val cin v
      else if I = ROR_Impl \<or> I = RRA_Impl then ror_val cin v
      else if I = INC_Impl \<or> I = ISC_Impl then v + 1
      else v - 1)"

text \<open>The accesses of a read-modify-write: reads, then the operand, its old value, its new value.\<close>

definition modifies :: "Impl \<Rightarrow> bool \<Rightarrow> 'b logged \<Rightarrow> 'b logged \<Rightarrow> bool" where
  "modifies I cin b b' \<longleftrightarrow> (\<exists>pre ea v. list_all is_read pre \<and>
     trace_of b' = trace_of b @ pre @ [Rd ea, Wr ea v, Wr ea (modified I cin v)])"

context mode_traffic
begin

abbreviation "L \<equiv> Logging_Bus B"

lemma silent_0:
  shows "within n b (CLC_execute n L r b) 0"
    and "within n b (CLD_execute n L r b) 0"
    and "within n b (CLI_execute n L r b) 0"
    and "within n b (CLV_execute n L r b) 0"
    and "within n b (SEC_execute n L r b) 0"
    and "within n b (SED_execute n L r b) 0"
    and "within n b (SEI_execute n L r b) 0"
    and "within n b (DEX_execute n L r b) 0"
    and "within n b (DEY_execute n L r b) 0"
    and "within n b (INX_execute n L r b) 0"
    and "within n b (INY_execute n L r b) 0"
    and "within n b (TAX_execute n L r b) 0"
    and "within n b (TAY_execute n L r b) 0"
    and "within n b (TSX_execute n L r b) 0"
    and "within n b (TXA_execute n L r b) 0"
    and "within n b (TXS_execute n L r b) 0"
    and "within n b (TYA_execute n L r b) 0"
    and "within n b (KIL_execute n L r b) 0"
  by (simp_all add: within_defs CLC_execute_def CLD_execute_def CLI_execute_def CLV_execute_def SEC_execute_def
    SED_execute_def SEI_execute_def DEX_execute_def DEY_execute_def INX_execute_def
    INY_execute_def TAX_execute_def TAY_execute_def TSX_execute_def TXA_execute_def
    TXS_execute_def TYA_execute_def KIL_execute_def)

lemma silent_1:
  shows "within n b (PHA_execute n L r b) 1"
    and "within n b (PHP_execute n L r b) 1"
    and "within n b (PLA_execute n L r b) 1"
    and "within n b (PLP_execute n L r b) 1"
  by (simp_all add: within_defs PHA_execute_def PHP_execute_def PLA_execute_def PLP_execute_def)

lemma silent_2:
  shows "within n b (RTS_execute n L r b) 2"
  by (simp_all add: within_defs RTS_execute_def)

lemma silent_3:
  shows "within n b (RTI_execute n L r b) 3"
  by (simp_all add: within_defs RTI_execute_def)

lemma silent_5:
  shows "within n b (BRK_execute n L r b) 5"
  by (simp_all add: within_defs BRK_execute_def)

lemmas silent_instructions = silent_0 silent_1 silent_2 silent_3 silent_5

lemma fetchE:
  obtains p1 r1 b1 where "p_init P L r b = (p1, r1, b1)" "grows_by b b1 (int (operand_len M))"
  using init_traffic [of r b] by (cases "p_init P L r b") auto

lemma readE:
  obtains p1 r1 b1 v p2 b2 where "p_init P L r b = (p1, r1, b1)" "p_get8bit P L r1 p1 b1 = (v, p2, b2)"
    "grows_by b b2 (read_budget M + p_extraCycles P p2)" "0 \<le> p_extraCycles P p2"
    "grows_by b b2 (store_budget M)"
proof -
  obtain p1 r1 b1 where i: "p_init P L r b = (p1, r1, b1)"
    by (cases "p_init P L r b") auto
  obtain v p2 b2 where g: "p_get8bit P L r1 p1 b1 = (v, p2, b2)"
    by (cases "p_get8bit P L r1 p1 b1") auto
  show thesis
    using that [OF i g] read_traffic [OF i g] read_extra [OF i g] extra_bound [of p2] by linarith
qed

lemma jumpE:
  obtains p1 r1 b1 u p2 b2 where "p_init P L r b = (p1, r1, b1)" "p_get16bit P L r1 p1 b1 = (u, p2, b2)"
    "grows_by b b2 (jump_budget M)"
proof -
  obtain p1 r1 b1 where i: "p_init P L r b = (p1, r1, b1)"
    by (cases "p_init P L r b") auto
  obtain u p2 b2 where g: "p_get16bit P L r1 p1 b1 = (u, p2, b2)"
    by (cases "p_get16bit P L r1 p1 b1") auto
  show thesis
    using that [OF i g] jump_traffic [OF i g] by blast
qed

lemma storeE:
  obtains p1 r1 b1 p2 b2 where "p_init P L r b = (p1, r1, b1)" "p_dummyRead P L r1 p1 b1 = (p2, b2)"
    "\<And>v. grows_by b (snd (snd (p_set8bit P L v p2 r1 b2))) (store_budget M)"
proof -
  obtain p1 r1 b1 where i: "p_init P L r b = (p1, r1, b1)"
    by (cases "p_init P L r b") auto
  obtain p2 b2 where d: "p_dummyRead P L r1 p1 b1 = (p2, b2)"
    by (cases "p_dummyRead P L r1 p1 b1") auto
  have "grows_by b (snd (snd (p_set8bit P L v p2 r1 b2))) (store_budget M)" for v
    by (rule store_traffic [OF i d, of v "fst (p_set8bit P L v p2 r1 b2)"
          "fst (snd (p_set8bit P L v p2 r1 b2))"]) simp
  then show thesis
    using that [OF i d] by blast
qed

lemma modifyE:
  obtains p1 r1 b1 p2 b2 v p3 b3 where "p_init P L r b = (p1, r1, b1)"
    "p_dummyRead P L r1 p1 b1 = (p2, b2)" "p_get8bit P L r1 p2 b2 = (v, p3, b3)"
    "\<And>r2 w. grows_by b (snd (snd (rmwStore P p3 L r2 b3 v w)))
       (store_budget M + (if is_memory M then 2 else 0))"
proof -
  obtain p1 r1 b1 where i: "p_init P L r b = (p1, r1, b1)"
    by (cases "p_init P L r b") auto
  obtain p2 b2 where d: "p_dummyRead P L r1 p1 b1 = (p2, b2)"
    by (cases "p_dummyRead P L r1 p1 b1") auto
  obtain v p3 b3 where g: "p_get8bit P L r1 p2 b2 = (v, p3, b3)"
    by (cases "p_get8bit P L r1 p2 b2") auto
  have "grows_by b (snd (snd (rmwStore P p3 L r2 b3 v w)))
       (store_budget M + (if is_memory M then 2 else 0))" for r2 w
    by (rule rmwStore_traffic(1) [OF i d g, of r2 w "fst (rmwStore P p3 L r2 b3 v w)"
          "fst (snd (rmwStore P p3 L r2 b3 v w))"]) simp
  then show thesis
    using that [OF i d g] by blast
qed

lemma paying_reads:
  shows "within n b (LDA_execute P n L r b) (read_budget M)"
    and "within n b (LDX_execute P n L r b) (read_budget M)"
    and "within n b (LDY_execute P n L r b) (read_budget M)"
    and "within n b (LAX_execute P n L r b) (read_budget M)"
    and "within n b (NOPR_execute P n L r b) (read_budget M)"
    and "within n b (ADC_execute P n L r b) (read_budget M)"
    and "within n b (SBC_execute P n L r b) (read_budget M)"
    and "within n b (AND_execute P n L r b) (read_budget M)"
    and "within n b (EOR_execute P n L r b) (read_budget M)"
    and "within n b (ORA_execute P n L r b) (read_budget M)"
    and "within n b (CMP_execute P n L r b) (read_budget M)"
    and "within n b (LAS_execute P n L r b) (read_budget M)"
  by (rule readE [of r b]; simp add: within_defs 
    LDA_execute_def LDX_execute_def LDY_execute_def LAX_execute_def NOPR_execute_def
    ADC_execute_def SBC_execute_def AND_execute_def EOR_execute_def ORA_execute_def
    CMP_execute_def LAS_execute_def; fail)+

lemma fixed_reads:
  shows "within n b (CPX_execute P n L r b) (store_budget M)"
    and "within n b (CPY_execute P n L r b) (store_budget M)"
    and "within n b (BIT_execute P n L r b) (store_budget M)"
    and "within n b (ANC_execute P n L r b) (store_budget M)"
    and "within n b (XAA_execute P n L r b) (store_budget M)"
    and "within n b (SBX_execute P n L r b) (store_budget M)"
    and "within n b (ALR_execute P n L r b) (store_budget M)"
    and "within n b (ARR_execute P n L r b) (store_budget M)"
  by (rule readE [of r b]; simp add: within_defs 
    CPX_execute_def CPY_execute_def BIT_execute_def ANC_execute_def XAA_execute_def
    SBX_execute_def ALR_execute_def ARR_execute_def; fail)+

lemma branches:
  shows "within n b (BCC_execute P n L r b) (store_budget M)"
    and "within n b (BCS_execute P n L r b) (store_budget M)"
    and "within n b (BEQ_execute P n L r b) (store_budget M)"
    and "within n b (BMI_execute P n L r b) (store_budget M)"
    and "within n b (BNE_execute P n L r b) (store_budget M)"
    and "within n b (BPL_execute P n L r b) (store_budget M)"
    and "within n b (BVC_execute P n L r b) (store_budget M)"
    and "within n b (BVS_execute P n L r b) (store_budget M)"
  by (rule readE [of r b]; simp add: within_defs branch_def
    BCC_execute_def BCS_execute_def BEQ_execute_def BMI_execute_def BNE_execute_def
    BPL_execute_def BVC_execute_def BVS_execute_def; fail)+

lemma fetches:
  shows "within n b (NOP_execute P n L r b) (int (operand_len M))"
  by (rule fetchE [of r b]; simp add: within_defs 
    NOP_execute_def; fail)+

lemma jumps:
  shows "within n b (JMP_execute P n L r b) (jump_budget M)"
  by (rule jumpE [of r b]; simp add: within_defs 
    JMP_execute_def; fail)+

lemma calls:
  shows "within n b (JSR_execute P n L r b) (jump_budget M + 2)"
  by (rule jumpE [of r b]; simp add: within_defs 
    JSR_execute_def; fail)+

lemma stores:
  shows "within n b (STA_execute P n L r b) (store_budget M)"
    and "within n b (STX_execute P n L r b) (store_budget M)"
    and "within n b (STY_execute P n L r b) (store_budget M)"
    and "within n b (SAX_execute P n L r b) (store_budget M)"
  by (rule storeE [of r b]; simp add: within_defs 
    STA_execute_def STX_execute_def STY_execute_def SAX_execute_def; fail)+

lemma modifies:
  shows "within n b (ASL_execute P n L r b) (store_budget M + (if is_memory M then 2 else 0))"
    and "within n b (LSR_execute P n L r b) (store_budget M + (if is_memory M then 2 else 0))"
    and "within n b (ROL_execute P n L r b) (store_budget M + (if is_memory M then 2 else 0))"
    and "within n b (ROR_execute P n L r b) (store_budget M + (if is_memory M then 2 else 0))"
    and "within n b (INC_execute P n L r b) (store_budget M + (if is_memory M then 2 else 0))"
    and "within n b (DEC_execute P n L r b) (store_budget M + (if is_memory M then 2 else 0))"
    and "within n b (DCP_execute P n L r b) (store_budget M + (if is_memory M then 2 else 0))"
    and "within n b (ISC_execute P n L r b) (store_budget M + (if is_memory M then 2 else 0))"
    and "within n b (SLO_execute P n L r b) (store_budget M + (if is_memory M then 2 else 0))"
    and "within n b (RLA_execute P n L r b) (store_budget M + (if is_memory M then 2 else 0))"
    and "within n b (SRE_execute P n L r b) (store_budget M + (if is_memory M then 2 else 0))"
    and "within n b (RRA_execute P n L r b) (store_budget M + (if is_memory M then 2 else 0))"
  by (rule modifyE [of r b]; simp add: within_defs 
    ASL_execute_def LSR_execute_def ROL_execute_def ROR_execute_def INC_execute_def
    DEC_execute_def DCP_execute_def ISC_execute_def SLO_execute_def RLA_execute_def
    SRE_execute_def RRA_execute_def; fail)+

text \<open>The trace of a read-modify-write.\<close>

lemma modify_traceE:
  assumes "is_memory M"
  obtains p1 b1 p2 b2 v p3 b3 pre ea where
    "p_init P L r b = (p1, r\<lparr>reg_pc := reg_pc r + of_nat (operand_len M)\<rparr>, b1)"
    "p_dummyRead P L (r\<lparr>reg_pc := reg_pc r + of_nat (operand_len M)\<rparr>) p1 b1 = (p2, b2)"
    "p_get8bit P L (r\<lparr>reg_pc := reg_pc r + of_nat (operand_len M)\<rparr>) p2 b2 = (v, p3, b3)"
    "list_all is_read pre"
    "\<And>r2 w. reg_x r2 = reg_x r \<Longrightarrow> reg_y r2 = reg_y r \<Longrightarrow>
       trace_of (snd (snd (rmwStore P p3 L r2 b3 v w))) = trace_of b @ pre @ [Rd ea, Wr ea v, Wr ea w]"
proof -
  let ?r = "r\<lparr>reg_pc := reg_pc r + of_nat (operand_len M)\<rparr>"
  obtain p1 b1 where i: "p_init P L r b = (p1, ?r, b1)"
    using init_regs [of r b] by (cases "p_init P L r b") auto
  obtain p2 b2 where d: "p_dummyRead P L ?r p1 b1 = (p2, b2)"
    by (cases "p_dummyRead P L ?r p1 b1") auto
  obtain v p3 b3 where g: "p_get8bit P L ?r p2 b2 = (v, p3, b3)"
    by (cases "p_get8bit P L ?r p2 b2") auto
  have law: "reads_since b b3 \<and> accesses b < accesses b3 \<and> (\<exists>ea. last (trace_of b3) = Rd ea \<and>
      trace_of (snd (snd (rmwStore P p3 L r2 b3 v w))) = trace_of b3 @ [Wr ea v, Wr ea w])"
    if "reg_x r2 = reg_x r" "reg_y r2 = reg_y r" for r2 w
    using rmwStore_traffic(2) [OF i d g _ assms, of r2 w] that
    by (cases "rmwStore P p3 L r2 b3 v w") auto
  obtain pre where pre: "trace_of b3 = trace_of b @ pre" "list_all is_read pre"
    using law [of r] by (auto simp: reads_since_def)
  have "pre \<noteq> []"
    using law [of r] pre(1) by (auto simp: accesses_def)
  moreover obtain ea where "last (trace_of b3) = Rd ea"
    using law [of r] by auto
  ultimately have split: "pre = butlast pre @ [Rd ea]" and last: "last (trace_of b3) = Rd ea"
    using pre(1) by (simp_all add: append_butlast_last_id [symmetric] del: append_butlast_last_id)
      (metis append_butlast_last_id last_appendR)
  have "list_all is_read (butlast pre)"
    using pre(2) split by (metis list_all_append)
  moreover have "trace_of (snd (snd (rmwStore P p3 L r2 b3 v w)))
      = trace_of b @ butlast pre @ [Rd ea, Wr ea v, Wr ea w]"
    if "reg_x r2 = reg_x r" "reg_y r2 = reg_y r" for r2 w
  proof -
    have "trace_of (snd (snd (rmwStore P p3 L r2 b3 v w))) = trace_of b @ pre @ [Wr ea v, Wr ea w]"
      using law [OF that, of w] last pre(1) by auto
    then show ?thesis
      by (subst (asm) split) simp
  qed
  ultimately show thesis
    using that [OF i d g] by blast
qed

lemma modify_traces:
  assumes "is_memory M"
  shows "modifies ASL_Impl (getStatus FLAG_C r) b (snd (snd (ASL_execute P n L r b)))"
    and "modifies LSR_Impl (getStatus FLAG_C r) b (snd (snd (LSR_execute P n L r b)))"
    and "modifies ROL_Impl (getStatus FLAG_C r) b (snd (snd (ROL_execute P n L r b)))"
    and "modifies ROR_Impl (getStatus FLAG_C r) b (snd (snd (ROR_execute P n L r b)))"
    and "modifies INC_Impl (getStatus FLAG_C r) b (snd (snd (INC_execute P n L r b)))"
    and "modifies DEC_Impl (getStatus FLAG_C r) b (snd (snd (DEC_execute P n L r b)))"
    and "modifies DCP_Impl (getStatus FLAG_C r) b (snd (snd (DCP_execute P n L r b)))"
    and "modifies ISC_Impl (getStatus FLAG_C r) b (snd (snd (ISC_execute P n L r b)))"
    and "modifies SLO_Impl (getStatus FLAG_C r) b (snd (snd (SLO_execute P n L r b)))"
    and "modifies RLA_Impl (getStatus FLAG_C r) b (snd (snd (RLA_execute P n L r b)))"
    and "modifies SRE_Impl (getStatus FLAG_C r) b (snd (snd (SRE_execute P n L r b)))"
    and "modifies RRA_Impl (getStatus FLAG_C r) b (snd (snd (RRA_execute P n L r b)))"
  unfolding ASL_execute_def LSR_execute_def ROL_execute_def ROR_execute_def INC_execute_def
    DEC_execute_def DCP_execute_def ISC_execute_def SLO_execute_def RLA_execute_def
    SRE_execute_def RRA_execute_def
  unfolding rol_val_code ror_val_code
  unfolding asl_val_code lsr_val_code
  by (rule modify_traceE [OF assms, of r b]; force simp: modifies_def modified_def Let_def case_prod_beta; fail)+

lemma execute_with_modifies:
  assumes "kind_of I = Modifies" and "is_memory M"
  shows "modifies I (getStatus FLAG_C r) b (snd (snd (execute_with P I n L r b)))"
  using modify_traces [OF assms(2)] assms(1)
  by (cases I) (simp_all add: kind_of_def implied_def pays_crossing_def)

lemma execute_with_traffic: "within n b (execute_with P I n L r b) (budget (kind_of I) M)"
  using silent_instructions paying_reads fixed_reads branches fetches jumps calls stores modifies
  by (cases I) (simp_all add: kind_of_def implied_def pays_crossing_def del: if_split)

end

context indexed_traffic
begin

lemma SHx_traffic: "within n b (SHx_execute P Reg n L r b) (read_budget M)"
proof -
  obtain p1 r1 b1 where i: "p_init P L r b = (p1, r1, b1)"
    by (cases "p_init P L r b") auto
  have "grows_by b (snd (snd (p_set8bit P L v (fst (snd (p_base P L r2 p1 b1))) r2
      (snd (snd (p_base P L r2 p1 b1)))))) (read_budget M)" for v and r2 :: Registers
    by (rule base_traffic [OF i, of r2 "fst (p_base P L r2 p1 b1)" _ _ v
          "fst (p_set8bit P L v (fst (snd (p_base P L r2 p1 b1))) r2 (snd (snd (p_base P L r2 p1 b1))))"
          "fst (snd (p_set8bit P L v (fst (snd (p_base P L r2 p1 b1))) r2 (snd (snd (p_base P L r2 p1 b1)))))"])
      simp_all
  then show ?thesis
    by (simp add: within_defs SHx_execute_def i)
qed

end

section \<open>The whole table\<close>

fun budget_of :: "BaseInstruction \<Rightarrow> int" where
  "budget_of (Inst I M n) = budget (kind_of I) M"
| "budget_of (SHx_Inst M n Reg) = read_budget (indexed_params M)"

fun base_cycles :: "BaseInstruction \<Rightarrow> int" where
  "base_cycles (Inst I M n) = n"
| "base_cycles (SHx_Inst M n Reg) = n"

lemma execute_traffic:
  "within (base_cycles ins) b (execute ins (Logging_Bus B) r b) (budget_of ins)"
proof (cases ins)
  case (Inst I M n)
  then show ?thesis
    by (cases M) (simp_all only: execute.simps budget_of.simps base_cycles.simps
        t_null.execute_with_traffic t_acc.execute_with_traffic t_imm.execute_with_traffic
        t_rel.execute_with_traffic t_abc.execute_with_traffic t_zp.execute_with_traffic
        t_zpx.execute_with_traffic t_zpy.execute_with_traffic t_abs.execute_with_traffic
        t_abx.execute_with_traffic t_aby.execute_with_traffic t_ind.execute_with_traffic
        t_inx.execute_with_traffic t_iny.execute_with_traffic)
next
  case (SHx_Inst M n Reg)
  then show ?thesis
    by (cases M) (simp_all only: execute.simps budget_of.simps base_cycles.simps indexed_params.simps
        t_abx.SHx_traffic t_aby.SHx_traffic t_iny.SHx_traffic)
qed

lemma every_opcode_fits: "1 + budget_of (instr_of code) \<le> base_cycles (instr_of code)"
proof -
  have "table_all (\<lambda>_ ins. 1 + budget_of ins \<le> base_cycles ins) 0 instruction_table"
    by (simp add: instruction_table_def row_defs kind_of_def implied_def pays_crossing_def
        store_budget_def jump_budget_def is_memory_def)
  then show ?thesis
    by (rule instr_of_all)
qed

lemma base_cycles_least: "2 \<le> base_cycles (instr_of code)"
proof -
  have "table_all (\<lambda>_ ins. 2 \<le> base_cycles ins) 0 instruction_table"
    by (simp add: instruction_table_def row_defs)
  then show ?thesis
    by (rule instr_of_all)
qed

lemma opcode_traffic:
  assumes "execute (instr_of code) (Logging_Bus B) r b = (k, r', b')"
  shows "int (accesses b') - int (accesses b) + 1 \<le> k" and "base_cycles (instr_of code) \<le> k"
  using execute_traffic [of "instr_of code" b B r] every_opcode_fits [of code] assms
  by (simp_all add: within_def)

section \<open>Cycle counts\<close>

text \<open>
  The documented base counts: opcode and operand bytes, one cycle for indexing within the zero page,
  the pointer bytes of the indirect modes, then the accesses of the instruction. A store and a
  read-modify-write always spend the cycle in which an index may carry.
\<close>

fun address_cycles :: "Params \<Rightarrow> int" where
  "address_cycles ZeroPageX = 3"
| "address_cycles ZeroPageY = 3"
| "address_cycles Indirect = 5"
| "address_cycles IndirectX = 5"
| "address_cycles IndirectY = 4"
| "address_cycles M = 1 + int (operand_len M)"

definition carry_cycle :: "Params \<Rightarrow> int" where
  "carry_cycle M = (if M \<in> {AbsoluteX, AbsoluteY, IndirectY} then 1 else 0)"

definition value_cycle :: "Params \<Rightarrow> int" where
  "value_cycle M = (if is_memory M then 1 else 0)"

definition documented_cycles :: "Impl \<Rightarrow> Params \<Rightarrow> int" where
  "documented_cycles I M =
     (if I = BRK_Impl then 7
      else if I \<in> set [RTI_Impl, RTS_Impl, JSR_Impl] then 6
      else if I \<in> set [PLA_Impl, PLP_Impl] then 4
      else if I \<in> set [PHA_Impl, PHP_Impl, KIL_Impl] then 3
      else if implied I \<or> M = Null \<or> M = Accumulator then 2
      else case kind_of I of
          Stores \<Rightarrow> address_cycles M + carry_cycle M + 1
        | Modifies \<Rightarrow> address_cycles M + carry_cycle M + 3
        | _ \<Rightarrow> address_cycles M + value_cycle M)"

text \<open>
  C24: The base cycle counts of all 256 entries of the opcode table are the documented ones: they
  follow from the addressing mode and from whether the instruction reads, stores, modifies, jumps
  or uses the stack.
\<close>

theorem table_cycles_documented:
  "case instr_of code of
     Inst I M n \<Rightarrow> n = documented_cycles I M
   | SHx_Inst M n Reg \<Rightarrow>
       n = address_cycles (indexed_params M) + carry_cycle (indexed_params M) + 1"
proof -
  have "table_all (\<lambda>_ ins. case ins of Inst I M n \<Rightarrow> n = documented_cycles I M
      | SHx_Inst M n Reg \<Rightarrow>
          n = address_cycles (indexed_params M) + carry_cycle (indexed_params M) + 1) 0 instruction_table"
    by (simp add: instruction_table_def row_defs documented_cycles_def kind_of_def implied_def
        pays_crossing_def value_cycle_def carry_cycle_def is_memory_def)
  then show ?thesis
    by (rule instr_of_all)
qed

text \<open>
  C12: A read-modify-write instruction on memory writes twice, on any bus and in every mode: after
  reading its operand from an address it writes the unmodified byte back to that address and then
  the modified one; these are its last accesses and everything before them is a read.
\<close>

theorem modify_writes_twice:
  assumes "kind_of I = Modifies" and "is_memory M"
    and "execute (Inst I M n) (Logging_Bus B) r b = (k, r', b')"
  shows "\<exists>pre ea v. list_all is_read pre \<and>
    trace_of b' = trace_of b @ pre @ [Rd ea, Wr ea v, Wr ea (modified I (getStatus FLAG_C r) v)]"
proof -
  have "modifies I (getStatus FLAG_C r) b (snd (snd (execute (Inst I M n) (Logging_Bus B) r b)))"
    using assms(2) unfolding is_memory_def
    by (auto simp: is_memory_def
        intro!: t_zp.execute_with_modifies t_zpx.execute_with_modifies t_zpy.execute_with_modifies
          t_abs.execute_with_modifies t_abx.execute_with_modifies t_aby.execute_with_modifies
          t_inx.execute_with_modifies t_iny.execute_with_modifies assms(1))
  then show ?thesis
    by (simp add: assms(3) modifies_def)
qed

definition empty_log :: "mem \<Rightarrow> mem logged" where
  "empty_log m = \<lparr>lg_state = m, lg_trace = []\<rparr>"

lemma modify_writes_twice_witness:
  "\<exists>pre ea v. list_all is_read pre \<and>
    trace_of (snd (snd (execute (Inst INC_Impl ZeroPage 5) (Logging_Bus array_Bus) Registers_zero
      (empty_log (\<lambda>_. 7))))) = pre @ [Rd ea, Wr ea v, Wr ea (v + 1)]"
proof -
  let ?res = "execute (Inst INC_Impl ZeroPage 5) (Logging_Bus array_Bus) Registers_zero
      (empty_log (\<lambda>_. 7))"
  have "kind_of INC_Impl = Modifies" "is_memory ZeroPage"
    by (simp_all add: kind_of_def implied_def is_memory_def)
  from modify_writes_twice [OF this, of 5 array_Bus Registers_zero "empty_log (\<lambda>_. 7)"
      "fst ?res" "fst (snd ?res)" "snd (snd ?res)"]
  show ?thesis
    by (simp add: modified_def empty_log_def trace_of_def)
qed

section \<open>A step\<close>

lemma interrupt_traffic:
  assumes "serviceInterrupt E vector P = (k, P')" and "v_bus E = Logging_Bus B"
  shows "k = 7" and "accesses (p_bus P') = accesses (p_bus P) + 5" and "p_clock P' = p_clock P"
  using assms by (auto simp: serviceInterrupt_def Let_def case_prod_beta logged_read)

lemma step_core_traffic:
  fixes P :: "('b logged, 'k) Processor"
  assumes "v_bus E = Logging_Bus B"
  obtains k where "p_clock (step_core E P) = clk_waitCycles (v_clock E) k (p_clock P)"
    and "int (accesses (p_bus (step_core E P))) - int (accesses (p_bus P)) \<le> k" and "2 \<le> k"
proof -
  define P0 where "P0 = P\<lparr>m_nmi_pending := False\<rparr>"
  have P0: "p_bus P0 = p_bus P" "p_clock P0 = p_clock P" "m_irq_line P0 = m_irq_line P"
    by (simp_all add: P0_def)
  let ?done = "\<lambda>P'. \<exists>k. p_clock P' = clk_waitCycles (v_clock E) k (p_clock P) \<and>
    int (accesses (p_bus P')) - int (accesses (p_bus P)) \<le> k \<and> 2 \<le> k"
  have service: "?done (case serviceInterrupt E vector P0 of
      (k, P') \<Rightarrow> (waitCycles E k P')\<lparr>m_i_flag_delayed := False\<rparr>)" for vector
  proof (cases "serviceInterrupt E vector P0")
    case (Pair k P')
    from interrupt_traffic [OF Pair assms] show ?thesis
      by (simp add: Pair P0) (rule exI [of _ 7], simp)
  qed
  have "?done (execute_next E P0)"
  proof -
    obtain code b1 where fetch: "bus_read (Logging_Bus B) (reg_pc (p_regs P)) (p_bus P) = (code, b1)"
      by (cases "bus_read (Logging_Bus B) (reg_pc (p_regs P)) (p_bus P)") auto
    then have b1: "accesses b1 = accesses (p_bus P) + 1"
      using logged_read(1) [of B "reg_pc (p_regs P)" "p_bus P"] by simp
    let ?r = "(p_regs P)\<lparr>reg_pc := reg_pc (p_regs P) + 1\<rparr>"
    obtain k r2 b2 where ex: "execute (instr_of code) (Logging_Bus B) ?r b1 = (k, r2, b2)"
      by (cases "execute (instr_of code) (Logging_Bus B) ?r b1") auto
    have "2 \<le> k"
      using opcode_traffic(2) [OF ex] base_cycles_least [of code] by simp
    moreover have "int (accesses b2) - int (accesses (p_bus P)) \<le> k"
      using opcode_traffic(1) [OF ex] b1 by simp
    ultimately show ?thesis
      by (auto simp: execute_next_def assms P0_def fetch ex)
  qed
  then have "?done (step_core E P)"
    using service [of "0xFFFA"] service [of "0xFFFE"]
    unfolding step_core_def Let_def P0_def [symmetric] P0(3) by simp
  then show thesis
    using that by blast
qed

end
