(* ===== verification/Bus_Simulation.thy ===== *)
theory Bus_Simulation
  imports Run_Loops Bus_Traffic
begin

text \<open>
  The processor sees its bus only through \<open>read\<close> and \<open>write\<close>. If a map between the states of two buses
  commutes with these two functions, it commutes with every policy, every instruction, with \<open>step\<close> and
  with \<open>run\<close>, whatever the devices do. The locale \<open>bus_map\<close> is such a map and \<open>policy_map\<close> the same for an
  addressing policy. The instance used further on replaces the buffer of a memory of 256 pages by a function,
  on which programs are evaluated.
\<close>

section \<open>Maps between buses\<close>

locale bus_map =
  fixes B :: "'b Bus" and B' :: "'c Bus" and h :: "'b \<Rightarrow> 'c"
  assumes read_map: "bus_read B' ad (h b) = apsnd h (bus_read B ad b)"
    and write_map: "bus_write B' ad v (h b) = h (bus_write B ad v b)"
begin

lemma bus_maps [simp]:
  "fst (bus_read B' ad (h b)) = fst (bus_read B ad b)"
  "snd (bus_read B' ad (h b)) = h (snd (bus_read B ad b))"
  "bus_write B' ad v (h b) = h (bus_write B ad v b)"
  by (simp_all add: read_map write_map)

lemma word_maps [simp]:
  "READ16 B' ad (h b) = apsnd h (READ16 B ad b)"
  "ZP_READ16 B' z (h b) = apsnd h (ZP_READ16 B z b)"
  "WRITE16 B' ad w (h b) = h (WRITE16 B ad w b)"
  "ZP_WRITE16 B' z w (h b) = h (ZP_WRITE16 B z w b)"
  by (simp_all add: READ16_def ZP_READ16_def WRITE16_def ZP_WRITE16_def Let_def case_prod_beta)

lemma stack_maps [simp]:
  "push8 B' v r (h b) = apsnd h (push8 B v r b)"
  "push16 B' w r (h b) = apsnd h (push16 B w r b)"
  "pop8 B' r (h b) = apsnd (apsnd h) (pop8 B r b)"
  "pop16 B' r (h b) = apsnd (apsnd h) (pop16 B r b)"
  by (simp_all add: push8_def push16_def pop8_def pop16_def Let_def case_prod_beta)

end

locale policy_map = bus_map B B' h
  for B :: "'b Bus" and B' :: "'c Bus" and h :: "'b \<Rightarrow> 'c" +
  fixes P :: "('p, 'b, 'y) IParams_scheme" and P' :: "('p, 'c, 'z) IParams_scheme"
  assumes init_map: "p_init P' B' r (h b) = apsnd (apsnd h) (p_init P B r b)"
    and dummyRead_map: "p_dummyRead P' B' r p (h b) = apsnd h (p_dummyRead P B r p b)"
    and get8bit_map: "p_get8bit P' B' r p (h b) = apsnd (apsnd h) (p_get8bit P B r p b)"
    and get16bit_map: "p_get16bit P' B' r p (h b) = apsnd (apsnd h) (p_get16bit P B r p b)"
    and set8bit_map: "p_set8bit P' B' v p r (h b) = apsnd (apsnd h) (p_set8bit P B v p r b)"
    and set16bit_map: "p_set16bit P' B' w p r (h b) = apsnd (apsnd h) (p_set16bit P B w p r b)"
    and extraCycles_map: "p_extraCycles P' p = p_extraCycles P p"
begin

lemmas policy_maps [simp] = init_map dummyRead_map get8bit_map get16bit_map set8bit_map set16bit_map
  extraCycles_map

lemma rmwStore_map [simp]:
  "rmwStore P' p B' r (h b) v w = apsnd (apsnd h) (rmwStore P p B r b v w)"
  by (simp add: rmwStore_def Let_def case_prod_beta)

lemma branch_map [simp]:
  "branch P' B' r (h b) flag want n = apsnd (apsnd h) (branch P B r b flag want n)"
  by (simp add: branch_def Let_def case_prod_beta)

lemma execute_with_map: "execute_with P' I n B' r (h b) = apsnd (apsnd h) (execute_with P I n B r b)"
  by (cases I) (simp_all add: Let_def case_prod_beta ADC_execute_def AND_execute_def ASL_execute_def
    BCC_execute_def BCS_execute_def BEQ_execute_def BIT_execute_def BMI_execute_def BNE_execute_def
    BPL_execute_def BRK_execute_def BVC_execute_def BVS_execute_def CLC_execute_def CLD_execute_def
    CLI_execute_def CLV_execute_def CMP_execute_def CPX_execute_def CPY_execute_def DEC_execute_def
    DEX_execute_def DEY_execute_def EOR_execute_def INC_execute_def INX_execute_def INY_execute_def
    JMP_execute_def JSR_execute_def LDA_execute_def LDX_execute_def LDY_execute_def LSR_execute_def
    NOP_execute_def NOPR_execute_def ORA_execute_def PHA_execute_def PHP_execute_def PLA_execute_def
    PLP_execute_def ROL_execute_def ROR_execute_def RTI_execute_def RTS_execute_def SBC_execute_def
    SEC_execute_def SED_execute_def SEI_execute_def STA_execute_def STX_execute_def STY_execute_def
    TAX_execute_def TAY_execute_def TSX_execute_def TXA_execute_def TXS_execute_def TYA_execute_def
    LAX_execute_def SAX_execute_def DCP_execute_def ISC_execute_def SLO_execute_def RLA_execute_def
    SRE_execute_def RRA_execute_def ANC_execute_def ALR_execute_def ARR_execute_def SBX_execute_def
    LAS_execute_def XAA_execute_def KIL_execute_def)

end

locale indexed_map = policy_map B B' h P P'
  for B :: "'b Bus" and B' :: "'c Bus" and h :: "'b \<Rightarrow> 'c"
    and P :: "('p, 'b, 'y) IndexedParams_scheme" and P' :: "('p, 'c, 'z) IndexedParams_scheme" +
  assumes base_map: "p_base P' B' r p (h b) = apsnd (apsnd h) (p_base P B r p b)"
begin

lemma SHx_map: "SHx_execute P' Reg n B' r (h b) = apsnd (apsnd h) (SHx_execute P Reg n B r b)"
  by (simp add: SHx_execute_def Let_def case_prod_beta base_map)

end

section \<open>Every policy and every instruction\<close>

sublocale bus_map \<subseteq> s_null: policy_map B B' h NullParams NullParams
  by unfold_locales (simp_all add: NullParams_def mode_defs)

sublocale bus_map \<subseteq> s_acc: policy_map B B' h AccumulatorParams AccumulatorParams
  by unfold_locales (simp_all add: AccumulatorParams_def mode_defs)

sublocale bus_map \<subseteq> s_imm: policy_map B B' h ImmediateParams ImmediateParams
  by unfold_locales (simp_all add: ImmediateParams_def mode_defs)

sublocale bus_map \<subseteq> s_rel: policy_map B B' h RelativeParams RelativeParams
  by unfold_locales (simp_all add: RelativeParams_def mode_defs)

sublocale bus_map \<subseteq> s_abc: policy_map B B' h AbsConstParams AbsConstParams
  by unfold_locales (simp_all add: AbsConstParams_def mode_defs)

sublocale bus_map \<subseteq> s_zp: policy_map B B' h ZeroPageParams ZeroPageParams
  by unfold_locales (simp_all add: ZeroPageParams_def mode_defs)

sublocale bus_map \<subseteq> s_zpx: policy_map B B' h ZeroPageXParams ZeroPageXParams
  by unfold_locales (simp_all add: ZeroPageXParams_def zp_dummyRead_def mode_defs)

sublocale bus_map \<subseteq> s_zpy: policy_map B B' h ZeroPageYParams ZeroPageYParams
  by unfold_locales (simp_all add: ZeroPageYParams_def zp_dummyRead_def mode_defs)

sublocale bus_map \<subseteq> s_abs: policy_map B B' h AbsoluteParams AbsoluteParams
  by unfold_locales (simp_all add: AbsoluteParams_def mode_defs)

sublocale bus_map \<subseteq> s_ind: policy_map B B' h IndirectParams IndirectParams
  by unfold_locales (simp_all add: IndirectParams_def mode_defs)

sublocale bus_map \<subseteq> s_abx: indexed_map B B' h AbsoluteXParams AbsoluteXParams
  by unfold_locales (simp_all add: AbsoluteXParams_def AbsoluteX_addr_def AbsoluteX_dummyRead_def mode_defs)

sublocale bus_map \<subseteq> s_aby: indexed_map B B' h AbsoluteYParams AbsoluteYParams
  by unfold_locales (simp_all add: AbsoluteYParams_def AbsoluteY_addr_def AbsoluteY_dummyRead_def mode_defs)

sublocale bus_map \<subseteq> s_inx: policy_map B B' h IndirectXParams IndirectXParams
  by unfold_locales (simp_all add: IndirectXParams_def IndirectX_init_def IndirectX_addr_def mode_defs)

sublocale bus_map \<subseteq> s_iny: indexed_map B B' h IndirectYParams IndirectYParams
  by unfold_locales (simp_all add: IndirectYParams_def IndirectY_init_def IndirectY_base_def
      IndirectY_addr_def IndirectY_dummyRead_def mode_defs)

context bus_map
begin

lemma execute_map: "execute ins B' r (h b) = apsnd (apsnd h) (execute ins B r b)"
proof (cases ins)
  case (Inst I M n)
  then show ?thesis
    by (cases M) (simp_all only: execute.simps s_null.execute_with_map s_acc.execute_with_map
        s_imm.execute_with_map s_rel.execute_with_map s_abc.execute_with_map s_zp.execute_with_map
        s_zpx.execute_with_map s_zpy.execute_with_map s_abs.execute_with_map s_ind.execute_with_map
        s_abx.execute_with_map s_aby.execute_with_map s_inx.execute_with_map s_iny.execute_with_map)
next
  case (SHx_Inst M n Reg)
  then show ?thesis
    by (cases M) (simp_all only: execute.simps s_abx.SHx_map s_aby.SHx_map s_iny.SHx_map)
qed

end

section \<open>The processor\<close>

text \<open>The same processor with another bus behind it.\<close>

definition on_bus :: "('b \<Rightarrow> 'c) \<Rightarrow> ('b, 'k) Processor \<Rightarrow> ('c, 'k) Processor" where
  "on_bus h P =
     \<lparr>p_regs = p_regs P, p_bus = h (p_bus P), p_clock = p_clock P, m_running = m_running P,
      m_stopping = m_stopping P, m_nmi_pending = m_nmi_pending P, m_irq_line = m_irq_line P,
      m_i_flag_delayed = m_i_flag_delayed P, m_i_flag_before = m_i_flag_before P\<rparr>"

lemma on_bus_select [simp]:
  "p_regs (on_bus h P) = p_regs P" "p_bus (on_bus h P) = h (p_bus P)"
  "p_clock (on_bus h P) = p_clock P" "m_running (on_bus h P) = m_running P"
  "m_stopping (on_bus h P) = m_stopping P" "m_nmi_pending (on_bus h P) = m_nmi_pending P"
  "m_irq_line (on_bus h P) = m_irq_line P" "m_i_flag_delayed (on_bus h P) = m_i_flag_delayed P"
  "m_i_flag_before (on_bus h P) = m_i_flag_before P"
  by (simp_all add: on_bus_def)

lemma on_bus_update:
  "(on_bus h P)\<lparr>p_regs := r\<rparr> = on_bus h (P\<lparr>p_regs := r\<rparr>)"
  "(on_bus h P)\<lparr>p_bus := h b\<rparr> = on_bus h (P\<lparr>p_bus := b\<rparr>)"
  "(on_bus h P)\<lparr>p_clock := k\<rparr> = on_bus h (P\<lparr>p_clock := k\<rparr>)"
  "(on_bus h P)\<lparr>m_running := f\<rparr> = on_bus h (P\<lparr>m_running := f\<rparr>)"
  "(on_bus h P)\<lparr>m_stopping := f\<rparr> = on_bus h (P\<lparr>m_stopping := f\<rparr>)"
  "(on_bus h P)\<lparr>m_nmi_pending := f\<rparr> = on_bus h (P\<lparr>m_nmi_pending := f\<rparr>)"
  "(on_bus h P)\<lparr>m_irq_line := f\<rparr> = on_bus h (P\<lparr>m_irq_line := f\<rparr>)"
  "(on_bus h P)\<lparr>m_i_flag_delayed := f\<rparr> = on_bus h (P\<lparr>m_i_flag_delayed := f\<rparr>)"
  "(on_bus h P)\<lparr>m_i_flag_before := f\<rparr> = on_bus h (P\<lparr>m_i_flag_before := f\<rparr>)"
  by (simp_all add: on_bus_def)

lemma on_bus_flags:
  "run_cond (on_bus h P) = run_cond P" "run_end (on_bus h P) = on_bus h (run_end P)"
  "pause (on_bus h P) = on_bus h (pause P)" "nmi (on_bus h P) = on_bus h (nmi P)"
  "irq f (on_bus h P) = on_bus h (irq f P)"
  "clearInterrupts (on_bus h P) = on_bus h (clearInterrupts P)"
  "nmiPending (on_bus h P) = nmiPending P" "irqAsserted (on_bus h P) = irqAsserted P"
  by (simp_all add: run_cond_def run_end_def pause_def nmi_def irq_def clearInterrupts_def
      nmiPending_def irqAsserted_def on_bus_update)

section \<open>Steps and runs\<close>

text \<open>The two environments: mapped buses, the same clock, callbacks that agree.\<close>

locale env_map = bus_map "v_bus E" "v_bus E'" h
  for E :: "('b, 'k) Env" and E' :: "('c, 'k) Env" and h :: "'b \<Rightarrow> 'c" +
  assumes same_clock: "v_clock E' = v_clock E"
    and callback_map: "call_back (p_instr_callback E') (on_bus h P)
      = on_bus h (call_back (p_instr_callback E) P)"
begin

lemma waitCycles_map: "waitCycles E' n (on_bus h P) = on_bus h (waitCycles E n P)"
  by (simp add: waitCycles_def same_clock on_bus_update)

lemma serviceInterrupt_map:
  "serviceInterrupt E' vector (on_bus h P) = apsnd (on_bus h) (serviceInterrupt E vector P)"
  by (simp add: serviceInterrupt_def Let_def case_prod_beta on_bus_update)

lemma execute_next_map: "execute_next E' (on_bus h P) = on_bus h (execute_next E P)"
  by (simp add: execute_next_def Let_def case_prod_beta execute_map on_bus_update waitCycles_map)

lemma step_core_map: "step_core E' (on_bus h P) = on_bus h (step_core E P)"
  by (simp add: step_core_def Let_def case_prod_beta on_bus_update serviceInterrupt_map
      execute_next_map waitCycles_map)

lemma step_map: "step E' (on_bus h P) = on_bus h (step E P)"
  by (simp add: step_def step_core_map callback_map)

lemma run_map: "run E' (on_bus h P) = map_option (on_bus h) (run E P)"
proof -
  have start: "run_start E' (on_bus h P) = on_bus h (run_start E P)"
    by (simp add: run_start_def same_clock on_bus_update)
  have "map_option (on_bus h) (while_option run_cond (step E) (run_start E P))
      = while_option run_cond (step E') (on_bus h (run_start E P))"
    by (rule while_option_commute) (simp_all add: on_bus_flags step_map)
  from this [symmetric] show ?thesis
    by (simp add: run_def start option.map_comp comp_def on_bus_flags)
qed

end


section \<open>A memory of 256 pages as a function\<close>

definition ram_of :: "mem \<Rightarrow> Memory" where
  "ram_of m = \<lparr>m_bytes = map (\<lambda>i. m (word_of_nat i)) [0..<65536], m_pages = 256, m_size = 65536\<rparr>"

lemma ram_of_read: "Memory_read ad (ram_of m) = m ad"
  using unat16_less [of ad] by (simp add: Memory_read_def checkAddress_def ram_of_def)

lemma ram_of_write: "Memory_write ad v (ram_of m) = ram_of (m(ad := v))"
proof -
  have "(map (\<lambda>i. m (word_of_nat i)) [0..<65536])[unat ad := v]
      = map (\<lambda>i. (m(ad := v)) (word_of_nat i)) [0..<65536]"
  proof (rule nth_equalityI)
    fix i assume "i < length ((map (\<lambda>i. m (word_of_nat i)) [0..<65536])[unat ad := v])"
    then have i: "i < 65536" by simp
    then have "(word_of_nat i = ad) = (i = unat ad)"
      by (auto simp: unat_of_nat take_bit_nat_eq_self)
    then show "(map (\<lambda>i. m (word_of_nat i)) [0..<65536])[unat ad := v] ! i
        = map (\<lambda>i. (m(ad := v)) (word_of_nat i)) [0..<65536] ! i"
      using i by (simp add: nth_list_update)
  qed simp
  then show ?thesis
    using unat16_less [of ad] by (simp add: Memory_write_def checkAddress_def ram_of_def)
qed

lemma ram_of_new: "Memory_new 256 = ram_of (\<lambda>_. 0)"
  by (simp add: Memory_new_def ram_of_def MAX_BYTES_PER_PAGE_def map_replicate_const)

definition logged_ram :: "mem logged \<Rightarrow> Memory option logged" where
  "logged_ram b = \<lparr>lg_state = Some (ram_of (lg_state b)), lg_trace = lg_trace b\<rparr>"

definition logging_system :: "(Memory option logged, uint64) Env" where
  "logging_system = \<lparr>v_bus = Logging_Bus default_Bus, v_clock = default_clock, p_instr_callback = None\<rparr>"

definition logged_system :: "(mem logged, uint64) Env" where
  "logged_system = \<lparr>v_bus = Logging_Bus array_Bus, v_clock = default_clock, p_instr_callback = None\<rparr>"

interpretation base_map: bus_map array_Bus default_Bus "\<lambda>m. Some (ram_of m)"
  by unfold_locales
    (simp_all add: default_Bus_def array_Bus_def Bus_read_def Bus_write_def ram_of_read ram_of_write)

interpretation logged_map: env_map logged_system logging_system logged_ram
  by unfold_locales
    (simp_all add: logged_system_def logging_system_def Logging_Bus_def logged_ram_def default_Bus_def array_Bus_def
      Bus_read_def Bus_write_def ram_of_read ram_of_write call_back_def)


end
