(* ===== verification/Text_Format.thy ===== *)
theory Text_Format
  imports Prelude
begin

text \<open>
  The text primitives of the C++ library that \<^verbatim>\<open>src/unasm.cpp\<close> and \<^verbatim>\<open>src/Asm.cpp\<close> use:
  the number formats of output streams (\<open>hex\<close>, \<open>setw\<close> and \<open>setfill('0')\<close>, decimal), the
  character classes of the C locale, and the readers \<open>strtoul\<close> and \<open>atoi\<close>. A C++ string is a list
  of characters. The lemmas give the digits of 8- and 16-bit numbers and say that the readers
  undo the printers.
\<close>

section \<open>Character classes\<close>

text \<open>The C locale: a byte from 128 up belongs to no class.\<close>

definition isspace :: "char \<Rightarrow> bool" where
  "isspace c \<longleftrightarrow> c = CHR '' '' \<or> (9 \<le> (of_char c :: nat) \<and> (of_char c :: nat) \<le> 13)"

definition isdigit :: "char \<Rightarrow> bool" where
  "isdigit c \<longleftrightarrow> 48 \<le> (of_char c :: nat) \<and> (of_char c :: nat) \<le> 57"

definition isupper :: "char \<Rightarrow> bool" where
  "isupper c \<longleftrightarrow> 65 \<le> (of_char c :: nat) \<and> (of_char c :: nat) \<le> 90"

definition islower :: "char \<Rightarrow> bool" where
  "islower c \<longleftrightarrow> 97 \<le> (of_char c :: nat) \<and> (of_char c :: nat) \<le> 122"

definition toupper :: "char \<Rightarrow> char" where
  "toupper c = (if islower c then char_of ((of_char c :: nat) - 32) else c)"

definition tolower :: "char \<Rightarrow> char" where
  "tolower c = (if isupper c then char_of ((of_char c :: nat) + 32) else c)"

definition isxdigit :: "char \<Rightarrow> bool" where
  "isxdigit c \<longleftrightarrow> isdigit c \<or> (97 \<le> (of_char (tolower c) :: nat) \<and> (of_char (tolower c) :: nat) \<le> 102)"

lemmas ctype_defs = isspace_def isdigit_def isupper_def islower_def toupper_def tolower_def
  isxdigit_def

section \<open>Printing numbers\<close>

definition hex_digit :: "nat \<Rightarrow> char" where
  "hex_digit d = ''0123456789abcdef'' ! d"

fun show_hex :: "nat \<Rightarrow> string" where
  "show_hex n = (if n < 16 then [hex_digit n] else show_hex (n div 16) @ [hex_digit (n mod 16)])"

declare show_hex.simps [simp del]

fun show_dec :: "nat \<Rightarrow> string" where
  "show_dec n = (if n < 10 then [hex_digit n] else show_dec (n div 10) @ [hex_digit (n mod 10)])"

declare show_dec.simps [simp del]

definition show_int :: "int \<Rightarrow> string" where
  "show_int i = (if i < 0 then CHR ''-'' # show_dec (nat (- i)) else show_dec (nat i))"

text \<open>\<open>setfill('0') << setw(w)\<close>: filled on the left, never cut.\<close>

definition setw0 :: "nat \<Rightarrow> string \<Rightarrow> string" where
  "setw0 w s = replicate (w - length s) CHR ''0'' @ s"

section \<open>Reading numbers\<close>

text \<open>
  \<open>strtoul\<close> in base 16 reads the longest run of digits; \<open>atoi\<close> an optional sign and the longest run
  of digits. Both are called on the text of a capture group, which is nothing but sign and
  digits. The cast to \<open>int\<close> keeps the low 32 bits, and a number too large for the 64-bit \<open>long\<close>
  saturates.
\<close>

definition digit_value :: "char \<Rightarrow> nat" where
  "digit_value c = (if isdigit c then of_char c - 48 else of_char (tolower c) - 87)"

definition read_digits :: "nat \<Rightarrow> (char \<Rightarrow> bool) \<Rightarrow> string \<Rightarrow> nat" where
  "read_digits base p s = foldl (\<lambda>n c. n * base + digit_value c) 0 (takeWhile p s)"

definition cast_int :: "int \<Rightarrow> int" where
  "cast_int i = (i + 2 ^ 31) mod 2 ^ 32 - 2 ^ 31"

definition strtoul16 :: "string \<Rightarrow> int" where
  "strtoul16 s = min (int (read_digits 16 isxdigit s)) (2 ^ 64 - 1)"

definition atoi :: "string \<Rightarrow> int" where
  "atoi s = cast_int (max (- (2 ^ 63)) (min (2 ^ 63 - 1)
     (case s of
        [] \<Rightarrow> 0
      | c # cs \<Rightarrow>
          if c = CHR ''-'' then - int (read_digits 10 isdigit cs)
          else if c = CHR ''+'' then int (read_digits 10 isdigit cs)
          else int (read_digits 10 isdigit s))))"

section \<open>Digits\<close>

lemma hex_digits_ok:
  "list_all (\<lambda>d. isxdigit (hex_digit d) \<and> digit_value (hex_digit d) = d \<and>
     (d < 10 \<longrightarrow> isdigit (hex_digit d))) [0..<16]"
  by code_simp

lemma hex_digit_props:
  "d < 16 \<Longrightarrow> isxdigit (hex_digit d) \<and> digit_value (hex_digit d) = d \<and>
     (d < 10 \<longrightarrow> isdigit (hex_digit d))"
  using hex_digits_ok unfolding list_all_iff by simp

lemma hex_digit_class [simp]: "d < 16 \<Longrightarrow> isxdigit (hex_digit d)"
  and digit_value_hex_digit [simp]: "d < 16 \<Longrightarrow> digit_value (hex_digit d) = d"
  and dec_digit_class [simp]: "d < 10 \<Longrightarrow> isdigit (hex_digit d)"
  using hex_digit_props [of d] by simp_all

lemma xdigit_not_space: "isxdigit c \<Longrightarrow> \<not> isspace c"
  by (auto simp: ctype_defs split: if_splits)

lemma digit_is_xdigit: "isdigit c \<Longrightarrow> isxdigit c"
  by (simp add: isxdigit_def)

section \<open>Fixed widths\<close>

lemma hex_byte:
  assumes "n < 256"
  shows "setw0 2 (show_hex n) = [hex_digit (n div 16), hex_digit (n mod 16)]"
proof (cases "n < 16")
  case True
  then show ?thesis by (simp add: setw0_def show_hex.simps [of n] hex_digit_def)
next
  case False
  with assms have "n div 16 < 16" by simp
  with False show ?thesis
    by (simp add: setw0_def show_hex.simps [of n] show_hex.simps [of "n div 16"])
qed

lemma show_hex_small: "n < 16 \<Longrightarrow> show_hex n = [hex_digit n]"
  by (subst show_hex.simps) simp

lemma show_hex_big: "16 \<le> n \<Longrightarrow> show_hex n = show_hex (n div 16) @ [hex_digit (n mod 16)]"
  by (subst show_hex.simps) simp

lemma div_16_16 [simp]:
  "n div 16 div 16 = n div (256::nat)" "n div 256 div 16 = n div (4096::nat)"
  by (simp_all add: div_mult2_eq [symmetric])

lemma replicate_23: "replicate 2 x = [x, x]" "replicate 3 x = [x, x, x]"
  by (simp_all add: numeral_2_eq_2 numeral_3_eq_3)

lemma hex_word:
  assumes "n < 65536"
  shows "setw0 4 (show_hex n) = [hex_digit (n div 4096), hex_digit (n div 256 mod 16),
    hex_digit (n div 16 mod 16), hex_digit (n mod 16)]"
proof -
  have zero: "CHR ''0'' = hex_digit 0" by (simp add: hex_digit_def)
  consider "n < 16" | "16 \<le> n" "n < 256" | "256 \<le> n" "n < 4096" | "4096 \<le> n"
    by linarith
  then show ?thesis
  proof cases
    case 1
    then show ?thesis by (simp add: setw0_def show_hex_small zero replicate_23)
  next
    case 2
    then have "n div 16 < 16" by simp
    with 2 have "show_hex n = [hex_digit (n div 16), hex_digit (n mod 16)]"
      by (simp only: show_hex_big show_hex_small append.simps)
    with 2 \<open>n div 16 < 16\<close> show ?thesis
      by (simp add: setw0_def zero replicate_23)
  next
    case 3
    then have q: "n div 256 < 16" "16 \<le> n div 16" "16 \<le> n" by simp_all
    then have "show_hex n = [hex_digit (n div 256), hex_digit (n div 16 mod 16), hex_digit (n mod 16)]"
      by (simp only: show_hex_big show_hex_small div_16_16 append.simps)
    with 3 q show ?thesis
      by (simp add: setw0_def zero)
  next
    case 4
    with assms have q: "n div 4096 < 16" "16 \<le> n div 256" "16 \<le> n div 16" "16 \<le> n" by simp_all
    then have "show_hex n = [hex_digit (n div 4096), hex_digit (n div 256 mod 16),
        hex_digit (n div 16 mod 16), hex_digit (n mod 16)]"
      by (simp only: show_hex_big show_hex_small div_16_16 append.simps)
    then show ?thesis by (simp add: setw0_def)
  qed
qed

section \<open>The readers undo the printers\<close>

lemma takeWhile_all: "\<forall>c \<in> set s. p c \<Longrightarrow> takeWhile p s = s"
  by (simp add: takeWhile_eq_all_conv)

lemma show_dec_digits: "c \<in> set (show_dec n) \<Longrightarrow> isdigit c"
proof (induction n rule: show_dec.induct)
  case (1 n)
  then show ?case
    by (cases "n < 10") (auto simp: show_dec.simps [of n])
qed

lemma show_dec_nonempty [simp]: "show_dec n \<noteq> []"
  by (simp add: show_dec.simps [of n])

lemma read_show_dec: "read_digits 10 isdigit (show_dec n) = n"
proof -
  have "foldl (\<lambda>n c. n * 10 + digit_value c) 0 (show_dec n) = n"
  proof (induction n rule: show_dec.induct)
    case (1 n)
    then show ?case
      by (cases "n < 10") (simp_all add: show_dec.simps [of n])
  qed
  moreover have "takeWhile isdigit (show_dec n) = show_dec n"
    by (rule takeWhile_all) (blast dest: show_dec_digits)
  ultimately show ?thesis by (simp only: read_digits_def)
qed

lemma cast_int_small: "- (2 ^ 31) \<le> i \<Longrightarrow> i < 2 ^ 31 \<Longrightarrow> cast_int i = i"
  by (simp add: cast_int_def)

lemma not_sign: "isdigit c \<Longrightarrow> c \<noteq> CHR ''-'' \<and> c \<noteq> CHR ''+''"
  by (auto simp: isdigit_def)

lemma atoi_show_int:
  assumes "- (2 ^ 31) \<le> i" and "i < 2 ^ 31"
  shows "atoi (show_int i) = i"
proof (cases "i < 0")
  case True
  with assms show ?thesis
    by (simp add: atoi_def show_int_def read_show_dec cast_int_small max_def min_def)
next
  case False
  obtain c cs where s: "show_dec (nat i) = c # cs"
    by (cases "show_dec (nat i)") auto
  then have "isdigit c" using show_dec_digits [of c "nat i"] by simp
  then have "c \<noteq> CHR ''-''" "c \<noteq> CHR ''+''" by (simp_all add: not_sign)
  moreover have "read_digits 10 isdigit (c # cs) = nat i" using read_show_dec [of "nat i"] s by simp
  ultimately show ?thesis
    using assms False by (simp add: atoi_def show_int_def s cast_int_small max_def min_def)
qed

lemma strtoul16_byte:
  assumes "n < 256"
  shows "strtoul16 [hex_digit (n div 16), hex_digit (n mod 16)] = int n"
  using assms by (simp add: strtoul16_def read_digits_def min_def)

lemma strtoul16_word:
  assumes "n < 65536"
  shows "strtoul16 [hex_digit (n div 4096), hex_digit (n div 256 mod 16),
    hex_digit (n div 16 mod 16), hex_digit (n mod 16)] = int n"
proof -
  have "((n div 4096 * 16 + n div 256 mod 16) * 16 + n div 16 mod 16) * 16 + n mod 16 = n"
    using div_mult_mod_eq [of n 16] div_mult_mod_eq [of "n div 16" 16]
      div_mult_mod_eq [of "n div 256" 16] by (simp only: div_16_16)
  with assms show ?thesis by (simp add: strtoul16_def read_digits_def min_def)
qed

end
