(* ===== verification/Disassembler.thy ===== *)
theory Disassembler
  imports Text_Format Opcode_Matrix
begin

text \<open>
  \<^verbatim>\<open>src/unasm.cpp\<close>: \<open>UnAsm::unasm_line\<close> decodes one instruction from the \<open>aaabbbcc\<close> fields of its
  opcode and prints it. Reads go through the bus and may change its state, so every function
  passes the state on, and the program counter is the \<open>uint16& at\<close> of the source. The lemmas
  compare the decoder, which has no table of addressing modes, with the opcode matrix that the
  processor executes: what it prints is the mnemonic and the operand of the table's entry, and
  it moves over exactly the bytes that the table's addressing mode takes.
\<close>

section \<open>The mnemonics\<close>

definition instruction_names :: "string option list" where
  "instruction_names = map Some
    [''BRK'', ''ORA'', ''KIL'', ''SLO'', ''NOP'', ''ORA'', ''ASL'', ''SLO'',
     ''PHP'', ''ORA'', ''ASL'', ''ANC'', ''NOP'', ''ORA'', ''ASL'', ''SLO'',
     ''BPL'', ''ORA'', ''KIL'', ''SLO'', ''NOP'', ''ORA'', ''ASL'', ''SLO'',
     ''CLC'', ''ORA'', ''NOP'', ''SLO'', ''NOP'', ''ORA'', ''ASL'', ''SLO'',
     ''JSR'', ''AND'', ''KIL'', ''RLA'', ''BIT'', ''AND'', ''ROL'', ''RLA'',
     ''PLP'', ''AND'', ''ROL'', ''ANC'', ''BIT'', ''AND'', ''ROL'', ''RLA'',
     ''BMI'', ''AND'', ''KIL'', ''RLA'', ''NOP'', ''AND'', ''ROL'', ''RLA'',
     ''SEC'', ''AND'', ''NOP'', ''RLA'', ''NOP'', ''AND'', ''ROL'', ''RLA'',
     ''RTI'', ''EOR'', ''KIL'', ''SRE'', ''NOP'', ''EOR'', ''LSR'', ''SRE'',
     ''PHA'', ''EOR'', ''LSR'', ''ALR'', ''JMP'', ''EOR'', ''LSR'', ''SRE'',
     ''BVC'', ''EOR'', ''KIL'', ''SRE'', ''NOP'', ''EOR'', ''LSR'', ''SRE'',
     ''CLI'', ''EOR'', ''NOP'', ''SRE'', ''NOP'', ''EOR'', ''LSR'', ''SRE'',
     ''RTS'', ''ADC'', ''KIL'', ''RRA'', ''NOP'', ''ADC'', ''ROR'', ''RRA'',
     ''PLA'', ''ADC'', ''ROR'', ''ARR'', ''JMP'', ''ADC'', ''ROR'', ''RRA'',
     ''BVS'', ''ADC'', ''KIL'', ''RRA'', ''NOP'', ''ADC'', ''ROR'', ''RRA'',
     ''SEI'', ''ADC'', ''NOP'', ''RRA'', ''NOP'', ''ADC'', ''ROR'', ''RRA'',
     ''NOP'', ''STA'', ''NOP'', ''SAX'', ''STY'', ''STA'', ''STX'', ''SAX'',
     ''DEY'', ''NOP'', ''TXA'', ''XAA'', ''STY'', ''STA'', ''STX'', ''SAX'',
     ''BCC'', ''STA'', ''KIL'', ''SHA'', ''STY'', ''STA'', ''STX'', ''SAX'',
     ''TYA'', ''STA'', ''TXS'', ''TAS'', ''SHY'', ''STA'', ''SHX'', ''SHA'',
     ''LDY'', ''LDA'', ''LDX'', ''LAX'', ''LDY'', ''LDA'', ''LDX'', ''LAX'',
     ''TAY'', ''LDA'', ''TAX'', ''LXA'', ''LDY'', ''LDA'', ''LDX'', ''LAX'',
     ''BCS'', ''LDA'', ''KIL'', ''LAX'', ''LDY'', ''LDA'', ''LDX'', ''LAX'',
     ''CLV'', ''LDA'', ''TSX'', ''LAS'', ''LDY'', ''LDA'', ''LDX'', ''LAX'',
     ''CPY'', ''CMP'', ''NOP'', ''DCP'', ''CPY'', ''CMP'', ''DEC'', ''DCP'',
     ''INY'', ''CMP'', ''DEX'', ''SBX'', ''CPY'', ''CMP'', ''DEC'', ''DCP'',
     ''BNE'', ''CMP'', ''KIL'', ''DCP'', ''NOP'', ''CMP'', ''DEC'', ''DCP'',
     ''CLD'', ''CMP'', ''NOP'', ''DCP'', ''NOP'', ''CMP'', ''DEC'', ''DCP'',
     ''CPX'', ''SBC'', ''NOP'', ''ISC'', ''CPX'', ''SBC'', ''INC'', ''ISC'',
     ''INX'', ''SBC'', ''NOP'', ''SBC'', ''CPX'', ''SBC'', ''INC'', ''ISC'',
     ''BEQ'', ''SBC'', ''KIL'', ''ISC'', ''NOP'', ''SBC'', ''INC'', ''ISC'',
     ''SED'', ''SBC'', ''NOP'', ''ISC'', ''NOP'', ''SBC'', ''INC'', ''ISC'']"

section \<open>The operands\<close>

type_synonym 'b printer = "'b Bus \<Rightarrow> uint16 \<Rightarrow> 'b \<Rightarrow> string \<times> uint16 \<times> 'b"

definition hex2 :: "uint8 \<Rightarrow> string" where
  "hex2 data = setw0 2 (show_hex (unat data))"

definition hex4 :: "uint16 \<Rightarrow> string" where
  "hex4 data = setw0 4 (show_hex (unat data))"

definition read_byte :: "'b Bus \<Rightarrow> uint16 \<Rightarrow> 'b \<Rightarrow> uint8 \<times> uint16 \<times> 'b" where
  "read_byte B at s = (let (data, s) = bus_read B at s in (data, at + 1, s))"

definition read_word :: "'b Bus \<Rightarrow> uint16 \<Rightarrow> 'b \<Rightarrow> uint16 \<times> uint16 \<times> 'b" where
  "read_word B at s =
     (let (lo, s) = bus_read B at s; (hi, s) = bus_read B (at + 1) s
      in (ucast lo OR push_bit 8 (ucast hi), at + 1 + 1, s))"

definition getIndXParams :: "'b printer" where
  "getIndXParams B at s =
     (let (data, at, s) = read_byte B at s in (''($'' @ hex2 data @ '',X)'', at, s))"

definition getIndYParams :: "'b printer" where
  "getIndYParams B at s =
     (let (data, at, s) = read_byte B at s in (''($'' @ hex2 data @ ''),Y'', at, s))"

definition getInd2Params :: "'b printer" where
  "getInd2Params B at s =
     (let (data, at, s) = read_word B at s in (''($'' @ hex4 data @ '')'', at, s))"

definition getZPgParams :: "'b printer" where
  "getZPgParams B at s =
     (let (data, at, s) = read_byte B at s in (''$'' @ hex2 data, at, s))"

definition getImmParams :: "'b printer" where
  "getImmParams B at s =
     (let (data, at, s) = read_byte B at s in (''#$'' @ hex2 data, at, s))"

definition getRelParams :: "'b printer" where
  "getRelParams B at s =
     (let (data, at, s) = read_byte B at s in (show_int (sint data), at, s))"

definition getAbsParams :: "'b printer" where
  "getAbsParams B at s =
     (let (data, at, s) = read_word B at s in (''$'' @ hex4 data, at, s))"

section \<open>One line\<close>

text \<open>
  \<open>operand get suffix\<close> is the \<open>return res + " " + get(_bus, _regs->pc) + suffix\<close> of the switch,
  \<open>bare suffix\<close> a return without operand. The four columns are its four outer cases.
\<close>

definition bare :: "string \<Rightarrow> string \<Rightarrow> uint16 \<Rightarrow> 'b \<Rightarrow> string \<times> uint16 \<times> 'b" where
  "bare suffix res at s = (res @ suffix, at, s)"

definition operand ::
  "'b printer \<Rightarrow> string \<Rightarrow> 'b Bus \<Rightarrow> string \<Rightarrow> uint16 \<Rightarrow> 'b \<Rightarrow> string \<times> uint16 \<times> 'b" where
  "operand get suffix B res at s =
     (let (txt, at, s) = get B at s in (res @ '' '' @ txt @ suffix, at, s))"

definition index_suffix :: "uint8 \<Rightarrow> string" where
  "index_suffix a = (if a = 4 \<or> a = 5 then '',Y'' else '',X'')"

definition column_0 ::
  "uint8 \<Rightarrow> uint8 \<Rightarrow> 'b Bus \<Rightarrow> string \<Rightarrow> uint16 \<Rightarrow> 'b \<Rightarrow> string \<times> uint16 \<times> 'b" where
  "column_0 a b B =
     (if b = 0 then
        (if a = 1 then operand getAbsParams [] B
         else if a < 4 then bare []
         else operand getImmParams [] B)
      else if b = 1 then operand getZPgParams [] B
      else if b = 2 then bare []
      else if b = 3 then
        (if a = 3 then operand getInd2Params [] B else operand getAbsParams [] B)
      else if b = 4 then operand getRelParams [] B
      else if b = 5 then operand getZPgParams '', X'' B
      else if b = 6 then bare []
      else operand getAbsParams '', X'' B)"

definition column_1 ::
  "uint8 \<Rightarrow> 'b Bus \<Rightarrow> string \<Rightarrow> uint16 \<Rightarrow> 'b \<Rightarrow> string \<times> uint16 \<times> 'b" where
  "column_1 b B =
     (if b = 0 then operand getIndXParams [] B
      else if b = 1 then operand getZPgParams [] B
      else if b = 2 then operand getImmParams [] B
      else if b = 3 then operand getAbsParams [] B
      else if b = 4 then operand getIndYParams [] B
      else if b = 5 then operand getZPgParams '', X'' B
      else if b = 6 then operand getAbsParams '', Y'' B
      else operand getAbsParams '', X'' B)"

definition column_2 ::
  "uint8 \<Rightarrow> uint8 \<Rightarrow> 'b Bus \<Rightarrow> string \<Rightarrow> uint16 \<Rightarrow> 'b \<Rightarrow> string \<times> uint16 \<times> 'b" where
  "column_2 a b B =
     (if b = 0 then (if a < 4 then bare [] else operand getImmParams [] B)
      else if b = 1 then operand getZPgParams [] B
      else if b = 2 then (if a < 4 then bare '' A'' else bare [])
      else if b = 3 then operand getAbsParams [] B
      else if b = 4 then bare []
      else if b = 5 then operand getZPgParams (index_suffix a) B
      else if b = 6 then bare []
      else operand getAbsParams (index_suffix a) B)"

definition column_3 ::
  "uint8 \<Rightarrow> uint8 \<Rightarrow> 'b Bus \<Rightarrow> string \<Rightarrow> uint16 \<Rightarrow> 'b \<Rightarrow> string \<times> uint16 \<times> 'b" where
  "column_3 a b B =
     (if b = 0 then operand getIndXParams [] B
      else if b = 1 then operand getZPgParams [] B
      else if b = 2 then operand getImmParams [] B
      else if b = 3 then operand getAbsParams [] B
      else if b = 4 then operand getIndYParams [] B
      else if b = 5 then operand getZPgParams (index_suffix a) B
      else if b = 6 then operand getAbsParams '',Y'' B
      else operand getAbsParams (index_suffix a) B)"

definition unasm_at :: "'b printer" where
  "unasm_at B at s =
     (let (instr, s) = bus_read B at s; at = at + 1
      in case instruction_names ! unat instr of
           None \<Rightarrow> (''$'' @ hex2 instr, at, s)
         | Some res \<Rightarrow>
             let c = instr AND 0x03;
                 b = drop_bit 2 (instr AND 0x1c);
                 a = drop_bit 5 (instr AND 0xe0)
             in if c = 0 then column_0 a b B res at s
                else if c = 1 then column_1 b B res at s
                else if c = 2 then column_2 a b B res at s
                else column_3 a b B res at s)"

text \<open>
  The two overloads: over a register file, whose program counter moves on, and over an address.
\<close>

definition unasm_line :: "'b Bus \<Rightarrow> Registers \<Rightarrow> 'b \<Rightarrow> string \<times> Registers \<times> 'b" where
  "unasm_line B r s =
     (let (txt, at, s) = unasm_at B (reg_pc r) s in (txt, r\<lparr>reg_pc := at\<rparr>, s))"

definition unasm_line_addr :: "'b Bus \<Rightarrow> uint16 \<Rightarrow> 'b \<Rightarrow> string \<times> 'b" where
  "unasm_line_addr B at s =
     (let (txt, r, s) = unasm_line B (Registers_zero\<lparr>reg_pc := at\<rparr>) s in (txt, s))"

section \<open>What the table says\<close>

primrec impl_name :: "Impl \<Rightarrow> string" where
  "impl_name ADC_Impl = ''ADC''"
| "impl_name AND_Impl = ''AND''"
| "impl_name ASL_Impl = ''ASL''"
| "impl_name BCC_Impl = ''BCC''"
| "impl_name BCS_Impl = ''BCS''"
| "impl_name BEQ_Impl = ''BEQ''"
| "impl_name BIT_Impl = ''BIT''"
| "impl_name BMI_Impl = ''BMI''"
| "impl_name BNE_Impl = ''BNE''"
| "impl_name BPL_Impl = ''BPL''"
| "impl_name BRK_Impl = ''BRK''"
| "impl_name BVC_Impl = ''BVC''"
| "impl_name BVS_Impl = ''BVS''"
| "impl_name CLC_Impl = ''CLC''"
| "impl_name CLD_Impl = ''CLD''"
| "impl_name CLI_Impl = ''CLI''"
| "impl_name CLV_Impl = ''CLV''"
| "impl_name CMP_Impl = ''CMP''"
| "impl_name CPX_Impl = ''CPX''"
| "impl_name CPY_Impl = ''CPY''"
| "impl_name DEC_Impl = ''DEC''"
| "impl_name DEX_Impl = ''DEX''"
| "impl_name DEY_Impl = ''DEY''"
| "impl_name EOR_Impl = ''EOR''"
| "impl_name INC_Impl = ''INC''"
| "impl_name INX_Impl = ''INX''"
| "impl_name INY_Impl = ''INY''"
| "impl_name JMP_Impl = ''JMP''"
| "impl_name JSR_Impl = ''JSR''"
| "impl_name LDA_Impl = ''LDA''"
| "impl_name LDX_Impl = ''LDX''"
| "impl_name LDY_Impl = ''LDY''"
| "impl_name LSR_Impl = ''LSR''"
| "impl_name NOP_Impl = ''NOP''"
| "impl_name NOPR_Impl = ''NOP''"
| "impl_name ORA_Impl = ''ORA''"
| "impl_name PHA_Impl = ''PHA''"
| "impl_name PHP_Impl = ''PHP''"
| "impl_name PLA_Impl = ''PLA''"
| "impl_name PLP_Impl = ''PLP''"
| "impl_name ROL_Impl = ''ROL''"
| "impl_name ROR_Impl = ''ROR''"
| "impl_name RTI_Impl = ''RTI''"
| "impl_name RTS_Impl = ''RTS''"
| "impl_name SBC_Impl = ''SBC''"
| "impl_name SEC_Impl = ''SEC''"
| "impl_name SED_Impl = ''SED''"
| "impl_name SEI_Impl = ''SEI''"
| "impl_name STA_Impl = ''STA''"
| "impl_name STX_Impl = ''STX''"
| "impl_name STY_Impl = ''STY''"
| "impl_name TAX_Impl = ''TAX''"
| "impl_name TAY_Impl = ''TAY''"
| "impl_name TSX_Impl = ''TSX''"
| "impl_name TXA_Impl = ''TXA''"
| "impl_name TXS_Impl = ''TXS''"
| "impl_name TYA_Impl = ''TYA''"
| "impl_name LAX_Impl = ''LAX''"
| "impl_name SAX_Impl = ''SAX''"
| "impl_name DCP_Impl = ''DCP''"
| "impl_name ISC_Impl = ''ISC''"
| "impl_name SLO_Impl = ''SLO''"
| "impl_name RLA_Impl = ''RLA''"
| "impl_name SRE_Impl = ''SRE''"
| "impl_name RRA_Impl = ''RRA''"
| "impl_name ANC_Impl = ''ANC''"
| "impl_name ALR_Impl = ''ALR''"
| "impl_name ARR_Impl = ''ARR''"
| "impl_name SBX_Impl = ''SBX''"
| "impl_name LAS_Impl = ''LAS''"
| "impl_name XAA_Impl = ''XAA''"
| "impl_name KIL_Impl = ''KIL''"

text \<open>
  The \<open>LAX\<close> implementation with an immediate operand is the unstable opcode known as LXA, and the four
  stores that the template \<open>SHx_Impl\<close> makes are told apart by its register parameter.
\<close>

fun mnemonic :: "BaseInstruction \<Rightarrow> string" where
  "mnemonic (Inst I mode n) =
     (if I = LAX_Impl \<and> mode = Immediate then ''LXA'' else impl_name I)"
| "mnemonic (SHx_Inst mode n Reg) = [''SHA'', ''SHX'', ''SHY'', ''TAS''] ! Reg"

fun mode_of :: "BaseInstruction \<Rightarrow> Params" where
  "mode_of (Inst I mode n) = mode"
| "mode_of (SHx_Inst ByAbsoluteX n Reg) = AbsoluteX"
| "mode_of (SHx_Inst ByAbsoluteY n Reg) = AbsoluteY"
| "mode_of (SHx_Inst ByIndirectY n Reg) = IndirectY"

text \<open>The operand of a mode in 6502 syntax, for the two bytes that follow the opcode.\<close>

fun operand_syntax :: "Params \<Rightarrow> uint8 \<Rightarrow> uint8 \<Rightarrow> string" where
  "operand_syntax Null lo hi = []"
| "operand_syntax Accumulator lo hi = ''A''"
| "operand_syntax Immediate lo hi = ''#$'' @ hex2 lo"
| "operand_syntax Relative lo hi = show_int (sint lo)"
| "operand_syntax AbsConst lo hi = ''$'' @ hex4 (le16 lo hi)"
| "operand_syntax ZeroPage lo hi = ''$'' @ hex2 lo"
| "operand_syntax ZeroPageX lo hi = ''$'' @ hex2 lo @ '',X''"
| "operand_syntax ZeroPageY lo hi = ''$'' @ hex2 lo @ '',Y''"
| "operand_syntax Absolute lo hi = ''$'' @ hex4 (le16 lo hi)"
| "operand_syntax AbsoluteX lo hi = ''$'' @ hex4 (le16 lo hi) @ '',X''"
| "operand_syntax AbsoluteY lo hi = ''$'' @ hex4 (le16 lo hi) @ '',Y''"
| "operand_syntax Indirect lo hi = ''($'' @ hex4 (le16 lo hi) @ '')''"
| "operand_syntax IndirectX lo hi = ''($'' @ hex2 lo @ '',X)''"
| "operand_syntax IndirectY lo hi = ''($'' @ hex2 lo @ ''),Y''"


section \<open>The decoder as a function\<close>

text \<open>
  Which addressing mode each case of the switch prints, and whether it writes a blank before the
  index register. \<open>AbsConst\<close>, the operand of JSR and of the direct JMP, is printed as \<open>Absolute\<close>.
\<close>

definition decoded_0 :: "uint8 \<Rightarrow> uint8 \<Rightarrow> Params \<times> bool" where
  "decoded_0 a b =
     (if b = 0 then (if a = 1 then Absolute else if a < 4 then Null else Immediate, False)
      else if b = 1 then (ZeroPage, False)
      else if b = 2 then (Null, False)
      else if b = 3 then (if a = 3 then Indirect else Absolute, False)
      else if b = 4 then (Relative, False)
      else if b = 5 then (ZeroPageX, True)
      else if b = 6 then (Null, False)
      else (AbsoluteX, True))"

definition decoded_1 :: "uint8 \<Rightarrow> Params \<times> bool" where
  "decoded_1 b =
     (if b = 0 then (IndirectX, False)
      else if b = 1 then (ZeroPage, False)
      else if b = 2 then (Immediate, False)
      else if b = 3 then (Absolute, False)
      else if b = 4 then (IndirectY, False)
      else if b = 5 then (ZeroPageX, True)
      else if b = 6 then (AbsoluteY, True)
      else (AbsoluteX, True))"

definition decoded_2 :: "uint8 \<Rightarrow> uint8 \<Rightarrow> Params \<times> bool" where
  "decoded_2 a b =
     (if b = 0 then (if a < 4 then Null else Immediate, False)
      else if b = 1 then (ZeroPage, False)
      else if b = 2 then (if a < 4 then Accumulator else Null, False)
      else if b = 3 then (Absolute, False)
      else if b = 4 then (Null, False)
      else if b = 5 then (if a = 4 \<or> a = 5 then ZeroPageY else ZeroPageX, False)
      else if b = 6 then (Null, False)
      else (if a = 4 \<or> a = 5 then AbsoluteY else AbsoluteX, False))"

definition decoded_3 :: "uint8 \<Rightarrow> uint8 \<Rightarrow> Params \<times> bool" where
  "decoded_3 a b =
     (if b = 0 then (IndirectX, False)
      else if b = 1 then (ZeroPage, False)
      else if b = 2 then (Immediate, False)
      else if b = 3 then (Absolute, False)
      else if b = 4 then (IndirectY, False)
      else if b = 5 then (if a = 4 \<or> a = 5 then ZeroPageY else ZeroPageX, False)
      else if b = 6 then (AbsoluteY, False)
      else (if a = 4 \<or> a = 5 then AbsoluteY else AbsoluteX, False))"

definition decoded :: "uint8 \<Rightarrow> Params \<times> bool" where
  "decoded instr =
     (let c = instr AND 0x03; b = drop_bit 2 (instr AND 0x1c); a = drop_bit 5 (instr AND 0xe0)
      in if c = 0 then decoded_0 a b else if c = 1 then decoded_1 b
         else if c = 2 then decoded_2 a b else decoded_3 a b)"

definition spaced :: "bool \<Rightarrow> string \<Rightarrow> string" where
  "spaced blank txt =
     concat (map (\<lambda>ch. if blank \<and> ch = CHR '','' then '', '' else [ch]) txt)"

definition separated :: "string \<Rightarrow> string" where
  "separated txt = (if txt = [] then [] else CHR '' '' # txt)"

definition line_text :: "uint8 \<Rightarrow> uint8 \<Rightarrow> uint8 \<Rightarrow> string" where
  "line_text instr lo hi =
     the (instruction_names ! unat instr) @
     separated (case decoded instr of (mode, blank) \<Rightarrow> spaced blank (operand_syntax mode lo hi))"

section \<open>The decoder agrees with the opcode matrix\<close>

definition entry_ok :: "uint8 \<Rightarrow> BaseInstruction \<times> string option \<Rightarrow> bool" where
  "entry_ok code e =
     (case e of (i, name) \<Rightarrow> name = Some (mnemonic i) \<and>
        (fst (decoded code) = mode_of i \<or> fst (decoded code) = Absolute \<and> mode_of i = AbsConst))"

lemma instruction_names_length [simp]: "length instruction_names = 256"
  by (simp add: instruction_names_def)

lemma entries_ok: "table_all entry_ok 0 (zip instruction_table instruction_names)"
  by code_simp

lemma decoder_agrees:
  "instruction_names ! unat code = Some (mnemonic (instr_of code)) \<and>
   (fst (decoded code) = mode_of (instr_of code) \<or>
    fst (decoded code) = Absolute \<and> mode_of (instr_of code) = AbsConst)"
proof -
  have "unat code < 256" using unsigned_less [of code] by simp
  then show ?thesis
    using table_all_byte [OF entries_ok, of code] by (simp add: entry_ok_def instr_of_def)
qed

lemma decoded_len: "operand_len (fst (decoded code)) = operand_len (mode_of (instr_of code))"
  using decoder_agrees [of code] by auto

lemma decoded_syntax:
  "operand_syntax (fst (decoded code)) lo hi = operand_syntax (mode_of (instr_of code)) lo hi"
  using decoder_agrees [of code] by auto

lemma line_text_eq:
  "line_text code lo hi = mnemonic (instr_of code) @
     separated (spaced (snd (decoded code)) (operand_syntax (mode_of (instr_of code)) lo hi))"
  using decoder_agrees [of code] decoded_syntax [of code lo hi]
  by (simp add: line_text_def case_prod_beta)


lemma spaced_append [simp]: "spaced blank (s @ t) = spaced blank s @ spaced blank t"
  by (simp add: spaced_def)

lemma spaced_Nil [simp]: "spaced blank [] = []"
  by (simp add: spaced_def)

lemma spaced_Cons [simp]:
  "spaced blank (ch # s) =
     (if blank \<and> ch = CHR '','' then CHR '','' # CHR '' '' # spaced blank s else ch # spaced blank s)"
  by (simp add: spaced_def)

lemma spaced_no_comma: "CHR '','' \<notin> set s \<Longrightarrow> spaced blank s = s"
  by (induction s) (auto split: if_splits)

lemma spaced_False [simp]: "spaced False s = s"
  by (induction s) simp_all

lemma xdigit_not_comma: "isxdigit c \<Longrightarrow> c \<noteq> CHR '',''"
  by (auto simp: ctype_defs split: if_splits)

lemma hex2_digits [code]: "hex2 w = [hex_digit (unat w div 16), hex_digit (unat w mod 16)]"
  using unat8_less [of w] by (simp add: hex2_def hex_byte)

lemma hex4_digits [code]: "hex4 w = [hex_digit (unat w div 4096), hex_digit (unat w div 256 mod 16),
    hex_digit (unat w div 16 mod 16), hex_digit (unat w mod 16)]"
  using unat16_less [of w] by (simp add: hex4_def hex_word)

lemma high_digits: "unat (v :: uint8) div 16 < 16" "unat (w :: uint16) div 4096 < 16"
  using unat8_less [of v] unat16_less [of w] by linarith+

lemma hex2_xdigits: "c \<in> set (hex2 v) \<Longrightarrow> isxdigit c"
  and hex4_xdigits: "c \<in> set (hex4 w) \<Longrightarrow> isxdigit c"
  using high_digits(1) [of v] high_digits(2) [of w] by (auto simp: hex2_digits hex4_digits)

lemma spaced_hex2 [simp]: "spaced blank (hex2 v) = hex2 v"
  and spaced_hex4 [simp]: "spaced blank (hex4 w) = hex4 w"
  by (rule spaced_no_comma, blast dest: hex2_xdigits hex4_xdigits xdigit_not_comma)+

lemma show_int_nonempty [simp]: "show_int i \<noteq> []"
  by (simp add: show_int_def)

lemma word_of_bytes: "ucast lo OR push_bit 8 (ucast hi) = le16 lo hi"
  by (simp add: le16_def or.commute)

lemmas printer_defs = operand_def bare_def getIndXParams_def getIndYParams_def getInd2Params_def
  getZPgParams_def getImmParams_def getRelParams_def getAbsParams_def read_byte_def read_word_def
  index_suffix_def word_of_bytes separated_def

context ram_bus
begin

lemma column_0_ram:
  assumes "inv s"
  shows "fst (column_0 a b B res at s) = res @ separated (spaced (snd (decoded_0 a b))
      (operand_syntax (fst (decoded_0 a b)) (view s at) (view s (at + 1))))"
    and "fst (snd (column_0 a b B res at s)) = at + of_nat (operand_len (fst (decoded_0 a b)))"
    and "view (snd (snd (column_0 a b B res at s))) = view s"
    and "inv (snd (snd (column_0 a b B res at s)))"
  using assms by (auto simp: column_0_def decoded_0_def printer_defs Let_def case_prod_beta)

lemma column_1_ram:
  assumes "inv s"
  shows "fst (column_1 b B res at s) = res @ separated (spaced (snd (decoded_1 b))
      (operand_syntax (fst (decoded_1 b)) (view s at) (view s (at + 1))))"
    and "fst (snd (column_1 b B res at s)) = at + of_nat (operand_len (fst (decoded_1 b)))"
    and "view (snd (snd (column_1 b B res at s))) = view s"
    and "inv (snd (snd (column_1 b B res at s)))"
  using assms by (auto simp: column_1_def decoded_1_def printer_defs Let_def case_prod_beta)

lemma column_2_ram:
  assumes "inv s"
  shows "fst (column_2 a b B res at s) = res @ separated (spaced (snd (decoded_2 a b))
      (operand_syntax (fst (decoded_2 a b)) (view s at) (view s (at + 1))))"
    and "fst (snd (column_2 a b B res at s)) = at + of_nat (operand_len (fst (decoded_2 a b)))"
    and "view (snd (snd (column_2 a b B res at s))) = view s"
    and "inv (snd (snd (column_2 a b B res at s)))"
  using assms by (auto simp: column_2_def decoded_2_def printer_defs Let_def case_prod_beta)

lemma column_3_ram:
  assumes "inv s"
  shows "fst (column_3 a b B res at s) = res @ separated (spaced (snd (decoded_3 a b))
      (operand_syntax (fst (decoded_3 a b)) (view s at) (view s (at + 1))))"
    and "fst (snd (column_3 a b B res at s)) = at + of_nat (operand_len (fst (decoded_3 a b)))"
    and "view (snd (snd (column_3 a b B res at s))) = view s"
    and "inv (snd (snd (column_3 a b B res at s)))"
  using assms by (auto simp: column_3_def decoded_3_def printer_defs Let_def case_prod_beta)

lemma unasm_at_ram:
  assumes "inv s" and "unasm_at B at s = (txt, at', s')"
  shows "txt = line_text (view s at) (view s (at + 1)) (view s (at + 2))"
    and "at' = at + 1 + of_nat (operand_len (mode_of (instr_of (view s at))))"
    and "view s' = view s" and "inv s'"
proof -
  let ?code = "view s at" and ?s = "snd (bus_read B at s)"
  have s: "inv ?s" "view ?s = view s" using assms(1) by simp_all
  note col = column_0_ram [OF s(1)] column_1_ram [OF s(1)] column_2_ram [OF s(1)]
    column_3_ram [OF s(1)]
  note eq = assms(2) [unfolded unasm_at_def Let_def case_prod_beta, simplified read_fst [OF assms(1)]
      decoder_agrees option.case]
  show "txt = line_text ?code (view s (at + 1)) (view s (at + 2))"
    using arg_cong [OF eq, of fst] col s
    by (simp add: add.commute [of 2 at] line_text_def decoder_agrees decoded_def Let_def case_prod_beta split: if_splits)
  show "at' = at + 1 + of_nat (operand_len (mode_of (instr_of ?code)))"
    using arg_cong [OF eq, of "\<lambda>p. fst (snd p)"] col
    by (simp add: decoded_len [symmetric] decoded_def Let_def split: if_splits)
  show "view s' = view s" "inv s'"
    using arg_cong [OF eq [symmetric], of "\<lambda>p. snd (snd p)"] col s
    by (simp_all add: split: if_splits)
qed

end


section \<open>The disassembler reads the opcode matrix\<close>

abbreviation unblank :: "string \<Rightarrow> string" where
  "unblank \<equiv> filter (\<lambda>ch. ch \<noteq> CHR '' '')"

lemma unblank_id: "\<forall>ch \<in> set s. ch \<noteq> CHR '' '' \<Longrightarrow> unblank s = s"
  by (simp add: filter_id_conv)

lemma unblank_spaced [simp]: "unblank (spaced blank s) = unblank s"
  by (induction s) auto

lemma unblank_separated [simp]: "unblank (separated s) = unblank s"
  by (simp add: separated_def)

lemma xdigit_not_blank: "isxdigit c \<Longrightarrow> c \<noteq> CHR '' ''"
  by (auto simp: ctype_defs split: if_splits)

lemma unblank_hex [simp]: "unblank (hex2 v) = hex2 v" "unblank (hex4 w) = hex4 w"
  by (rule unblank_id, blast dest: hex2_xdigits hex4_xdigits xdigit_not_blank)+

lemma unblank_show_int [simp]: "unblank (show_int i) = show_int i"
  by (rule unblank_id)
    (auto simp: show_int_def dest: show_dec_digits digit_is_xdigit xdigit_not_blank)

lemma unblank_operand_syntax [simp]: "unblank (operand_syntax mode lo hi) = operand_syntax mode lo hi"
  by (cases mode) simp_all

lemma mnemonics_unblank:
  "table_all (\<lambda>code i. length (mnemonic i) = 3 \<and> list_all isupper (mnemonic i)) 0 instruction_table"
  by code_simp

lemma mnemonic_letters: "length (mnemonic (instr_of code)) = 3 \<and> list_all isupper (mnemonic (instr_of code))"
  by (rule instr_of_all [OF mnemonics_unblank])

lemma unblank_mnemonic [simp]: "unblank (mnemonic (instr_of code)) = mnemonic (instr_of code)"
proof (rule unblank_id)
  have "\<not> isupper (CHR '' '')" by (simp add: isupper_def)
  then show "\<forall>ch \<in> set (mnemonic (instr_of code)). ch \<noteq> CHR '' ''"
    using mnemonic_letters [of code] by (auto simp: list_all_iff)
qed

lemma unasm_line_ram:
  assumes "ram_bus B view ok" and "ok s" and "unasm_line B r s = (txt, r', s')"
  shows "unblank txt = mnemonic (instr_of (view s (reg_pc r))) @
      operand_syntax (mode_of (instr_of (view s (reg_pc r))))
        (view s (reg_pc r + 1)) (view s (reg_pc r + 2)) \<and>
    r' = r\<lparr>reg_pc := reg_pc r + 1 + of_nat (operand_len (mode_of (instr_of (view s (reg_pc r)))))\<rparr> \<and>
    view s' = view s \<and> ok s' \<and> unasm_line_addr B (reg_pc r) s = (txt, s')"
proof -
  let ?code = "view s (reg_pc r)" and ?len = "operand_len (mode_of (instr_of (view s (reg_pc r))))"
  obtain at' where u: "unasm_at B (reg_pc r) s = (txt, at', s')"
    and r': "r' = r\<lparr>reg_pc := at'\<rparr>"
    using assms(3) by (auto simp: unasm_line_def Let_def split: prod.splits)
  note ram = ram_bus.unasm_at_ram [OF assms(1,2) u]
  have "unblank txt = mnemonic (instr_of ?code) @
      operand_syntax (mode_of (instr_of ?code)) (view s (reg_pc r + 1)) (view s (reg_pc r + 2))"
    by (simp add: ram(1) line_text_eq)
  moreover have "r' = r\<lparr>reg_pc := reg_pc r + 1 + of_nat ?len\<rparr>"
    by (simp add: r' ram(2))
  moreover have "unasm_line_addr B (reg_pc r) s = (txt, s')"
    by (simp add: unasm_line_addr_def unasm_line_def u)
  ultimately show ?thesis using ram(3,4) by simp
qed

text \<open>
  C9: For each of the 256 opcodes, \<open>unasm_line\<close> prints the mnemonic of the instruction that the
  processor would execute and the operand of its addressing mode, taken from the bytes behind
  the opcode (blanks apart: the source writes \<open>", X"\<close> in some columns and \<open>",X"\<close> in others). It
  moves the program counter over the opcode and the operand bytes of that mode and changes
  neither another register nor memory; the overload for an address gives the same text.
\<close>

theorem unasm_line_reads_table:
  assumes "ram_bus B view ok" and "ok s" and "unasm_line B r s = (txt, r', s')"
  shows "unblank txt = mnemonic (instr_of (view s (reg_pc r))) @
      operand_syntax (mode_of (instr_of (view s (reg_pc r))))
        (view s (reg_pc r + 1)) (view s (reg_pc r + 2)) \<and>
    r' = r\<lparr>reg_pc := reg_pc r + 1 + of_nat (operand_len (mode_of (instr_of (view s (reg_pc r)))))\<rparr> \<and>
    view s' = view s \<and> ok s' \<and> unasm_line_addr B (reg_pc r) s = (txt, s')"
  by (rule unasm_line_ram [OF assms])

definition lda_at_0400 :: "uint16 \<Rightarrow> uint8" where
  "lda_at_0400 = (\<lambda>ad. if ad = 0x0400 then 0xB9 else if ad = 0x0401 then 0xCD else 0xAB)"

lemma unasm_line_reads_table_witness:
  "\<exists>txt r s. unasm_line array_Bus (Registers_zero\<lparr>reg_pc := 0x0400\<rparr>) lda_at_0400 = (txt, r, s)
    \<and> txt = ''LDA $abcd, Y'' \<and> unblank txt = ''LDA'' @ operand_syntax AbsoluteY 0xCD 0xAB
    \<and> reg_pc r = 0x0403 \<and> s = lda_at_0400"
proof -
  define L where "L = unasm_line array_Bus (Registers_zero\<lparr>reg_pc := 0x0400\<rparr>) lda_at_0400"
  have i: "instr_of 0xB9 = Inst LDA_Impl AbsoluteY 4"
    by (simp add: instr_of_def instruction_table_def row_defs)
  have n: "instruction_names ! 185 = Some ''LDA''"
    by (simp add: instruction_names_def)
  have "fst L = fst (column_1 6 array_Bus ''LDA'' 0x0401 lda_at_0400)"
    by (simp add: L_def unasm_line_def unasm_at_def lda_at_0400_def array_Bus_def Let_def n
        case_prod_beta)
  also have "\<dots> = ''LDA $'' @ hex4 (le16 0xCD 0xAB) @ '', Y''"
    by (simp add: column_1_def printer_defs lda_at_0400_def array_Bus_def)
  also have "\<dots> = ''LDA $abcd, Y''"
    by (simp add: hex4_digits le16_def hex_digit_def)
  finally have "fst L = ''LDA $abcd, Y''" .
  moreover obtain t r s where L: "L = (t, r, s)"
    by (cases L) auto
  moreover have "unblank t = ''LDA'' @ operand_syntax AbsoluteY 0xCD 0xAB"
    "reg_pc r = 0x0403" "s = lda_at_0400"
    using unasm_line_reads_table [OF array.ram_bus_axioms TrueI L [unfolded L_def]]
    by (simp_all add: i lda_at_0400_def)
  ultimately show ?thesis
    using L unfolding L_def by (intro exI [of _ t] exI [of _ r] exI [of _ s]) simp
qed

end
