(* ===== verification/Listing.thy ===== *)
theory Listing
  imports Disassembler Step_Refinement Interrupts
begin

text \<open>
  The disassembler beside the processor: a listing that walks a program with
  \<open>UnAsm::unasm_line\<close> stays in step with the execution of that program, which is what the source
  comment on the table of mnemonics asks for.
\<close>

section \<open>Instructions that leave the program counter alone\<close>

definition transfers :: "Impl \<Rightarrow> bool" where
  "transfers I \<longleftrightarrow> I \<in> set [BRK_Impl, JMP_Impl, JSR_Impl, RTI_Impl, RTS_Impl, KIL_Impl]"

lemma store_cpu_pc [simp]: "cPC (store_cpu l w c) = cPC c"
  by (cases l) simp_all

lemma pc_frame [simp]:
  "cPC (set_a w c) = cPC c" "cPC (set_x w c) = cPC c" "cPC (set_y w c) = cPC c"
  "cPC (nz_spec w c) = cPC c" "cPC (cmp_spec v w c) = cPC c" "cPC (adc_spec w c) = cPC c"
  "cPC (sbc_spec w c) = cPC c" "cPC (load_status w c) = cPC c"
  "cPC (fst (push_byte w c m)) = cPC c" "cPC (snd (pull_byte c m)) = cPC c"
  by (simp_all add: set_a_def set_x_def set_y_def nz_spec_def cmp_spec_def adc_spec_def
      adc_binary_def adc_decimal_def sbc_spec_def sbc_binary_def sbc_decimal_def load_status_def
      push_byte_def pull_byte_def Let_def)

lemma isa_keeps_pc:
  "\<not> transfers I \<Longrightarrow> \<not> branch_taken I c \<Longrightarrow> cPC (fst (isa I l c m)) = cPC c"
  by (cases I) (simp_all add: transfers_def branch_taken_def Let_def case_prod_beta)

lemma isa_branch_pc:
  "branch_taken I c \<Longrightarrow> cPC (fst (isa I l c m)) = branch_target (fetch8 l c m) (cPC c)"
  by (auto simp: branch_taken_def branch_to_def)

text \<open>What the table guarantees: an instruction without operand has no operand bytes, and the
  branches are the instructions with a relative operand.\<close>

definition table_shape :: "BaseInstruction \<Rightarrow> bool" where
  "table_shape i =
     (case i of
        Inst I M n \<Rightarrow> (implied I \<longrightarrow> operand_len M = 0) \<and>
          (I \<in> set [BCC_Impl, BCS_Impl, BNE_Impl, BEQ_Impl, BPL_Impl, BMI_Impl, BVC_Impl, BVS_Impl]
             \<longrightarrow> M = Relative)
      | SHx_Inst M n Reg \<Rightarrow> True)"

lemma table_shapes: "table_all (\<lambda>_. table_shape) 0 instruction_table"
  by code_simp

lemma branch_taken_relative: "table_shape (Inst I M n) \<Longrightarrow> branch_taken I c \<Longrightarrow> M = Relative"
  by (auto simp: table_shape_def branch_taken_def)

fun continues :: "BaseInstruction \<Rightarrow> cpu \<Rightarrow> bool" where
  "continues (Inst I M n) c \<longleftrightarrow> \<not> transfers I \<and> \<not> branch_taken I c"
| "continues (SHx_Inst M n Reg) c \<longleftrightarrow> True"

fun branches :: "BaseInstruction \<Rightarrow> cpu \<Rightarrow> bool" where
  "branches (Inst I M n) c \<longleftrightarrow> branch_taken I c"
| "branches (SHx_Inst M n Reg) c \<longleftrightarrow> False"

lemma branch_taken_pc [simp]: "branch_taken I (c\<lparr>cPC := u\<rparr>) = branch_taken I c"
  by (simp add: branch_taken_def)

lemma spec_step_continues:
  assumes "table_shape i" and "continues i c"
  shows "cPC (fst (snd (spec_step i c m))) = cPC c + of_nat (operand_len (mode_of i))"
proof (cases i)
  case (Inst I M n)
  with assms show ?thesis
    by (auto simp: isa_step_def Let_def isa_keeps_pc table_shape_def)
next
  case (SHx_Inst M n Reg)
  then show ?thesis by (cases M) (simp_all add: shx_step_def Let_def)
qed

lemma spec_step_branches:
  assumes "table_shape i" and "branches i c"
  shows "cPC (fst (snd (spec_step i c m))) = branch_target (m (cPC c)) (cPC c + 1)"
    and "mode_of i = Relative"
proof -
  obtain I n where i: "i = Inst I Relative n" and t: "branch_taken I c"
    using assms branch_taken_relative by (cases i) auto
  then have "\<not> implied I" using assms(1) by (auto simp: table_shape_def)
  with i t show "cPC (fst (snd (spec_step i c m))) = branch_target (m (cPC c)) (cPC c + 1)"
    by (simp add: isa_step_def Let_def isa_branch_pc)
  show "mode_of i = Relative" by (simp add: i)
qed

section \<open>The listing and the execution\<close>

text \<open>
  C17: Take a processor over RAM that is about to execute an instruction (no interrupt is taken) and
  disassemble at its program counter. If the instruction is neither a jump, a call, a return,
  BRK, KIL nor a branch that is taken, the processor continues at the address where the
  disassembler continues; if it is a branch that is taken, it continues at that address plus the signed
  displacement that the disassembler printed.
\<close>

theorem listing_in_step:
  fixes P :: "('b, 'k) Processor"
  assumes "ram_bus (v_bus E) view ok" and "ok (p_bus P)"
    and "\<not> m_nmi_pending P" and "\<not> m_irq_line P"
    and "unasm_line (v_bus E) (p_regs P) (p_bus P) = (txt, r', s')"
    and "i = instr_of (view (p_bus P) (reg_pc (p_regs P)))"
  shows "(continues i (abs_cpu (p_regs P)) \<longrightarrow> reg_pc (p_regs (step_core E P)) = reg_pc r')
    \<and> (branches i (abs_cpu (p_regs P)) \<longrightarrow> 
         (let d = sint (view (p_bus P) (reg_pc (p_regs P) + 1))
          in unblank txt = mnemonic i @ show_int d
             \<and> reg_pc (p_regs (step_core E P)) = reg_pc r' + word_of_int d))"
proof -
  let ?pc = "reg_pc (p_regs P)" and ?m = "view (p_bus P)"
  let ?c = "(abs_cpu (p_regs P))\<lparr>cPC := ?pc + 1\<rparr>"
  have shape: "table_shape i"
    unfolding assms(6) by (rule instr_of_all [OF table_shapes])
  have line: "unblank txt = mnemonic i @ operand_syntax (mode_of i) (?m (?pc + 1)) (?m (?pc + 2))"
    "reg_pc r' = ?pc + 1 + of_nat (operand_len (mode_of i))"
    using unasm_line_ram [OF assms(1,2,5)] by (simp_all add: assms(6))
  have "abs_machine view (step_core E P) = snd (machine_step (abs_machine view P))"
    using ram_bus.step_core_refines [OF assms(1) refl assms(2)] by (simp add: step_result_def)
  then have "reg_pc (p_regs (step_core E P)) = cPC (mc_cpu (snd (machine_step (abs_machine view P))))"
    by (metis abs_cpu_select(5) abs_machine_select(1))
  also have "\<dots> = cPC (fst (snd (spec_step i ?c ?m)))"
    using assms(3,4,6) by (simp add: machine_step_def take_instruction_def abs_machine_def Let_def case_prod_beta)
  finally have pc: "reg_pc (p_regs (step_core E P)) = cPC (fst (snd (spec_step i ?c ?m)))" .
  show ?thesis
    using line pc spec_step_continues [OF shape, of ?c ?m] spec_step_branches(1) [OF shape, of ?c ?m]
      spec_step_branches(2) [OF shape, of ?c]
    by (cases i) (auto simp: branch_target_def)
qed

lemma listing_in_step_witness:
  "reg_pc (p_regs (step_core plain_system (booted (\<lambda>ad. if ad = 0x0200 then 0xD0 else 0xFC) 0x0200))) = 0x01FE"
proof -
  let ?m = "\<lambda>ad. if ad = 0x0200 then 0xD0 else 0xFC" and ?P = "booted (\<lambda>ad. if ad = 0x0200 then 0xD0 else 0xFC) 0x0200"
  have i: "Inst BNE_Impl Relative 2 = instr_of 0xD0"
    by (simp add: instr_of_def instruction_table_def row_defs)
  have z: "\<not> fZ (abs_cpu (p_regs ?P))"
    by (simp add: booted_def Processor_new_def Registers_zero_def abs_cpu_def getStatus_def)
  obtain t r s where u: "unasm_line (v_bus plain_system) (p_regs ?P) (p_bus ?P) = (t, r, s)"
    by (metis prod_cases3)
  have "reg_pc r = 0x0202"
    using unasm_line_ram [OF plain_system_ram TrueI u] by (simp add: i [symmetric])
  moreover have "branches (Inst BNE_Impl Relative 2) (abs_cpu (p_regs ?P))"
    using z by (simp add: branch_taken_def)
  ultimately show ?thesis
    using listing_in_step [OF plain_system_ram TrueI _ _ u, of "Inst BNE_Impl Relative 2"]
    by (simp add: i Let_def)
qed

end
