(* ===== verification/Regex.thy ===== *)
theory Regex
  imports Text_Format
begin

text \<open>
  The part of \<open>std::regex\<close> (ECMAScript grammar) that the pattern of \<^verbatim>\<open>src/Asm.cpp\<close> uses, with the
  semantics of that grammar: alternatives are tried in order, a quantifier is greedy and gives
  characters back one by one, and a group records the text of its last match. The matcher
  takes the rest of the pattern as its continuation \<open>k\<close>, as the ECMAScript standard states it.
  A group that takes no part in the match has the empty string, which is what \<open>sub_match::str\<close> and
  \<open>sub_match::length\<close> report for it.
\<close>

section \<open>Patterns and the matcher\<close>

datatype rx =
    Eps
  | Begin
  | End
  | Cls "char \<Rightarrow> bool"
  | Many "char \<Rightarrow> bool"
  | Seq rx rx
  | Alt rx rx
  | Grp nat rx

abbreviation Many1 :: "(char \<Rightarrow> bool) \<Rightarrow> rx" where
  "Many1 p \<equiv> Seq (Cls p) (Many p)"

abbreviation Opt :: "rx \<Rightarrow> rx" where
  "Opt r \<equiv> Alt r Eps"

abbreviation Lit :: "char \<Rightarrow> rx" where
  "Lit ch \<equiv> Cls (\<lambda>x. x = ch)"

type_synonym captures = "nat \<Rightarrow> string"

type_synonym continuation = "captures \<Rightarrow> string \<Rightarrow> captures option"

definition or_else :: "'a option \<Rightarrow> 'a option \<Rightarrow> 'a option" where
  "or_else x y = (case x of Some r \<Rightarrow> Some r | None \<Rightarrow> y)"

primrec match_many :: "(char \<Rightarrow> bool) \<Rightarrow> continuation \<Rightarrow> captures \<Rightarrow> string \<Rightarrow> captures option" where
  "match_many p k c [] = k c []"
| "match_many p k c (x # xs) =
     (if p x then or_else (match_many p k c xs) (k c (x # xs)) else k c (x # xs))"

primrec match_rx :: "nat \<Rightarrow> rx \<Rightarrow> continuation \<Rightarrow> captures \<Rightarrow> string \<Rightarrow> captures option" where
  "match_rx n Eps k c s = k c s"
| "match_rx n Begin k c s = (if length s = n then k c s else None)"
| "match_rx n End k c s = (if s = [] then k c s else None)"
| "match_rx n (Cls p) k c s = (case s of x # xs \<Rightarrow> if p x then k c xs else None | [] \<Rightarrow> None)"
| "match_rx n (Many p) k c s = match_many p k c s"
| "match_rx n (Seq r1 r2) k c s = match_rx n r1 (match_rx n r2 k) c s"
| "match_rx n (Alt r1 r2) k c s = or_else (match_rx n r1 k c s) (match_rx n r2 k c s)"
| "match_rx n (Grp i r) k c s =
     match_rx n r (\<lambda>c' s'. k (c'(i := take (length s - length s') s)) s') c s"

text \<open>\<open>std::regex_match\<close>: the whole text must match.\<close>

definition regex_match :: "rx \<Rightarrow> string \<Rightarrow> captures option" where
  "regex_match r s =
     match_rx (length s) r (\<lambda>c s'. if s' = [] then Some c else None) (\<lambda>_. []) s"

section \<open>Character classes under \<open>icase\<close>\<close>

definition any_letter :: "char \<Rightarrow> bool" where
  "any_letter ch \<longleftrightarrow> isupper ch \<or> islower ch"

definition icase :: "char \<Rightarrow> char \<Rightarrow> bool" where
  "icase ch x \<longleftrightarrow> tolower x = ch"

definition not_newline :: "char \<Rightarrow> bool" where
  "not_newline x \<longleftrightarrow> x \<noteq> CHR 0x0A \<and> x \<noteq> CHR 0x0D"

section \<open>Running the matcher\<close>

lemma or_else_Some [simp]: "or_else (Some r) y = Some r"
  and or_else_None [simp]: "or_else None y = y"
  by (simp_all add: or_else_def)

lemma or_else_eq_Some: "x = Some r \<Longrightarrow> or_else x y = Some r"
  by simp

lemma or_else_assoc [simp]: "or_else (or_else x y) z = or_else x (or_else y z)"
  by (cases x) simp_all

text \<open>
  On a run of characters of the class the longest match comes first, then the shorter ones.
\<close>

primrec match_shorter :: "continuation \<Rightarrow> captures \<Rightarrow> string \<Rightarrow> captures option" where
  "match_shorter k c [] = None"
| "match_shorter k c (x # xs) = or_else (match_shorter k c xs) (k c (x # xs))"

lemma match_many_run:
  "list_all p ds \<Longrightarrow> match_many p k c ds = or_else (k c []) (match_shorter k c ds)"
  by (induction ds) (auto simp: or_else_def split: option.splits)

end
