(* ===== verification/Assembler.thy ===== *)
theory Assembler
  imports Regex "HOL-Library.While_Combinator"
begin

text \<open>
  \<^verbatim>\<open>src/Asm.cpp\<close>, \<^verbatim>\<open>include/6502cc/asm.h\<close> and \<^verbatim>\<open>include/6502cc/emul_exceptions.h\<close>: the assembler. A line
  is matched against one regular expression, its capture groups select the addressing mode, the
  mnemonic and the mode select a code generator, and the generators write into an image of the
  whole address space. The array \<open>r[0x10000]\<close> is indexed by the \<open>uint16\<close> \<open>pc\<close> only, so it is a
  function on words; \<open>compile\<close> returns it as the list of its 65536 bytes. An exception is the left
  value of a sum. The hash and the equality of \<open>AsmInstrKey\<close> are those of its two fields, so the
  \<open>unordered_map\<close> is a map.
\<close>

section \<open>Exceptions\<close>

record emu_exception =
  exc_msg :: string

definition what :: "emu_exception \<Rightarrow> string" where
  "what e = exc_msg e"

definition format_error :: "int \<Rightarrow> string" where
  "format_error line = ''Syntax error at line: '' @ show_int line"

definition asm_syntax_exception :: "int \<Rightarrow> emu_exception" where
  "asm_syntax_exception line = \<lparr>exc_msg = format_error line\<rparr>"

section \<open>Code generators\<close>

type_synonym image = "uint16 \<Rightarrow> uint8"

datatype AddressingType =
    AT_Absolute | AT_Absolute_X | AT_Absolute_Y | AT_Accumulator | AT_Immediate | AT_Implied
  | AT_Indirect | AT_Indirect_X | AT_Indirect_Y | AT_Relative | AT_Zero_Page | AT_Zero_Page_X
  | AT_Zero_Page_Y | AT_Unkown

datatype AsmInstrKey = AsmInstrKey string AddressingType

text \<open>The template argument \<open>AddrT\<close> and the instances of \<open>Asm2Code\<close>.\<close>

datatype AddrT = addr_2Param | addr_1Param | addr_NoParams

datatype AsmInstrGen = Asm2Code AddrT int

definition emit :: "int \<Rightarrow> image \<Rightarrow> uint16 \<Rightarrow> image \<times> uint16" where
  "emit v ptr pc = (ptr(pc := word_of_int (v AND 0xff)), pc + 1)"

fun emit_operand :: "AddrT \<Rightarrow> int \<Rightarrow> image \<Rightarrow> uint16 \<Rightarrow> image \<times> uint16" where
  "emit_operand addr_2Param v ptr pc =
     (let (ptr, pc) = emit v ptr pc in emit (drop_bit 8 v) ptr pc)"
| "emit_operand addr_1Param v ptr pc = emit v ptr pc"
| "emit_operand addr_NoParams v ptr pc = (ptr, pc)"

fun generate :: "AsmInstrGen \<Rightarrow> int \<Rightarrow> image \<Rightarrow> uint16 \<Rightarrow> image \<times> uint16" where
  "generate (Asm2Code addr opcode) v base_ptr pc =
     (let (base_ptr, pc) = emit opcode base_ptr pc in emit_operand addr v base_ptr pc)"

section \<open>The instruction mapper\<close>

text \<open>The assignments of \<open>_build_instr_mapper\<close> in their order.\<close>

definition instr_mapper_1 :: "(AsmInstrKey \<times> AsmInstrGen) list" where
  "instr_mapper_1 =
    [(AsmInstrKey ''ADC'' AT_Immediate, Asm2Code addr_1Param 0x69),
     (AsmInstrKey ''ADC'' AT_Zero_Page, Asm2Code addr_1Param 0x65),
     (AsmInstrKey ''ADC'' AT_Zero_Page_X, Asm2Code addr_1Param 0x75),
     (AsmInstrKey ''ADC'' AT_Absolute, Asm2Code addr_2Param 0x6d),
     (AsmInstrKey ''ADC'' AT_Absolute_X, Asm2Code addr_2Param 0x7d),
     (AsmInstrKey ''ADC'' AT_Absolute_Y, Asm2Code addr_2Param 0x79),
     (AsmInstrKey ''ADC'' AT_Indirect_X, Asm2Code addr_1Param 0x61),
     (AsmInstrKey ''ADC'' AT_Indirect_Y, Asm2Code addr_1Param 0x71),
     (AsmInstrKey ''AND'' AT_Immediate, Asm2Code addr_1Param 0x29),
     (AsmInstrKey ''AND'' AT_Zero_Page, Asm2Code addr_1Param 0x25),
     (AsmInstrKey ''AND'' AT_Zero_Page_X, Asm2Code addr_1Param 0x35),
     (AsmInstrKey ''AND'' AT_Absolute, Asm2Code addr_2Param 0x2d),
     (AsmInstrKey ''AND'' AT_Absolute_X, Asm2Code addr_2Param 0x3d),
     (AsmInstrKey ''AND'' AT_Absolute_Y, Asm2Code addr_2Param 0x39),
     (AsmInstrKey ''AND'' AT_Indirect_X, Asm2Code addr_1Param 0x21),
     (AsmInstrKey ''AND'' AT_Indirect_Y, Asm2Code addr_1Param 0x31),
     (AsmInstrKey ''ASL'' AT_Accumulator, Asm2Code addr_NoParams 0xa),
     (AsmInstrKey ''ASL'' AT_Zero_Page, Asm2Code addr_1Param 0x6),
     (AsmInstrKey ''ASL'' AT_Zero_Page_X, Asm2Code addr_1Param 0x16),
     (AsmInstrKey ''ASL'' AT_Absolute, Asm2Code addr_2Param 0xe),
     (AsmInstrKey ''ASL'' AT_Absolute_X, Asm2Code addr_2Param 0x1e),
     (AsmInstrKey ''BCC'' AT_Relative, Asm2Code addr_1Param 0x90),
     (AsmInstrKey ''BCS'' AT_Relative, Asm2Code addr_1Param 0xb0),
     (AsmInstrKey ''BEQ'' AT_Relative, Asm2Code addr_1Param 0xf0),
     (AsmInstrKey ''BIT'' AT_Zero_Page, Asm2Code addr_1Param 0x24),
     (AsmInstrKey ''BIT'' AT_Absolute, Asm2Code addr_2Param 0x2c),
     (AsmInstrKey ''BMI'' AT_Relative, Asm2Code addr_1Param 0x30),
     (AsmInstrKey ''BNE'' AT_Relative, Asm2Code addr_1Param 0xd0),
     (AsmInstrKey ''BPL'' AT_Relative, Asm2Code addr_1Param 0x10),
     (AsmInstrKey ''BRK'' AT_Implied, Asm2Code addr_NoParams 0x0),
     (AsmInstrKey ''BVC'' AT_Relative, Asm2Code addr_1Param 0x50),
     (AsmInstrKey ''BVS'' AT_Relative, Asm2Code addr_1Param 0x70),
     (AsmInstrKey ''CLC'' AT_Implied, Asm2Code addr_NoParams 0x18),
     (AsmInstrKey ''CLD'' AT_Implied, Asm2Code addr_NoParams 0xd8),
     (AsmInstrKey ''CLI'' AT_Implied, Asm2Code addr_NoParams 0x58),
     (AsmInstrKey ''CLV'' AT_Implied, Asm2Code addr_NoParams 0xb8),
     (AsmInstrKey ''CMP'' AT_Immediate, Asm2Code addr_1Param 0xc9),
     (AsmInstrKey ''CMP'' AT_Zero_Page, Asm2Code addr_1Param 0xc5)]"

definition instr_mapper_2 :: "(AsmInstrKey \<times> AsmInstrGen) list" where
  "instr_mapper_2 =
    [(AsmInstrKey ''CMP'' AT_Zero_Page_X, Asm2Code addr_1Param 0xd5),
     (AsmInstrKey ''CMP'' AT_Absolute, Asm2Code addr_2Param 0xcd),
     (AsmInstrKey ''CMP'' AT_Absolute_X, Asm2Code addr_2Param 0xdd),
     (AsmInstrKey ''CMP'' AT_Absolute_Y, Asm2Code addr_2Param 0xd9),
     (AsmInstrKey ''CMP'' AT_Indirect_X, Asm2Code addr_1Param 0xc1),
     (AsmInstrKey ''CMP'' AT_Indirect_Y, Asm2Code addr_1Param 0xd1),
     (AsmInstrKey ''CPX'' AT_Immediate, Asm2Code addr_1Param 0xe0),
     (AsmInstrKey ''CPX'' AT_Zero_Page, Asm2Code addr_1Param 0xe4),
     (AsmInstrKey ''CPX'' AT_Absolute, Asm2Code addr_2Param 0xec),
     (AsmInstrKey ''CPY'' AT_Immediate, Asm2Code addr_1Param 0xc0),
     (AsmInstrKey ''CPY'' AT_Zero_Page, Asm2Code addr_1Param 0xc4),
     (AsmInstrKey ''CPY'' AT_Absolute, Asm2Code addr_2Param 0xcc),
     (AsmInstrKey ''DEC'' AT_Zero_Page, Asm2Code addr_1Param 0xc6),
     (AsmInstrKey ''DEC'' AT_Zero_Page_X, Asm2Code addr_1Param 0xd6),
     (AsmInstrKey ''DEC'' AT_Absolute, Asm2Code addr_2Param 0xce),
     (AsmInstrKey ''DEC'' AT_Absolute_X, Asm2Code addr_2Param 0xde),
     (AsmInstrKey ''DEX'' AT_Implied, Asm2Code addr_NoParams 0xca),
     (AsmInstrKey ''DEY'' AT_Implied, Asm2Code addr_NoParams 0x88),
     (AsmInstrKey ''EOR'' AT_Immediate, Asm2Code addr_1Param 0x49),
     (AsmInstrKey ''EOR'' AT_Zero_Page, Asm2Code addr_1Param 0x45),
     (AsmInstrKey ''EOR'' AT_Zero_Page_X, Asm2Code addr_1Param 0x55),
     (AsmInstrKey ''EOR'' AT_Absolute, Asm2Code addr_2Param 0x4d),
     (AsmInstrKey ''EOR'' AT_Absolute_X, Asm2Code addr_2Param 0x5d),
     (AsmInstrKey ''EOR'' AT_Absolute_Y, Asm2Code addr_2Param 0x59),
     (AsmInstrKey ''EOR'' AT_Indirect_X, Asm2Code addr_1Param 0x41),
     (AsmInstrKey ''EOR'' AT_Indirect_Y, Asm2Code addr_1Param 0x51),
     (AsmInstrKey ''INC'' AT_Zero_Page, Asm2Code addr_1Param 0xe6),
     (AsmInstrKey ''INC'' AT_Zero_Page_X, Asm2Code addr_1Param 0xf6),
     (AsmInstrKey ''INC'' AT_Absolute, Asm2Code addr_2Param 0xee),
     (AsmInstrKey ''INC'' AT_Absolute_X, Asm2Code addr_2Param 0xfe),
     (AsmInstrKey ''INX'' AT_Implied, Asm2Code addr_NoParams 0xe8),
     (AsmInstrKey ''INY'' AT_Implied, Asm2Code addr_NoParams 0xc8),
     (AsmInstrKey ''JMP'' AT_Absolute, Asm2Code addr_2Param 0x4c),
     (AsmInstrKey ''JMP'' AT_Indirect, Asm2Code addr_2Param 0x6c),
     (AsmInstrKey ''JSR'' AT_Absolute, Asm2Code addr_2Param 0x20),
     (AsmInstrKey ''LDA'' AT_Immediate, Asm2Code addr_1Param 0xa9),
     (AsmInstrKey ''LDA'' AT_Zero_Page, Asm2Code addr_1Param 0xa5),
     (AsmInstrKey ''LDA'' AT_Zero_Page_X, Asm2Code addr_1Param 0xb5)]"

definition instr_mapper_3 :: "(AsmInstrKey \<times> AsmInstrGen) list" where
  "instr_mapper_3 =
    [(AsmInstrKey ''LDA'' AT_Absolute, Asm2Code addr_2Param 0xad),
     (AsmInstrKey ''LDA'' AT_Absolute_X, Asm2Code addr_2Param 0xbd),
     (AsmInstrKey ''LDA'' AT_Absolute_Y, Asm2Code addr_2Param 0xb9),
     (AsmInstrKey ''LDA'' AT_Indirect_X, Asm2Code addr_1Param 0xa1),
     (AsmInstrKey ''LDA'' AT_Indirect_Y, Asm2Code addr_1Param 0xb1),
     (AsmInstrKey ''LDX'' AT_Immediate, Asm2Code addr_1Param 0xa2),
     (AsmInstrKey ''LDX'' AT_Zero_Page, Asm2Code addr_1Param 0xa6),
     (AsmInstrKey ''LDX'' AT_Zero_Page_Y, Asm2Code addr_1Param 0xb6),
     (AsmInstrKey ''LDX'' AT_Absolute, Asm2Code addr_2Param 0xae),
     (AsmInstrKey ''LDX'' AT_Absolute_Y, Asm2Code addr_2Param 0xbe),
     (AsmInstrKey ''LDY'' AT_Immediate, Asm2Code addr_1Param 0xa0),
     (AsmInstrKey ''LDY'' AT_Zero_Page, Asm2Code addr_1Param 0xa4),
     (AsmInstrKey ''LDY'' AT_Zero_Page_X, Asm2Code addr_1Param 0xb4),
     (AsmInstrKey ''LDY'' AT_Absolute, Asm2Code addr_2Param 0xac),
     (AsmInstrKey ''LDY'' AT_Absolute_X, Asm2Code addr_2Param 0xbc),
     (AsmInstrKey ''LSR'' AT_Accumulator, Asm2Code addr_NoParams 0x4a),
     (AsmInstrKey ''LSR'' AT_Zero_Page, Asm2Code addr_1Param 0x46),
     (AsmInstrKey ''LSR'' AT_Zero_Page_X, Asm2Code addr_1Param 0x56),
     (AsmInstrKey ''LSR'' AT_Absolute, Asm2Code addr_2Param 0x4e),
     (AsmInstrKey ''LSR'' AT_Absolute_X, Asm2Code addr_2Param 0x5e),
     (AsmInstrKey ''NOP'' AT_Implied, Asm2Code addr_NoParams 0xea),
     (AsmInstrKey ''ORA'' AT_Immediate, Asm2Code addr_1Param 0x9),
     (AsmInstrKey ''ORA'' AT_Zero_Page, Asm2Code addr_1Param 0x5),
     (AsmInstrKey ''ORA'' AT_Zero_Page_X, Asm2Code addr_1Param 0x15),
     (AsmInstrKey ''ORA'' AT_Absolute, Asm2Code addr_2Param 0xd),
     (AsmInstrKey ''ORA'' AT_Absolute_X, Asm2Code addr_2Param 0x1d),
     (AsmInstrKey ''ORA'' AT_Absolute_Y, Asm2Code addr_2Param 0x19),
     (AsmInstrKey ''ORA'' AT_Indirect_X, Asm2Code addr_1Param 0x1),
     (AsmInstrKey ''ORA'' AT_Indirect_Y, Asm2Code addr_1Param 0x11),
     (AsmInstrKey ''PHA'' AT_Implied, Asm2Code addr_NoParams 0x48),
     (AsmInstrKey ''PHP'' AT_Implied, Asm2Code addr_NoParams 0x8),
     (AsmInstrKey ''PLA'' AT_Implied, Asm2Code addr_NoParams 0x68),
     (AsmInstrKey ''PLP'' AT_Implied, Asm2Code addr_NoParams 0x28),
     (AsmInstrKey ''ROL'' AT_Accumulator, Asm2Code addr_NoParams 0x2a),
     (AsmInstrKey ''ROL'' AT_Zero_Page, Asm2Code addr_1Param 0x26),
     (AsmInstrKey ''ROL'' AT_Zero_Page_X, Asm2Code addr_1Param 0x36),
     (AsmInstrKey ''ROL'' AT_Absolute, Asm2Code addr_2Param 0x2e),
     (AsmInstrKey ''ROL'' AT_Absolute_X, Asm2Code addr_2Param 0x3e)]"

definition instr_mapper_4 :: "(AsmInstrKey \<times> AsmInstrGen) list" where
  "instr_mapper_4 =
    [(AsmInstrKey ''ROR'' AT_Accumulator, Asm2Code addr_NoParams 0x6a),
     (AsmInstrKey ''ROR'' AT_Zero_Page, Asm2Code addr_1Param 0x66),
     (AsmInstrKey ''ROR'' AT_Zero_Page_X, Asm2Code addr_1Param 0x76),
     (AsmInstrKey ''ROR'' AT_Absolute, Asm2Code addr_2Param 0x6e),
     (AsmInstrKey ''ROR'' AT_Absolute_X, Asm2Code addr_2Param 0x7e),
     (AsmInstrKey ''RTI'' AT_Implied, Asm2Code addr_NoParams 0x40),
     (AsmInstrKey ''RTS'' AT_Implied, Asm2Code addr_NoParams 0x60),
     (AsmInstrKey ''SBC'' AT_Immediate, Asm2Code addr_1Param 0xe9),
     (AsmInstrKey ''SBC'' AT_Zero_Page, Asm2Code addr_1Param 0xe5),
     (AsmInstrKey ''SBC'' AT_Zero_Page_X, Asm2Code addr_1Param 0xf5),
     (AsmInstrKey ''SBC'' AT_Absolute, Asm2Code addr_2Param 0xed),
     (AsmInstrKey ''SBC'' AT_Absolute_X, Asm2Code addr_2Param 0xfd),
     (AsmInstrKey ''SBC'' AT_Absolute_Y, Asm2Code addr_2Param 0xf9),
     (AsmInstrKey ''SBC'' AT_Indirect_X, Asm2Code addr_1Param 0xe1),
     (AsmInstrKey ''SBC'' AT_Indirect_Y, Asm2Code addr_1Param 0xf1),
     (AsmInstrKey ''SEC'' AT_Implied, Asm2Code addr_NoParams 0x38),
     (AsmInstrKey ''SED'' AT_Implied, Asm2Code addr_NoParams 0xf8),
     (AsmInstrKey ''SEI'' AT_Implied, Asm2Code addr_NoParams 0x78),
     (AsmInstrKey ''STA'' AT_Zero_Page, Asm2Code addr_1Param 0x85),
     (AsmInstrKey ''STA'' AT_Zero_Page_X, Asm2Code addr_1Param 0x95),
     (AsmInstrKey ''STA'' AT_Absolute, Asm2Code addr_2Param 0x8d),
     (AsmInstrKey ''STA'' AT_Absolute_X, Asm2Code addr_2Param 0x9d),
     (AsmInstrKey ''STA'' AT_Absolute_Y, Asm2Code addr_2Param 0x99),
     (AsmInstrKey ''STA'' AT_Indirect_X, Asm2Code addr_1Param 0x81),
     (AsmInstrKey ''STA'' AT_Indirect_Y, Asm2Code addr_1Param 0x91),
     (AsmInstrKey ''STX'' AT_Zero_Page, Asm2Code addr_1Param 0x86),
     (AsmInstrKey ''STX'' AT_Zero_Page_Y, Asm2Code addr_1Param 0x96),
     (AsmInstrKey ''STX'' AT_Absolute, Asm2Code addr_2Param 0x8e),
     (AsmInstrKey ''STY'' AT_Zero_Page, Asm2Code addr_1Param 0x84),
     (AsmInstrKey ''STY'' AT_Zero_Page_X, Asm2Code addr_1Param 0x94),
     (AsmInstrKey ''STY'' AT_Absolute, Asm2Code addr_2Param 0x8c),
     (AsmInstrKey ''TAX'' AT_Implied, Asm2Code addr_NoParams 0xaa),
     (AsmInstrKey ''TAY'' AT_Implied, Asm2Code addr_NoParams 0xa8),
     (AsmInstrKey ''TSX'' AT_Implied, Asm2Code addr_NoParams 0xba),
     (AsmInstrKey ''TXA'' AT_Implied, Asm2Code addr_NoParams 0x8a),
     (AsmInstrKey ''TXS'' AT_Implied, Asm2Code addr_NoParams 0x9a),
     (AsmInstrKey ''TYA'' AT_Implied, Asm2Code addr_NoParams 0x98)]"

definition build_instr_mapper :: "(AsmInstrKey \<times> AsmInstrGen) list" where
  "build_instr_mapper = instr_mapper_1 @ instr_mapper_2 @ instr_mapper_3 @ instr_mapper_4"

definition instruction_mapper :: "AsmInstrKey \<rightharpoonup> AsmInstrGen" where
  "instruction_mapper = foldl (\<lambda>m (k, g). m(k \<mapsto> g)) Map.empty build_instr_mapper"

section \<open>The pattern of a line\<close>

definition index_group :: "nat \<Rightarrow> nat \<Rightarrow> rx" where
  "index_group i j =
     Opt (Grp i (Seq (Many isspace) (Seq (Lit CHR '','') (Seq (Many isspace)
       (Grp j (Cls (\<lambda>x. icase CHR ''x'' x \<or> icase CHR ''y'' x)))))))"

definition rgx :: rx where
  "rgx =
     Seq Begin (Seq (Many isspace) (Seq (Grp 1 (Many1 any_letter)) (Seq (Alt (Many1 isspace) End)
    (Seq (Opt (Grp 2 (Lit CHR ''('')))
    (Seq (Opt (Grp 3 (Lit CHR ''#'')))
    (Seq (Opt (Grp 4 (Seq (Lit CHR ''$'') (Many1 isxdigit))))
    (Seq (index_group 5 6)
    (Seq (Opt (Grp 7 (Lit CHR '')'')))
    (Seq (index_group 8 9)
    (Seq (Opt (Grp 10 (Seq (Opt (Alt (Lit CHR ''+'') (Lit CHR ''-''))) (Many1 isdigit))))
    (Seq (Opt (Grp 11 (Cls (icase CHR ''a''))))
    (Seq (Many isspace)
    (Seq (Opt (Grp 12 (Seq (Lit CHR '';'') (Many not_newline))))
         End)))))))))))))"

section \<open>One line\<close>

definition ltrim :: "string \<Rightarrow> string" where
  "ltrim s = dropWhile isspace s"

definition uppercopy :: "string \<Rightarrow> string" where
  "uppercopy s = map toupper s"

definition addressing_type :: "captures \<Rightarrow> AddressingType" where
  "addressing_type m =
     (let opar = 0 < length (m 2);
          imm = 0 < length (m 3);
          val = m 4;
          inner = uppercopy (m 6);
          cpar = 0 < length (m 7);
          outer = uppercopy (m 9);
          rel = m 10;
          rega = 0 < length (m 11);
          zp = length val = 3;
          abs = length val = 5;
          noVal = length val = 0;
          noIdx = inner = [] \<and> outer = [];
          noRel = length rel = 0
      in if opar \<noteq> cpar then AT_Unkown
         else if opar then
           (if imm \<or> rega \<or> \<not> noRel then AT_Unkown
            else if abs \<and> noIdx then AT_Indirect
            else if zp \<and> inner = ''X'' \<and> outer = [] then AT_Indirect_X
            else if zp \<and> inner = [] \<and> outer = ''Y'' then AT_Indirect_Y
            else AT_Unkown)
         else if imm then
           (if zp \<and> noIdx \<and> noRel \<and> \<not> rega then AT_Immediate else AT_Unkown)
         else if rega then
           (if noVal \<and> noIdx \<and> noRel then AT_Accumulator else AT_Unkown)
         else if \<not> noRel then
           (if noVal \<and> noIdx then AT_Relative else AT_Unkown)
         else if noVal \<and> noIdx then AT_Implied
         else if outer = [] then
           (if abs then
              (if inner = [] then AT_Absolute
               else if inner = ''X'' then AT_Absolute_X
               else AT_Absolute_Y)
            else if zp then
              (if inner = [] then AT_Zero_Page
               else if inner = ''X'' then AT_Zero_Page_X
               else AT_Zero_Page_Y)
            else AT_Unkown)
         else AT_Unkown)"

definition parsed_val :: "captures \<Rightarrow> int" where
  "parsed_val m =
     (if 0 < length (m 4) then cast_int (strtoul16 (tl (m 4)))
      else if 0 < length (m 10) then atoi (m 10)
      else 0)"

text \<open>The generator and the value of a line; \<open>None\<close> is the throw.\<close>

definition assemble_line :: "string \<Rightarrow> (AsmInstrGen \<times> int) option" where
  "assemble_line s =
     (case regex_match rgx s of
        None \<Rightarrow> None
      | Some m \<Rightarrow>
          (case instruction_mapper (AsmInstrKey (uppercopy (m 1)) (addressing_type m)) of
             None \<Rightarrow> None
           | Some g \<Rightarrow> Some (g, parsed_val m)))"

section \<open>A list of lines\<close>

definition skipped :: "string \<Rightarrow> bool" where
  "skipped s \<longleftrightarrow> s = [] \<or> hd s = CHR '';''"

fun compile_from :: "nat \<Rightarrow> string list \<Rightarrow> uint16 \<Rightarrow> image \<Rightarrow> emu_exception + image" where
  "compile_from n [] pc r = Inr r"
| "compile_from n (line # lines) pc r =
     (let s = ltrim line
      in if skipped s then compile_from (n + 1) lines pc r
         else case assemble_line s of
                None \<Rightarrow> Inl (asm_syntax_exception (cast_int (int n + 1)))
              | Some (g, v) \<Rightarrow>
                  (let (r, pc) = generate g v r pc in compile_from (n + 1) lines pc r))"

definition fresh_image :: "uint16 \<Rightarrow> image" where
  "fresh_image pc =
     (let r = (\<lambda>_. 0xff);
          r = r(0xfffc := ucast (pc AND 0xff))
      in r(0xfffd := ucast (drop_bit 8 pc AND 0xff)))"

definition to_vector :: "image \<Rightarrow> uint8 list" where
  "to_vector r = map (\<lambda>i. r (word_of_nat i)) [0..<0x10000]"

definition compile :: "uint16 \<Rightarrow> string list \<Rightarrow> emu_exception + uint8 list" where
  "compile m_base_code lines =
     map_sum id to_vector (compile_from 0 lines m_base_code (fresh_image m_base_code))"

section \<open>A text\<close>

text \<open>
  A \<open>stringstream\<close> is the characters still to be read and its two state bits. The file's own
  \<open>getline\<close> builds a \<open>sentry\<close>, which sets \<open>failbit\<close> when the stream is no longer good, but does not
  look at it; it takes CR, LF, CRLF and LFCR for the end of a line. The loop of \<open>compile\<close> tests
  the stream, that is \<open>failbit\<close>, and not \<open>eofbit\<close>. It is a loop over the stream that might not
  end; \<open>None\<close> would be that.
\<close>

record istream =
  is_buf :: string
  is_eof :: bool
  is_fail :: bool

fun getline_loop :: "string \<Rightarrow> string \<Rightarrow> string \<times> string \<times> bool" where
  "getline_loop t [] = (t, [], t = [])"
| "getline_loop t (c # cs) =
     (if c = CHR 0x0A then
        (t, (case cs of d # ds \<Rightarrow> if d = CHR 0x0D then ds else cs | [] \<Rightarrow> cs), False)
      else if c = CHR 0x0D then
        (t, (case cs of d # ds \<Rightarrow> if d = CHR 0x0A then ds else cs | [] \<Rightarrow> cs), False)
      else getline_loop (t @ [c]) cs)"

definition sentry :: "istream \<Rightarrow> istream" where
  "sentry is = (if is_eof is \<or> is_fail is then is\<lparr>is_fail := True\<rparr> else is)"

definition getline :: "istream \<Rightarrow> istream \<times> string" where
  "getline is =
     (let is = sentry is;
          (t, buf, eof) = getline_loop [] (is_buf is)
      in (is\<lparr>is_buf := buf, is_eof := is_eof is \<or> eof\<rparr>, t))"

definition read_lines :: "string \<Rightarrow> string list option" where
  "read_lines source =
     map_option (\<lambda>((is, str), lines). lines)
       (while_option (\<lambda>((is, str), lines). \<not> is_fail is)
          (\<lambda>((is, str), lines). (getline is, lines @ [str]))
          (getline \<lparr>is_buf = source, is_eof = False, is_fail = False\<rparr>, []))"

definition compile_source :: "uint16 \<Rightarrow> string \<Rightarrow> (emu_exception + uint8 list) option" where
  "compile_source m_base_code source = map_option (compile m_base_code) (read_lines source)"

end
