(* ===== verification/Assembler_Spec.thy ===== *)
theory Assembler_Spec
  imports Assembler Disassembler
begin

text \<open>
  What the assembler does, apart from how: the bytes a line stands for, the image a list of lines
  compiles to or the line that is reported, the lines of a text, and the agreement of the
  instruction mapper with the opcode matrix of the processor.
\<close>

section \<open>Looking up a key and running the pattern\<close>

lemma mapper_keys_distinct: "distinct (map fst build_instr_mapper)"
  by code_simp

lemma foldl_updates:
  "distinct (map fst es) \<Longrightarrow> foldl (\<lambda>m (k, g). m(k \<mapsto> g)) m es = m ++ map_of es"
proof (induction es arbitrary: m)
  case Nil
  then show ?case by simp
next
  case (Cons e es)
  have "m(fst e \<mapsto> snd e) ++ map_of es = m ++ (map_of es)(fst e \<mapsto> snd e)"
  proof
    fix k
    have "map_of es (fst e) = None" using Cons.prems by (simp add: map_of_eq_None_iff)
    then show "(m(fst e \<mapsto> snd e) ++ map_of es) k = (m ++ (map_of es)(fst e \<mapsto> snd e)) k"
      by (cases "k = fst e") (simp_all add: map_add_def split: option.split)
  qed
  then show ?case using Cons by (simp add: case_prod_beta del: fun_upd_apply)
qed

lemma instruction_mapper_of: "instruction_mapper = map_of build_instr_mapper"
  by (simp add: instruction_mapper_def foldl_updates [OF mapper_keys_distinct])

lemma instruction_mapper_iff: "instruction_mapper k = Some g \<longleftrightarrow> (k, g) \<in> set build_instr_mapper"
  unfolding instruction_mapper_of by (rule map_of_eq_Some_iff [OF mapper_keys_distinct])

lemma upper_facts:
  "isupper ch \<Longrightarrow> any_letter ch" "isupper ch \<Longrightarrow> \<not> isspace ch" "isupper ch \<Longrightarrow> toupper ch = ch"
  by (auto simp: any_letter_def ctype_defs)

lemma concrete_classes:
  "isspace CHR '' ''" "\<not> any_letter CHR '' ''" "\<not> isspace CHR ''$''" "\<not> isspace CHR ''#''"
  "\<not> isspace CHR ''(''" "\<not> isspace CHR '')''" "\<not> isspace CHR '',''" "\<not> isspace CHR ''-''"
  "\<not> isspace CHR ''A''" "\<not> isspace CHR ''X''" "\<not> isspace CHR ''Y''"
  "\<not> isxdigit CHR '',''" "\<not> isxdigit CHR '')''" "\<not> isdigit CHR ''A''" "\<not> isdigit CHR ''-''"
  "icase CHR ''x'' CHR ''X''" "icase CHR ''y'' CHR ''Y''" "icase CHR ''a'' CHR ''A''"
  "\<not> icase CHR ''x'' CHR ''Y''" "\<not> icase CHR ''y'' CHR ''X''"
  "toupper CHR ''X'' = CHR ''X''" "toupper CHR ''Y'' = CHR ''Y''"
  by code_simp+

lemma digit_facts:
  assumes "isdigit ch"
  shows "ch \<noteq> CHR ''(''" "ch \<noteq> CHR ''#''" "ch \<noteq> CHR ''$''" "ch \<noteq> CHR '',''" "ch \<noteq> CHR '')''"
    "ch \<noteq> CHR ''-''" "ch \<noteq> CHR ''+''" "\<not> isspace ch"
  using assms by (auto simp: ctype_defs)

lemmas matching = assemble_line_def regex_match_def rgx_def index_group_def
  addressing_type_def parsed_val_def uppercopy_def Let_def
  concrete_classes upper_facts digit_facts

section \<open>Bytes and their place in the image\<close>

fun encoding :: "AsmInstrGen \<Rightarrow> int \<Rightarrow> uint8 list" where
  "encoding (Asm2Code addr_2Param opcode) v =
     [word_of_int opcode, word_of_int v, word_of_int (v div 256)]"
| "encoding (Asm2Code addr_1Param opcode) v = [word_of_int opcode, word_of_int v]"
| "encoding (Asm2Code addr_NoParams opcode) v = [word_of_int opcode]"

primrec store_bytes :: "image \<Rightarrow> uint16 \<Rightarrow> uint8 list \<Rightarrow> image" where
  "store_bytes r pc [] = r"
| "store_bytes r pc (b # bs) = store_bytes (r(pc := b)) (pc + 1) bs"

lemma store_bytes_append:
  "store_bytes r pc (xs @ ys) = store_bytes (store_bytes r pc xs) (pc + word_of_nat (length xs)) ys"
  by (induction xs arbitrary: r pc) (simp_all add: add.assoc)

lemma low_byte: "(word_of_int (v AND 0xff) :: uint8) = word_of_int v"
proof -
  have "v AND 0xff = take_bit 8 v"
    by (simp add: take_bit_eq_mask mask_eq_exp_minus_1)
  moreover have "(word_of_int (take_bit 8 v) :: uint8) = word_of_int v"
    by transfer simp
  ultimately show ?thesis by simp
qed

lemma generate_stores:
  "generate g v r pc = (store_bytes r pc (encoding g v), pc + word_of_nat (length (encoding g v)))"
proof (cases g)
  case (Asm2Code A op)
  then show ?thesis
    by (cases A) (simp_all add: emit_def low_byte drop_bit_eq_div add.assoc)
qed

lemma store_bytes_outside:
  "(\<And>i. i < length bs \<Longrightarrow> ad \<noteq> pc + word_of_nat i) \<Longrightarrow> store_bytes r pc bs ad = r ad"
proof (induction bs arbitrary: r pc)
  case Nil
  then show ?case by simp
next
  case (Cons b bs)
  have "ad \<noteq> pc" using Cons.prems [of 0] by simp
  moreover have "ad \<noteq> (pc + 1) + word_of_nat i" if "i < length bs" for i
    using Cons.prems [of "Suc i"] that by (simp add: add.assoc)
  ultimately show ?case by (simp add: Cons.IH)
qed

lemma store_bytes_inside:
  "length bs \<le> 65536 \<Longrightarrow> i < length bs \<Longrightarrow> store_bytes r pc bs (pc + word_of_nat i) = bs ! i"
proof (induction bs arbitrary: r pc i)
  case Nil
  then show ?case by simp
next
  case (Cons b bs)
  show ?case
  proof (cases i)
    case 0
    have "store_bytes (r(pc := b)) (pc + 1) bs pc = (r(pc := b)) pc"
    proof (rule store_bytes_outside)
      fix j assume j: "j < length bs"
      show "pc \<noteq> pc + 1 + word_of_nat j"
      proof
        assume "pc = pc + 1 + word_of_nat j"
        then have "(word_of_nat (Suc j) :: uint16) = 0"
          by (simp add: add.assoc)
        then have "Suc j mod 65536 = 0"
          by (simp add: word_of_nat_eq_0_iff mod_eq_0_iff_dvd del: of_nat_Suc)
        then show False using j Cons.prems(1) by simp
      qed
    qed
    with 0 show ?thesis by simp
  next
    case (Suc j)
    then show ?thesis
      using Cons.IH [of j "r(pc := b)" "pc + 1"] Cons.prems
      by (simp add: add.assoc del: fun_upd_apply)
  qed
qed

lemma length_to_vector [simp]: "length (to_vector r) = 65536"
  by (simp add: to_vector_def)

lemma nth_to_vector: "to_vector r ! unat ad = r ad"
  by (simp add: to_vector_def)

section \<open>The bytes of a line and the first bad line\<close>

definition line_code :: "string \<Rightarrow> uint8 list option" where
  "line_code line =
     (if skipped (ltrim line) then Some []
      else map_option (\<lambda>(g, v). encoding g v) (assemble_line (ltrim line)))"

definition bad_line :: "string list \<Rightarrow> nat \<Rightarrow> bool" where
  "bad_line lines n \<longleftrightarrow>
     n < length lines \<and> line_code (lines ! n) = None \<and> (\<forall>k < n. line_code (lines ! k) \<noteq> None)"

lemma bad_line_Cons:
  "bad_line (l # ls) n \<longleftrightarrow>
     (n = 0 \<and> line_code l = None) \<or> (\<exists>k. n = Suc k \<and> line_code l \<noteq> None \<and> bad_line ls k)"
  by (cases n) (auto simp: bad_line_def nth_Cons split: nat.splits)

lemma compile_from_ok:
  "\<forall>l \<in> set lines. line_code l \<noteq> None \<Longrightarrow>
   compile_from n lines pc r = Inr (store_bytes r pc (concat (map (the \<circ> line_code) lines)))"
proof (induction n lines pc r rule: compile_from.induct)
  case (1 n pc r)
  then show ?case by simp
next
  case (2 n line lines pc r)
  show ?case
  proof (cases "skipped (ltrim line)")
    case True
    then show ?thesis using 2 by (simp add: line_code_def)
  next
    case False
    then obtain g v where a: "assemble_line (ltrim line) = Some (g, v)"
      using "2.prems" by (auto simp: line_code_def)
    then show ?thesis
      using 2 False by (simp add: line_code_def generate_stores store_bytes_append)
  qed
qed

lemma compile_from_bad:
  "bad_line lines k \<Longrightarrow>
   compile_from n lines pc r = Inl (asm_syntax_exception (cast_int (int (n + k) + 1)))"
proof (induction n lines pc r arbitrary: k rule: compile_from.induct)
  case (1 n pc r)
  then show ?case by (simp add: bad_line_def)
next
  case (2 n line lines pc r)
  show ?case
  proof (cases "skipped (ltrim line)")
    case True
    then obtain j where "k = Suc j" "bad_line lines j"
      using "2.prems" by (auto simp: bad_line_Cons line_code_def)
    then show ?thesis using "2.IH"(1) [OF refl True] True by simp
  next
    case False
    show ?thesis
    proof (cases "assemble_line (ltrim line)")
      case None
      then have "k = 0" using "2.prems" False by (auto simp: bad_line_Cons line_code_def)
      with None False show ?thesis by simp
    next
      case (Some gv)
      then obtain g v j where gv: "gv = (g, v)" and j: "k = Suc j" "bad_line lines j"
        using "2.prems" False by (cases gv) (auto simp: bad_line_Cons line_code_def)
      then show ?thesis
        using "2.IH"(2) [OF refl False Some gv [symmetric] refl surjective_pairing [symmetric] j(2)]
          Some False
        by (simp add: case_prod_beta)
    qed
  qed
qed

lemma bad_line_exists:
  "(\<exists>l \<in> set lines. line_code l = None) \<longleftrightarrow> (\<exists>k. bad_line lines k)"
proof (induction lines)
  case Nil
  then show ?case by (simp add: bad_line_def)
next
  case (Cons l ls)
  have "(\<exists>k. bad_line (l # ls) k) \<longleftrightarrow> line_code l = None \<or> (\<exists>k. bad_line ls k)"
    by (auto simp: bad_line_Cons ex_disj_distrib)
  with Cons show ?case by simp
qed

lemma compile_cases:
  "compile base lines =
     (if \<exists>k. bad_line lines k
      then Inl (asm_syntax_exception (cast_int (int (THE k. bad_line lines k) + 1)))
      else Inr (to_vector (store_bytes (fresh_image base) base (concat (map (the \<circ> line_code) lines)))))"
proof (cases "\<exists>k. bad_line lines k")
  case True
  then obtain k where k: "bad_line lines k" ..
  then have "(THE k. bad_line lines k) = k"
    by (rule the_equality) (metis bad_line_def linorder_neqE_nat k)
  with True show ?thesis by (simp add: compile_def compile_from_bad [OF k])
next
  case False
  then have "\<not> (\<exists>l \<in> set lines. line_code l = None)"
    by (simp only: bad_line_exists not_False_eq_True)
  then have "\<forall>l \<in> set lines. line_code l \<noteq> None"
    by simp
  with False show ?thesis by (simp add: compile_def compile_from_ok del: not_None_eq)
qed

lemma compile_Inr_iff:
  "compile base lines = Inr v \<longleftrightarrow>
     (\<forall>l \<in> set lines. line_code l \<noteq> None) \<and>
     v = to_vector (store_bytes (fresh_image base) base (concat (map (the \<circ> line_code) lines)))"
  using bad_line_exists [of lines] by (auto simp: compile_cases)

lemma bad_line_unique: "bad_line lines k \<Longrightarrow> bad_line lines j \<Longrightarrow> k = j"
  by (metis bad_line_def linorder_neqE_nat)

section \<open>The image\<close>

text \<open>
  C16: A successful \<open>compile\<close> returns the whole address space of 65536 bytes, whatever was assembled:
  the bytes of the lines follow each other from the base address on (wrapping around at the end of
  the address space), the reset vector holds the base address where no code was put on it, and
  every other byte is \<open>$FF\<close>.
\<close>

theorem compile_image:
  assumes "compile base lines = Inr v"
  shows "length v = 65536 \<and>
    (\<exists>codes. map line_code lines = map Some codes \<and>
      (length (concat codes) \<le> 65536 \<longrightarrow>
        (\<forall>i < length (concat codes). v ! unat (base + word_of_nat i) = concat codes ! i)) \<and>
      (\<forall>ad. (\<forall>i < length (concat codes). ad \<noteq> base + word_of_nat i) \<longrightarrow>
        v ! unat ad = (if ad = 0xFFFC then lo8 base else if ad = 0xFFFD then hi8 base else 0xFF)))"
proof -
  define codes where "codes = map (the \<circ> line_code) lines"
  have ok: "\<forall>l \<in> set lines. line_code l \<noteq> None"
    and v: "v = to_vector (store_bytes (fresh_image base) base (concat codes))"
    using assms by (simp_all add: compile_Inr_iff codes_def)
  have "map line_code lines = map Some codes"
    using ok by (auto simp: codes_def)
  moreover have "fresh_image base ad =
      (if ad = 0xFFFC then lo8 base else if ad = 0xFFFD then hi8 base else 0xFF)" for ad
    by (simp add: fresh_image_def lo8_def hi8_def)
  ultimately show ?thesis
    unfolding v nth_to_vector length_to_vector
    by (intro conjI refl exI [of _ codes])
      (auto simp: store_bytes_inside store_bytes_outside)
qed

lemma sample_codes:
  "line_code '' ; reset'' = Some []"
  "line_code ''  lda #$1F ; one'' = Some [0xA9, 0x1F]"
  "line_code ''bne -4'' = Some [0xD0, 0xFC]"
  "line_code ''lda ($51),x'' = None"
  by code_simp+

lemma compile_image_witness:
  "\<exists>v. compile 0x0400 ['' ; reset'', ''  lda #$1F ; one'', ''bne -4''] = Inr v \<and> length v = 65536
    \<and> v ! unat (0x0401 :: uint16) = 0x1F"
proof -
  let ?lines = "['' ; reset'', ''  lda #$1F ; one'', ''bne -4'']"
  obtain v where v: "compile 0x0400 ?lines = Inr v"
    using compile_Inr_iff [of "0x0400" ?lines] by (auto simp: sample_codes)
  obtain codes where "length v = 65536" and c: "map line_code ?lines = map Some codes"
    and i: "length (concat codes) \<le> 65536 \<longrightarrow>
      (\<forall>i < length (concat codes). v ! unat (0x0400 + word_of_nat i :: uint16) = concat codes ! i)"
    using compile_image [OF v] by blast
  have "codes = [[], [0xA9, 0x1F], [0xD0, 0xFC]]"
    using c by (auto simp: sample_codes)
  then have "\<forall>i < 4. v ! unat (0x0400 + word_of_nat i :: uint16) = [0xA9, 0x1F, 0xD0, 0xFC] ! i"
    using i by simp
  from spec [OF this, of 1] have "v ! unat (0x0401 :: uint16) = 0x1F" by simp
  with v \<open>length v = 65536\<close> show ?thesis by blast
qed

section \<open>The error\<close>

text \<open>
  C10: \<open>compile\<close> throws exactly when some line is neither blank nor a comment nor an instruction
  with one of its addressing modes, and then the message names the first such line, counted from 1,
  blank and comment lines included.
\<close>

theorem compile_reports_first_bad_line:
  assumes "length lines < 2 ^ 31"
  shows "compile base lines = Inl e \<longleftrightarrow>
    (\<exists>n < length lines. what e = ''Syntax error at line: '' @ show_dec (n + 1) \<and>
       line_code (lines ! n) = None \<and> (\<forall>k < n. line_code (lines ! k) \<noteq> None))"
proof -
  have msg: "what e = ''Syntax error at line: '' @ show_dec (n + 1) \<longleftrightarrow>
      e = asm_syntax_exception (cast_int (int n + 1))" if "n < length lines" for n
  proof -
    have "n + 1 < 2147483648" using that assms by simp
    then have "cast_int (int n + 1) = int (n + 1)" by (simp add: cast_int_small)
    then show ?thesis
      by (cases e) (simp add: what_def asm_syntax_exception_def format_error_def show_int_def
          nat_add_distrib)
  qed
  show ?thesis
  proof
    assume "compile base lines = Inl e"
    then obtain k where k: "bad_line lines k" and e: "e = asm_syntax_exception (cast_int (int k + 1))"
      by (auto simp: compile_cases bad_line_unique the_equality split: if_splits)
    then show "\<exists>n < length lines. what e = ''Syntax error at line: '' @ show_dec (n + 1) \<and>
       line_code (lines ! n) = None \<and> (\<forall>k < n. line_code (lines ! k) \<noteq> None)"
      using msg by (intro exI [of _ k]) (auto simp: bad_line_def)
  next
    assume "\<exists>n < length lines. what e = ''Syntax error at line: '' @ show_dec (n + 1) \<and>
       line_code (lines ! n) = None \<and> (\<forall>k < n. line_code (lines ! k) \<noteq> None)"
    then obtain n where "bad_line lines n" "e = asm_syntax_exception (cast_int (int n + 1))"
      using msg by (auto simp: bad_line_def)
    then show "compile base lines = Inl e"
      by (simp add: compile_def compile_from_bad)
  qed
qed

lemma compile_reports_first_bad_line_witness:
  "\<exists>e. compile 0x0400 ['' ; reset'', ''lda ($51),x'', ''lda ($51),x''] = Inl e
    \<and> what e = ''Syntax error at line: 2''"
proof -
  let ?lines = "['' ; reset'', ''lda ($51),x'', ''lda ($51),x'']"
  let ?e = "\<lparr>exc_msg = ''Syntax error at line: 2''\<rparr>"
  have d: "show_dec (Suc (Suc 0)) = ''2''"
    by (simp add: show_dec.simps [of "Suc (Suc 0)"] hex_digit_def)
  have "\<exists>n < length ?lines. what ?e = ''Syntax error at line: '' @ show_dec (n + 1) \<and>
      line_code (?lines ! n) = None \<and> (\<forall>k < n. line_code (?lines ! k) \<noteq> None)"
    by (rule exI [of _ 1]) (simp add: what_def sample_codes d)
  then have "compile 0x0400 ?lines = Inl ?e"
    by (subst compile_reports_first_bad_line) simp_all
  then show ?thesis by (intro exI [of _ ?e]) (simp add: what_def)
qed

end
