(* ===== verification/Assembler_Syntax.thy ===== *)
theory Assembler_Syntax
  imports Assembler_Spec
begin

text \<open>
  The assembler reads what the disassembler prints. First the regular expression is run, for
  arbitrary mnemonics and operand bytes, on every shape of line that \<open>UnAsm::unasm_line\<close> produces;
  then the instruction mapper is compared with the opcode matrix of the processor. Both together
  give that assembling a disassembled line gives its bytes back.
\<close>

section \<open>Lines in the disassembler's syntax\<close>

fun at_of :: "Params \<Rightarrow> AddressingType" where
  "at_of Null = AT_Implied"
| "at_of Accumulator = AT_Accumulator"
| "at_of Immediate = AT_Immediate"
| "at_of Relative = AT_Relative"
| "at_of AbsConst = AT_Absolute"
| "at_of ZeroPage = AT_Zero_Page"
| "at_of ZeroPageX = AT_Zero_Page_X"
| "at_of ZeroPageY = AT_Zero_Page_Y"
| "at_of Absolute = AT_Absolute"
| "at_of AbsoluteX = AT_Absolute_X"
| "at_of AbsoluteY = AT_Absolute_Y"
| "at_of Indirect = AT_Indirect"
| "at_of IndirectX = AT_Indirect_X"
| "at_of IndirectY = AT_Indirect_Y"

text \<open>The number that the operand of a mode stands for.\<close>

definition operand_value :: "Params \<Rightarrow> uint8 \<Rightarrow> uint8 \<Rightarrow> int" where
  "operand_value mode lo hi =
     (if operand_len mode = 0 then 0
      else if mode = Relative then sint lo
      else if operand_len mode = 1 then int (unat lo)
      else int (unat (le16 lo hi)))"

lemma assemble_hex_byte:
  assumes "isupper a" "isupper b" "isupper d" "isxdigit h1" "isxdigit h2"
  shows "assemble_line ([a, b, d] @ '' #$'' @ [h1, h2]) =
      map_option (\<lambda>g. (g, cast_int (strtoul16 [h1, h2])))
        (instruction_mapper (AsmInstrKey [a, b, d] AT_Immediate))"
    "assemble_line ([a, b, d] @ '' $'' @ [h1, h2]) =
      map_option (\<lambda>g. (g, cast_int (strtoul16 [h1, h2])))
        (instruction_mapper (AsmInstrKey [a, b, d] AT_Zero_Page))"
    "assemble_line ([a, b, d] @ '' $'' @ [h1, h2] @ '',X'') =
      map_option (\<lambda>g. (g, cast_int (strtoul16 [h1, h2])))
        (instruction_mapper (AsmInstrKey [a, b, d] AT_Zero_Page_X))"
    "assemble_line ([a, b, d] @ '' $'' @ [h1, h2] @ '', X'') =
      map_option (\<lambda>g. (g, cast_int (strtoul16 [h1, h2])))
        (instruction_mapper (AsmInstrKey [a, b, d] AT_Zero_Page_X))"
    "assemble_line ([a, b, d] @ '' $'' @ [h1, h2] @ '',Y'') =
      map_option (\<lambda>g. (g, cast_int (strtoul16 [h1, h2])))
        (instruction_mapper (AsmInstrKey [a, b, d] AT_Zero_Page_Y))"
    "assemble_line ([a, b, d] @ '' ($'' @ [h1, h2] @ '',X)'') =
      map_option (\<lambda>g. (g, cast_int (strtoul16 [h1, h2])))
        (instruction_mapper (AsmInstrKey [a, b, d] AT_Indirect_X))"
    "assemble_line ([a, b, d] @ '' ($'' @ [h1, h2] @ ''),Y'') =
      map_option (\<lambda>g. (g, cast_int (strtoul16 [h1, h2])))
        (instruction_mapper (AsmInstrKey [a, b, d] AT_Indirect_Y))"
  using assms by (simp_all add: matching option.case_eq_if map_option_case)

lemma assemble_hex_word:
  assumes "isupper a" "isupper b" "isupper d" "isxdigit h1" "isxdigit h2" "isxdigit h3" "isxdigit h4"
  shows "assemble_line ([a, b, d] @ '' $'' @ [h1, h2, h3, h4]) =
      map_option (\<lambda>g. (g, cast_int (strtoul16 [h1, h2, h3, h4])))
        (instruction_mapper (AsmInstrKey [a, b, d] AT_Absolute))"
    "assemble_line ([a, b, d] @ '' $'' @ [h1, h2, h3, h4] @ '',X'') =
      map_option (\<lambda>g. (g, cast_int (strtoul16 [h1, h2, h3, h4])))
        (instruction_mapper (AsmInstrKey [a, b, d] AT_Absolute_X))"
    "assemble_line ([a, b, d] @ '' $'' @ [h1, h2, h3, h4] @ '', X'') =
      map_option (\<lambda>g. (g, cast_int (strtoul16 [h1, h2, h3, h4])))
        (instruction_mapper (AsmInstrKey [a, b, d] AT_Absolute_X))"
    "assemble_line ([a, b, d] @ '' $'' @ [h1, h2, h3, h4] @ '',Y'') =
      map_option (\<lambda>g. (g, cast_int (strtoul16 [h1, h2, h3, h4])))
        (instruction_mapper (AsmInstrKey [a, b, d] AT_Absolute_Y))"
    "assemble_line ([a, b, d] @ '' $'' @ [h1, h2, h3, h4] @ '', Y'') =
      map_option (\<lambda>g. (g, cast_int (strtoul16 [h1, h2, h3, h4])))
        (instruction_mapper (AsmInstrKey [a, b, d] AT_Absolute_Y))"
    "assemble_line ([a, b, d] @ '' ($'' @ [h1, h2, h3, h4] @ '')'') =
      map_option (\<lambda>g. (g, cast_int (strtoul16 [h1, h2, h3, h4])))
        (instruction_mapper (AsmInstrKey [a, b, d] AT_Indirect))"
  using assms by (simp_all add: matching option.case_eq_if map_option_case)

lemma assemble_bare:
  assumes "isupper a" "isupper b" "isupper d"
  shows "assemble_line [a, b, d] =
      map_option (\<lambda>g. (g, 0)) (instruction_mapper (AsmInstrKey [a, b, d] AT_Implied))"
    "assemble_line ([a, b, d] @ '' A'') =
      map_option (\<lambda>g. (g, 0)) (instruction_mapper (AsmInstrKey [a, b, d] AT_Accumulator))"
  using assms by (simp_all add: matching option.case_eq_if map_option_case)

lemma assemble_relative:
  assumes "isupper a" "isupper b" "isupper d" "isdigit e" "list_all isdigit es"
  shows "assemble_line ([a, b, d] @ '' '' @ e # es) =
      map_option (\<lambda>g. (g, atoi (e # es))) (instruction_mapper (AsmInstrKey [a, b, d] AT_Relative))"
    "assemble_line ([a, b, d] @ '' -'' @ e # es) =
      map_option (\<lambda>g. (g, atoi (CHR ''-'' # e # es))) (instruction_mapper (AsmInstrKey [a, b, d] AT_Relative))"
  using assms by (simp_all add: matching match_many_run option.case_eq_if map_option_case)

lemma cast_int_byte: "cast_int (int (unat (v :: uint8))) = int (unat v)"
proof -
  have "unat v < 2147483648" using unat8_less [of v] by linarith
  then show ?thesis by (simp add: cast_int_small del: of_nat_unat)
qed

lemma cast_int_word: "cast_int (int (unat (w :: uint16))) = int (unat w)"
proof -
  have "unat w < 2147483648" using unat16_less [of w] by linarith
  then show ?thesis by (simp add: cast_int_small del: of_nat_unat)
qed

lemma show_int_cases:
  obtains (neg) e es where "show_int i = CHR ''-'' # e # es" "isdigit e" "list_all isdigit es"
    | (pos) e es where "show_int i = e # es" "isdigit e" "list_all isdigit es"
proof -
  have digits: "\<exists>e es. show_dec n = e # es \<and> isdigit e \<and> list_all isdigit es" for n
    using show_dec_digits [of _ n] show_dec_nonempty [of n]
    by (cases "show_dec n") (auto simp: list_all_iff)
  show thesis
    using digits [of "nat i"] digits [of "nat (- i)"] that
    by (cases "i < 0") (auto simp: show_int_def)
qed

lemma sint_byte_bounds: "- 128 \<le> sint (v :: uint8)" "sint (v :: uint8) < 128"
  using sint_greater_eq [of v] sint_less [of v] by simp_all

definition blank_modes :: "Params list" where
  "blank_modes = [ZeroPageX, AbsoluteX, AbsoluteY]"

lemma assemble_syntax:
  assumes "length name = 3" and "list_all isupper name"
    and "mode \<in> set blank_modes \<or> \<not> blank"
  shows "assemble_line (name @ separated (spaced blank (operand_syntax mode lo hi))) =
    map_option (\<lambda>g. (g, operand_value mode lo hi)) (instruction_mapper (AsmInstrKey name (at_of mode)))"
proof -
  obtain a b d where name: "name = [a, b, d]" and up: "isupper a" "isupper b" "isupper d"
    using assms(1,2) by (auto simp: numeral_3_eq_3 length_Suc_conv)
  have h2: "isxdigit (hex_digit (unat lo div 16))" "isxdigit (hex_digit (unat lo mod 16))"
    using high_digits(1) [of lo] by simp_all
  define w where "w = le16 lo hi"
  have h4: "isxdigit (hex_digit (unat w div 4096))" "isxdigit (hex_digit (unat w div 256 mod 16))"
    "isxdigit (hex_digit (unat w div 16 mod 16))" "isxdigit (hex_digit (unat w mod 16))"
    using high_digits(2) [of w] by simp_all
  note bytes = assemble_hex_byte [OF up h2, unfolded strtoul16_byte [OF unat8_less] cast_int_byte, folded hex2_digits]
  note words = assemble_hex_word [OF up h4, unfolded strtoul16_word [OF unat16_less] cast_int_word, folded hex4_digits]
  have rel: "assemble_line ([a, b, d] @ '' '' @ show_int (sint lo)) =
    map_option (\<lambda>g. (g, sint lo)) (instruction_mapper (AsmInstrKey [a, b, d] AT_Relative))"
  proof -
    have "atoi (show_int (sint lo)) = sint lo"
      using sint_byte_bounds [of lo] by (intro atoi_show_int) simp_all
    then show ?thesis
      by (cases "sint lo" rule: show_int_cases) (use assemble_relative [OF up] in simp_all)
  qed
  show ?thesis
    using assms(3) bytes words rel assemble_bare [OF up]
    by (cases mode; cases blank)
      (simp_all add: name separated_def operand_value_def w_def [symmetric]
        blank_modes_def del: of_nat_unat)
qed

lemma decoded_blank: "fst (decoded code) \<in> set blank_modes \<or> \<not> snd (decoded code)"
  by (auto simp: decoded_def Let_def decoded_0_def decoded_1_def decoded_2_def decoded_3_def
      blank_modes_def)


section \<open>Operands that are rejected\<close>

text \<open>
  Indexed forms with the wrong register or parentheses that do not balance, and literals that
  have neither two nor four digits or do not fit the mode.
\<close>

definition malformed :: "char \<Rightarrow> char \<Rightarrow> char \<Rightarrow> char \<Rightarrow> char \<Rightarrow> char \<Rightarrow> string list" where
  "malformed h1 h2 h3 h4 x y =
     [''($'' @ [h1, h2] @ ''),'' @ [x],
      ''($'' @ [h1, h2] @ '','' @ [y] @ '')'',
      ''($'' @ [h1, h2] @ '','' @ [x],
      ''$'' @ [h1, h2] @ '','' @ [x] @ '')'',
      ''($'' @ [h1, h2] @ '')'',
      ''($'' @ [h1, h2, h3, h4] @ '','' @ [x] @ '')'',
      ''#$'' @ [h1, h2, h3, h4],
      ''#$'' @ [h1, h2] @ '','' @ [x],
      ''$'' @ [h1],
      ''$'' @ [h1, h2, h3],
      ''#$'' @ [h1]]"

lemma letter_facts:
  "any_letter ch \<Longrightarrow> \<not> isspace ch" "any_letter ch \<Longrightarrow> ch \<noteq> CHR '';''"
  by (auto simp: any_letter_def ctype_defs)

lemma index_letters:
  "x \<in> set ''xX'' \<Longrightarrow> icase CHR ''x'' x \<and> \<not> icase CHR ''y'' x \<and> toupper x = CHR ''X'' \<and> \<not> isspace x"
  "y \<in> set ''yY'' \<Longrightarrow> icase CHR ''y'' y \<and> \<not> icase CHR ''x'' y \<and> toupper y = CHR ''Y'' \<and> \<not> isspace y"
proof -
  have "list_all (\<lambda>x. icase CHR ''x'' x \<and> \<not> icase CHR ''y'' x \<and> toupper x = CHR ''X'' \<and> \<not> isspace x) ''xX''"
    "list_all (\<lambda>y. icase CHR ''y'' y \<and> \<not> icase CHR ''x'' y \<and> toupper y = CHR ''Y'' \<and> \<not> isspace y) ''yY''"
    by code_simp+
  then show "x \<in> set ''xX'' \<Longrightarrow> icase CHR ''x'' x \<and> \<not> icase CHR ''y'' x \<and> toupper x = CHR ''X'' \<and> \<not> isspace x"
    "y \<in> set ''yY'' \<Longrightarrow> icase CHR ''y'' y \<and> \<not> icase CHR ''x'' y \<and> toupper y = CHR ''Y'' \<and> \<not> isspace y"
    by (auto simp only: list_all_iff)
qed

lemma no_key_unkown: "instruction_mapper (AsmInstrKey name AT_Unkown) = None"
proof -
  have "list_all (\<lambda>e. case fst e of AsmInstrKey n t \<Rightarrow> t \<noteq> AT_Unkown) build_instr_mapper"
    by code_simp
  then have "(AsmInstrKey name AT_Unkown, g) \<notin> set build_instr_mapper" for g
    by (auto simp: list_all_iff)
  then show ?thesis
    by (metis instruction_mapper_iff not_None_eq)
qed

lemma letters_line:
  "any_letter a \<Longrightarrow> ltrim (a # rest) = a # rest" "any_letter a \<Longrightarrow> \<not> skipped (a # rest)"
  by (simp_all add: ltrim_def skipped_def letter_facts)



section \<open>The mapper and the opcode matrix\<close>

fun param_count :: "AddrT \<Rightarrow> nat" where
  "param_count addr_2Param = 2"
| "param_count addr_1Param = 1"
| "param_count addr_NoParams = 0"

fun opcode_of :: "AsmInstrGen \<Rightarrow> uint8" where
  "opcode_of (Asm2Code addr opcode) = word_of_int opcode"

fun entry_matches :: "AsmInstrKey \<times> AsmInstrGen \<Rightarrow> bool" where
  "entry_matches (AsmInstrKey name t, Asm2Code addr opcode) \<longleftrightarrow>
     (let i = instr_of (word_of_int opcode)
      in name = mnemonic i \<and> t = at_of (mode_of i) \<and> param_count addr = operand_len (mode_of i))"

definition assembled_opcodes :: "uint8 list" where
  "assembled_opcodes = map (opcode_of \<circ> snd) build_instr_mapper"

lemma mapper_entries_match: "list_all entry_matches build_instr_mapper"
  by code_simp

lemma instruction_mapper_matches: "instruction_mapper k = Some g \<Longrightarrow> entry_matches (k, g)"
  using mapper_entries_match by (auto simp: instruction_mapper_iff list_all_iff)

lemma assembled_opcode_entry:
  assumes "code \<in> set assembled_opcodes"
  obtains g where "instruction_mapper (AsmInstrKey (mnemonic (instr_of code)) (at_of (mode_of (instr_of code)))) = Some g"
    and "opcode_of g = code"
    and "entry_matches (AsmInstrKey (mnemonic (instr_of code)) (at_of (mode_of (instr_of code))), g)"
proof -
  obtain k g where kg: "(k, g) \<in> set build_instr_mapper" "opcode_of g = code"
    using assms by (auto simp: assembled_opcodes_def)
  then have m: "entry_matches (k, g)" using mapper_entries_match by (auto simp: list_all_iff)
  then have "k = AsmInstrKey (mnemonic (instr_of code)) (at_of (mode_of (instr_of code)))"
    using kg(2) by (cases k; cases g) (auto simp: Let_def)
  with m kg show thesis by (intro that [of g]) (simp_all add: instruction_mapper_iff)
qed

section \<open>The bytes of a disassembled line\<close>

definition instr_bytes :: "uint8 \<Rightarrow> uint8 \<Rightarrow> uint8 \<Rightarrow> uint8 list" where
  "instr_bytes code lo hi = take (1 + operand_len (mode_of (instr_of code))) [code, lo, hi]"

lemma unat_le16: "unat (le16 lo hi) = unat lo + 256 * unat hi"
proof -
  have "le16 lo hi = ucast lo + push_bit 8 (ucast hi)"
    unfolding le16_def
    by (rule disjunctive_add [symmetric]) (auto simp: bit_simps dest: bit_imp_le_length)
  also have "\<dots> = word_of_nat (unat lo + 256 * unat hi)"
    by (simp add: push_bit_eq_mult mult.commute)
  finally have w: "le16 lo hi = word_of_nat (unat lo + 256 * unat hi)" .
  have "unat lo + 256 * unat hi < 65536"
    using unat8_less [of lo] unat8_less [of hi] by linarith
  then show ?thesis
    unfolding w by (simp only: unat_of_nat) (simp add: take_bit_nat_eq_self)
qed

lemma word_of_unat8: "word_of_nat (unat lo) = (lo :: uint8)"
  by simp

lemma low_byte_word: "(word_of_nat (unat (le16 lo hi)) :: uint8) = lo"
proof -
  have zero: "(256 :: uint8) = 0" by simp
  show ?thesis by (simp add: unat_le16 zero word_of_unat8 del: of_nat_unat)
qed

lemma high_byte_word: "(word_of_int (int (unat (le16 lo hi)) div 256) :: uint8) = hi"
proof -
  have "int (unat (le16 lo hi)) div 256 = int (unat hi)"
    using unat8_less [of lo] by (simp add: unat_le16 del: of_nat_unat)
  then show ?thesis by simp
qed

lemma encoding_operand:
  assumes "entry_matches (k, g)" and "opcode_of g = code"
  shows "encoding g (operand_value (mode_of (instr_of code)) lo hi) = instr_bytes code lo hi"
proof -
  obtain A op where g: "g = Asm2Code A op" by (cases g)
  with assms have n: "param_count A = operand_len (mode_of (instr_of code))" and op: "word_of_int op = code"
    by (cases k; auto simp: Let_def)+
  from n op show ?thesis
    by (cases A; cases "mode_of (instr_of code)")
      (simp_all add: g instr_bytes_def operand_value_def low_byte_word high_byte_word word_of_unat8 del: of_nat_unat)
qed

lemma letters_not_skipped:
  assumes "length name = 3" and "list_all isupper name"
  shows "ltrim (name @ rest) = name @ rest" and "\<not> skipped (name @ rest)"
proof -
  obtain a b d where "name = [a, b, d]" "isupper a"
    using assms by (auto simp: numeral_3_eq_3 length_Suc_conv)
  moreover have "a \<noteq> CHR '';''" using \<open>isupper a\<close> by (auto simp: isupper_def)
  ultimately show "ltrim (name @ rest) = name @ rest" "\<not> skipped (name @ rest)"
    by (simp_all add: ltrim_def upper_facts skipped_def)
qed

lemma line_code_disassembled:
  assumes "code \<in> set assembled_opcodes"
  shows "line_code (line_text code lo hi) = Some (instr_bytes code lo hi)"
proof -
  obtain g where g: "instruction_mapper (AsmInstrKey (mnemonic (instr_of code)) (at_of (mode_of (instr_of code)))) = Some g"
    "opcode_of g = code"
    "entry_matches (AsmInstrKey (mnemonic (instr_of code)) (at_of (mode_of (instr_of code))), g)"
    using assembled_opcode_entry [OF assms] .
  have at: "at_of (fst (decoded code)) = at_of (mode_of (instr_of code))"
    "operand_value (fst (decoded code)) = operand_value (mode_of (instr_of code))"
    using decoder_agrees [of code] by (auto simp: operand_value_def fun_eq_iff)
  have "assemble_line (line_text code lo hi) = Some (g, operand_value (mode_of (instr_of code)) lo hi)"
    using assemble_syntax [OF conjunct1 [OF mnemonic_letters] conjunct2 [OF mnemonic_letters] decoded_blank]
      decoder_agrees [of code] g(1)
    by (simp add: line_text_def case_prod_beta at)
  then show ?thesis
    using letters_not_skipped [OF conjunct1 [OF mnemonic_letters] conjunct2 [OF mnemonic_letters]]
    by (simp add: line_code_def line_text_eq encoding_operand [OF g(3,2)])
qed

section \<open>The assembler writes exactly the documented instructions\<close>

definition official :: "Impl list" where
  "official = [ADC_Impl, AND_Impl, ASL_Impl, BCC_Impl, BCS_Impl, BEQ_Impl, BIT_Impl, BMI_Impl,
     BNE_Impl, BPL_Impl, BRK_Impl, BVC_Impl, BVS_Impl, CLC_Impl, CLD_Impl, CLI_Impl, CLV_Impl,
     CMP_Impl, CPX_Impl, CPY_Impl, DEC_Impl, DEX_Impl, DEY_Impl, EOR_Impl, INC_Impl, INX_Impl,
     INY_Impl, JMP_Impl, JSR_Impl, LDA_Impl, LDX_Impl, LDY_Impl, LSR_Impl, NOP_Impl, ORA_Impl,
     PHA_Impl, PHP_Impl, PLA_Impl, PLP_Impl, ROL_Impl, ROR_Impl, RTI_Impl, RTS_Impl, SBC_Impl,
     SEC_Impl, SED_Impl, SEI_Impl, STA_Impl, STX_Impl, STY_Impl, TAX_Impl, TAY_Impl, TSX_Impl,
     TXA_Impl, TXS_Impl, TYA_Impl]"

fun documented :: "BaseInstruction \<Rightarrow> bool" where
  "documented (Inst I M n) \<longleftrightarrow> I \<in> set official \<and> (I = NOP_Impl \<longrightarrow> M = Null)"
| "documented (SHx_Inst M n Reg) \<longleftrightarrow> False"

definition key_of :: "BaseInstruction \<Rightarrow> AsmInstrKey" where
  "key_of i = AsmInstrKey (mnemonic i) (at_of (mode_of i))"

lemma assembled_documented: "list_all (documented \<circ> instr_of) assembled_opcodes"
  by code_simp

text \<open>The documented entries outside the mapper are the copies of NOP and SBC among the undocumented opcodes.\<close>

definition entry_covered :: "uint8 \<Rightarrow> BaseInstruction \<Rightarrow> bool" where
  "entry_covered code i \<longleftrightarrow>
     (if documented i
      then code \<in> set [0x1A, 0x3A, 0x5A, 0x7A, 0xDA, 0xFA, 0xEB] \<or> code \<in> set assembled_opcodes
      else True)"

lemma table_all_append:
  "table_all Q i (xs @ ys) \<longleftrightarrow> table_all Q i xs \<and> table_all Q (i + word_of_nat (length xs)) ys"
  by (induction xs arbitrary: i) (simp_all add: add.assoc)

lemma rows_covered_1: "table_all entry_covered 0x00 (row_0 @ row_1 @ row_2 @ row_3)"
  by code_simp

lemma rows_covered_2: "table_all entry_covered 0x40 (row_4 @ row_5 @ row_6 @ row_7)"
  by code_simp

lemma rows_covered_3: "table_all entry_covered 0x80 (row_8 @ row_9 @ row_A @ row_B)"
  by code_simp

lemma rows_covered_4: "table_all entry_covered 0xC0 (row_C @ row_D @ row_E @ row_F)"
  by code_simp

lemma row_lengths [simp]:
  "length row_0 = 16" "length row_1 = 16" "length row_2 = 16" "length row_3 = 16"
  "length row_4 = 16" "length row_5 = 16" "length row_6 = 16" "length row_7 = 16"
  "length row_8 = 16" "length row_9 = 16" "length row_A = 16" "length row_B = 16"
  "length row_C = 16" "length row_D = 16" "length row_E = 16" "length row_F = 16"
  by (simp_all add: row_defs)

lemma entries_covered: "table_all entry_covered 0 instruction_table"
  using rows_covered_1 rows_covered_2 rows_covered_3 rows_covered_4
  by (simp add: instruction_table_def table_all_append)

lemma copies:
  "instr_of 0x1A = instr_of 0xEA" "instr_of 0x3A = instr_of 0xEA" "instr_of 0x5A = instr_of 0xEA"
  "instr_of 0x7A = instr_of 0xEA" "instr_of 0xDA = instr_of 0xEA" "instr_of 0xFA = instr_of 0xEA"
  "instr_of 0xEB = instr_of 0xE9"
  by (simp_all add: instr_of_def instruction_table_def row_defs)

lemma assembled_copies: "0xEA \<in> set assembled_opcodes" "0xE9 \<in> set assembled_opcodes"
  by code_simp+

text \<open>
  C23: The instruction mapper and the opcode matrix agree. Every key of the mapper is the
  mnemonic and the addressing mode of a documented instruction, its opcode is the opcode of that
  instruction and its generator emits as many operand bytes as that mode reads; and every
  documented instruction of the matrix has its key in the mapper.
\<close>

theorem mapper_agrees_with_table:
  "(\<forall>key g. instruction_mapper key = Some g \<longrightarrow>
      documented (instr_of (opcode_of g)) \<and> key = key_of (instr_of (opcode_of g)) \<and>
      length (encoding g v) = 1 + operand_len (mode_of (instr_of (opcode_of g)))) \<and>
   (\<forall>code. documented (instr_of code) \<longrightarrow> instruction_mapper (key_of (instr_of code)) \<noteq> None)"
proof (intro conjI allI impI)
  fix key g assume k: "instruction_mapper key = Some g"
  then have "opcode_of g \<in> set assembled_opcodes"
    by (force simp: instruction_mapper_iff assembled_opcodes_def)
  then show "documented (instr_of (opcode_of g))"
    using assembled_documented by (auto simp: list_all_iff)
  have m: "entry_matches (key, g)" by (rule instruction_mapper_matches [OF k])
  then show "key = key_of (instr_of (opcode_of g))"
    by (cases key; cases g) (auto simp: key_of_def Let_def)
  show "length (encoding g v) = 1 + operand_len (mode_of (instr_of (opcode_of g)))"
    using m by (cases key; cases g; cases "case g of Asm2Code A n \<Rightarrow> A") (auto simp: Let_def)
next
  fix code assume doc: "documented (instr_of code)"
  have "entry_covered code (instr_of code)" by (rule instr_of_all [OF entries_covered])
  with doc have "\<exists>c \<in> set assembled_opcodes. instr_of c = instr_of code"
    using assembled_copies copies by (auto simp: entry_covered_def)
  then obtain c where c: "c \<in> set assembled_opcodes" "instr_of c = instr_of code" ..
  show "instruction_mapper (key_of (instr_of code)) \<noteq> None"
    using assembled_opcode_entry [OF c(1)] by (auto simp: key_of_def c(2))
qed

section \<open>Listings\<close>

text \<open>\<open>n\<close> lines of a listing, as a debugger shows them: each line starts where the previous one ended.\<close>

fun unasm_lines :: "'b Bus \<Rightarrow> nat \<Rightarrow> Registers \<Rightarrow> 'b \<Rightarrow> string list \<times> Registers \<times> 'b" where
  "unasm_lines B 0 r s = ([], r, s)"
| "unasm_lines B (Suc n) r s =
     (let (line, r, s) = unasm_line B r s; (lines, r, s) = unasm_lines B n r s
      in (line # lines, r, s))"

definition instr_len :: "uint8 \<Rightarrow> nat" where
  "instr_len code = 1 + operand_len (mode_of (instr_of code))"

fun starts :: "mem \<Rightarrow> nat \<Rightarrow> uint16 \<Rightarrow> uint16 list" where
  "starts m 0 pc = []"
| "starts m (Suc n) pc = pc # starts m n (pc + word_of_nat (instr_len (m pc)))"

definition span :: "mem \<Rightarrow> nat \<Rightarrow> uint16 \<Rightarrow> nat" where
  "span m n pc = sum_list (map (instr_len \<circ> m) (starts m n pc))"

lemma instr_bytes_mem:
  "instr_bytes (m pc) (m (pc + 1)) (m (pc + 2)) = map (\<lambda>k. m (pc + word_of_nat k)) [0..<instr_len (m pc)]"
  by (cases "mode_of (instr_of (m pc))") (simp_all add: instr_bytes_def instr_len_def upt_conv_Cons)

lemma listing_bytes:
  "concat (map (\<lambda>pc. map (\<lambda>k. m (pc + word_of_nat k)) [0..<instr_len (m pc)]) (starts m n pc))
     = map (\<lambda>k. m (pc + word_of_nat k)) [0..<span m n pc]"
proof (induction n arbitrary: pc)
  case 0
  then show ?case by (simp add: span_def)
next
  case (Suc n)
  let ?l = "instr_len (m pc)"
  have "span m (Suc n) pc = ?l + span m n (pc + word_of_nat ?l)"
    by (simp add: span_def)
  moreover have "map (\<lambda>k. m (pc + word_of_nat ?l + word_of_nat k)) [0..<j]
      = map (\<lambda>k. m (pc + word_of_nat k)) [?l..<?l + j]" for j
    by (rule nth_equalityI) (simp_all add: add.assoc)
  ultimately show ?case
    using Suc.IH [of "pc + word_of_nat ?l"] by (simp add: upt_add_eq_append [of 0 ?l])
qed

lemma unasm_lines_ram:
  assumes "ram_bus B view ok" and "ok s" and "unasm_lines B n r s = (lines, r', s')"
  shows "lines = map (\<lambda>pc. line_text (view s pc) (view s (pc + 1)) (view s (pc + 2)))
           (starts (view s) n (reg_pc r)) \<and>
    reg_pc r' = reg_pc r + word_of_nat (span (view s) n (reg_pc r)) \<and> view s' = view s"
  using assms(2,3)
proof (induction n arbitrary: r s lines)
  case 0
  then show ?case by (simp add: span_def)
next
  case (Suc n)
  obtain t at' s1 where u: "unasm_at B (reg_pc r) s = (t, at', s1)"
    by (metis prod_cases3)
  note one = ram_bus.unasm_at_ram [OF assms(1) Suc.prems(1) u]
  obtain ts where ts: "unasm_lines B n (r\<lparr>reg_pc := at'\<rparr>) s1 = (ts, r', s')" "lines = t # ts"
    using Suc.prems(2) by (auto simp: unasm_line_def u Let_def split: prod.splits)
  have "at' = reg_pc r + word_of_nat (instr_len (view s (reg_pc r)))"
    by (simp add: one(2) instr_len_def)
  with Suc.IH [OF one(4) ts(1)] ts(2) one show ?case
    by (simp add: span_def add.assoc)
qed

text \<open>
  C3: Reassembling a listing gives the code back. Take \<open>n\<close> lines of disassembly from an address of a
  RAM whose instructions there are documented ones (official opcodes; the listing does not run around the
  whole address space). Handed to an assembler with that base address, the lines assemble
  without error, and the image agrees with the RAM on every byte the listing covered, the operands and
  branch displacements included.
\<close>

theorem reassembled_listing:
  assumes "ram_bus B view ok" and "ok s" and "unasm_lines B n r s = (lines, r', s')"
    and "\<forall>pc \<in> set (starts (view s) n (reg_pc r)). view s pc \<in> set assembled_opcodes"
    and "span (view s) n (reg_pc r) \<le> 65536"
  shows "\<exists>v. compile (reg_pc r) lines = Inr v \<and>
    (\<forall>i < span (view s) n (reg_pc r).
       v ! unat (reg_pc r + word_of_nat i) = view s (reg_pc r + word_of_nat i)) \<and>
    reg_pc r' = reg_pc r + word_of_nat (span (view s) n (reg_pc r))"
proof -
  let ?m = "view s" and ?pc = "reg_pc r"
  let ?code = "map (\<lambda>k. ?m (?pc + word_of_nat k)) [0..<span ?m n ?pc]"
  note l = unasm_lines_ram [OF assms(1-3)]
  have ok: "line_code (line_text (?m ad) (?m (ad + 1)) (?m (ad + 2)))
      = Some (map (\<lambda>k. ?m (ad + word_of_nat k)) [0..<instr_len (?m ad)])"
    if "ad \<in> set (starts ?m n ?pc)" for ad
    using line_code_disassembled assms(4) that by (simp add: instr_bytes_mem)
  have "concat (map (the \<circ> line_code) lines) = concat (map (\<lambda>ad.
      map (\<lambda>k. ?m (ad + word_of_nat k)) [0..<instr_len (?m ad)]) (starts ?m n ?pc))"
    using l by (simp add: ok cong: map_cong)
  also have "\<dots> = ?code" by (rule listing_bytes)
  finally have "compile ?pc lines = Inr (to_vector (store_bytes (fresh_image ?pc) ?pc ?code))"
    using l ok by (auto simp: compile_Inr_iff)
  then show ?thesis
    using l assms(5) store_bytes_inside [of ?code _ "fresh_image ?pc" ?pc]
    by (simp add: nth_to_vector)
qed

definition sample_ram :: mem where
  "sample_ram = (\<lambda>_. 0)(0x0400 := 0xA9, 0x0401 := 0x1F, 0x0402 := 0xD0, 0x0403 := 0xFC)"

lemma sample_entries:
  "instr_of 0xA9 = Inst LDA_Impl Immediate 2" "instr_of 0xD0 = Inst BNE_Impl Relative 2"
  "0xA9 \<in> set assembled_opcodes" "0xD0 \<in> set assembled_opcodes"
  by (simp_all add: instr_of_def instruction_table_def row_defs) code_simp+

lemma sample_starts:
  "starts sample_ram (Suc (Suc 0)) 0x0400 = [0x0400, 0x0402]"
  "span sample_ram (Suc (Suc 0)) 0x0400 = 4"
  by (simp_all add: span_def sample_ram_def instr_len_def sample_entries)

lemma sample_opcodes:
  "sample_ram 0x0400 \<in> set assembled_opcodes" "sample_ram 0x0402 \<in> set assembled_opcodes"
  by (simp_all add: sample_ram_def sample_entries)

lemma reassembled_listing_witness:
  "\<exists>lines v. fst (unasm_lines array_Bus (Suc (Suc 0)) (Registers_zero\<lparr>reg_pc := 0x0400\<rparr>) sample_ram) = lines
    \<and> compile 0x0400 lines = Inr v \<and> v ! unat (0x0403 :: uint16) = 0xFC"
proof -
  obtain ls r s where u:
    "unasm_lines array_Bus (Suc (Suc 0)) (Registers_zero\<lparr>reg_pc := 0x0400\<rparr>) sample_ram = (ls, r, s)"
    by (metis prod_cases3)
  obtain v where v: "compile 0x0400 ls = Inr v"
    and i: "\<forall>i < 4. v ! unat (0x0400 + word_of_nat i :: uint16) = sample_ram (0x0400 + word_of_nat i)"
    using reassembled_listing [OF array.ram_bus_axioms TrueI u] sample_opcodes
    by (auto simp: sample_starts simp del: starts.simps)
  from spec [OF i, of 3] have "v ! unat (0x0403 :: uint16) = 0xFC"
    by (simp add: sample_ram_def)
  with u v show ?thesis by auto
qed

lemma mapper_agrees_with_table_witness:
  "instruction_mapper (key_of (instr_of 0xA9)) \<noteq> None"
proof -
  have "documented (instr_of 0xA9)" by (simp add: sample_entries official_def)
  then show ?thesis using mapper_agrees_with_table by blast
qed

end
