(* ===== verification/Opcode_Constants.thy ===== *)
theory Opcode_Constants
  imports Assembler_Syntax
begin

text \<open>
  \<^verbatim>\<open>src/Opcode.h\<close>: the names of the documented opcodes. The tests and the debuggers write programs
  with these constants, the assembler has the numbers once more in its mapper, and the
  processor has them as positions in its matrix; the theorem says that the three agree.
\<close>

section \<open>The constants\<close>

definition opcode_constants_1 :: "(string \<times> int) list" where
  "opcode_constants_1 =
    [(''ADC_IMMEDIATE'', 0x69), (''ADC_ZERO_PAGE'', 0x65), (''ADC_ZERO_PAGE_X'', 0x75),
     (''ADC_ABSOLUTE'', 0x6D), (''ADC_ABSOLUTE_X'', 0x7D), (''ADC_ABSOLUTE_Y'', 0x79),
     (''ADC_INDIRECT_X'', 0x61), (''ADC_INDIRECT_Y'', 0x71), (''AND_IMMEDIATE'', 0x29),
     (''AND_ZERO_PAGE'', 0x25), (''AND_ZERO_PAGE_X'', 0x35), (''AND_ABSOLUTE'', 0x2D),
     (''AND_ABSOLUTE_X'', 0x3D), (''AND_ABSOLUTE_Y'', 0x39), (''AND_INDIRECT_X'', 0x21),
     (''AND_INDIRECT_Y'', 0x31), (''ASL_ACCUMULATOR'', 0x0A), (''ASL_ZERO_PAGE'', 0x06),
     (''ASL_ZERO_PAGE_X'', 0x16), (''ASL_ABSOLUTE'', 0x0E), (''ASL_ABSOLUTE_X'', 0x1E),
     (''BCC_RELATIVE'', 0x90), (''BCS_RELATIVE'', 0xB0), (''BEQ_RELATIVE'', 0xF0),
     (''BIT_ZERO_PAGE'', 0x24), (''BIT_ABSOLUTE'', 0x2C), (''BMI_RELATIVE'', 0x30),
     (''BNE_RELATIVE'', 0xD0), (''BPL_RELATIVE'', 0x10), (''BRK_IMPLIED'', 0x00),
     (''BVC_RELATIVE'', 0x50), (''BVS_RELATIVE'', 0x70), (''CLC_IMPLIED'', 0x18),
     (''CLD_IMPLIED'', 0xD8), (''CLI_IMPLIED'', 0x58), (''CLV_IMPLIED'', 0xB8),
     (''CMP_IMMEDIATE'', 0xC9), (''CMP_ZERO_PAGE'', 0xC5), (''CMP_ZERO_PAGE_X'', 0xD5),
     (''CMP_ABSOLUTE'', 0xCD), (''CMP_ABSOLUTE_X'', 0xDD), (''CMP_ABSOLUTE_Y'', 0xD9),
     (''CMP_INDIRECT_X'', 0xC1), (''CMP_INDIRECT_Y'', 0xD1), (''CPX_IMMEDIATE'', 0xE0),
     (''CPX_ZERO_PAGE'', 0xE4), (''CPX_ABSOLUTE'', 0xEC), (''CPY_IMMEDIATE'', 0xC0),
     (''CPY_ZERO_PAGE'', 0xC4), (''CPY_ABSOLUTE'', 0xCC), (''DEC_ZERO_PAGE'', 0xC6),
     (''DEC_ZERO_PAGE_X'', 0xD6), (''DEC_ABSOLUTE'', 0xCE), (''DEC_ABSOLUTE_X'', 0xDE),
     (''DEX_IMPLIED'', 0xCA), (''DEY_IMPLIED'', 0x88), (''EOR_IMMEDIATE'', 0x49),
     (''EOR_ZERO_PAGE'', 0x45), (''EOR_ZERO_PAGE_X'', 0x55), (''EOR_ABSOLUTE'', 0x4D),
     (''EOR_ABSOLUTE_X'', 0x5D), (''EOR_ABSOLUTE_Y'', 0x59), (''EOR_INDIRECT_X'', 0x41),
     (''EOR_INDIRECT_Y'', 0x51), (''INC_ZERO_PAGE'', 0xE6), (''INC_ZERO_PAGE_X'', 0xF6),
     (''INC_ABSOLUTE'', 0xEE), (''INC_ABSOLUTE_X'', 0xFE), (''INX_IMPLIED'', 0xE8),
     (''INY_IMPLIED'', 0xC8), (''JMP_ABSOLUTE'', 0x4C), (''JMP_INDIRECT'', 0x6C),
     (''JSR_ABSOLUTE'', 0x20), (''LDA_IMMEDIATE'', 0xA9), (''LDA_ZERO_PAGE'', 0xA5),
     (''LDA_ZERO_PAGE_X'', 0xB5)]"

definition opcode_constants_2 :: "(string \<times> int) list" where
  "opcode_constants_2 =
    [(''LDA_ABSOLUTE'', 0xAD), (''LDA_ABSOLUTE_X'', 0xBD), (''LDA_ABSOLUTE_Y'', 0xB9),
     (''LDA_INDIRECT_X'', 0xA1), (''LDA_INDIRECT_Y'', 0xB1), (''LDX_IMMEDIATE'', 0xA2),
     (''LDX_ZERO_PAGE'', 0xA6), (''LDX_ZERO_PAGE_Y'', 0xB6), (''LDX_ABSOLUTE'', 0xAE),
     (''LDX_ABSOLUTE_Y'', 0xBE), (''LDY_IMMEDIATE'', 0xA0), (''LDY_ZERO_PAGE'', 0xA4),
     (''LDY_ZERO_PAGE_X'', 0xB4), (''LDY_ABSOLUTE'', 0xAC), (''LDY_ABSOLUTE_X'', 0xBC),
     (''LSR_ACCUMULATOR'', 0x4A), (''LSR_ZERO_PAGE'', 0x46), (''LSR_ZERO_PAGE_X'', 0x56),
     (''LSR_ABSOLUTE'', 0x4E), (''LSR_ABSOLUTE_X'', 0x5E), (''NOP_IMPLIED'', 0xEA),
     (''ORA_IMMEDIATE'', 0x09), (''ORA_ZERO_PAGE'', 0x05), (''ORA_ZERO_PAGE_X'', 0x15),
     (''ORA_ABSOLUTE'', 0x0D), (''ORA_ABSOLUTE_X'', 0x1D), (''ORA_ABSOLUTE_Y'', 0x19),
     (''ORA_INDIRECT_X'', 0x01), (''ORA_INDIRECT_Y'', 0x11), (''PHA_IMPLIED'', 0x48),
     (''PHP_IMPLIED'', 0x08), (''PLA_IMPLIED'', 0x68), (''PLP_IMPLIED'', 0x28),
     (''ROL_ACCUMULATOR'', 0x2A), (''ROL_ZERO_PAGE'', 0x26), (''ROL_ZERO_PAGE_X'', 0x36),
     (''ROL_ABSOLUTE'', 0x2E), (''ROL_ABSOLUTE_X'', 0x3E), (''ROR_ACCUMULATOR'', 0x6A),
     (''ROR_ZERO_PAGE'', 0x66), (''ROR_ZERO_PAGE_X'', 0x76), (''ROR_ABSOLUTE'', 0x6E),
     (''ROR_ABSOLUTE_X'', 0x7E), (''RTI_IMPLIED'', 0x40), (''RTS_IMPLIED'', 0x60),
     (''SBC_IMMEDIATE'', 0xE9), (''SBC_ZERO_PAGE'', 0xE5), (''SBC_ZERO_PAGE_X'', 0xF5),
     (''SBC_ABSOLUTE'', 0xED), (''SBC_ABSOLUTE_X'', 0xFD), (''SBC_ABSOLUTE_Y'', 0xF9),
     (''SBC_INDIRECT_X'', 0xE1), (''SBC_INDIRECT_Y'', 0xF1), (''SEC_IMPLIED'', 0x38),
     (''SED_IMPLIED'', 0xF8), (''SEI_IMPLIED'', 0x78), (''STA_ZERO_PAGE'', 0x85),
     (''STA_ZERO_PAGE_X'', 0x95), (''STA_ABSOLUTE'', 0x8D), (''STA_ABSOLUTE_X'', 0x9D),
     (''STA_ABSOLUTE_Y'', 0x99), (''STA_INDIRECT_X'', 0x81), (''STA_INDIRECT_Y'', 0x91),
     (''STX_ZERO_PAGE'', 0x86), (''STX_ZERO_PAGE_Y'', 0x96), (''STX_ABSOLUTE'', 0x8E),
     (''STY_ZERO_PAGE'', 0x84), (''STY_ZERO_PAGE_X'', 0x94), (''STY_ABSOLUTE'', 0x8C),
     (''TAX_IMPLIED'', 0xAA), (''TAY_IMPLIED'', 0xA8), (''TSX_IMPLIED'', 0xBA),
     (''TXA_IMPLIED'', 0x8A), (''TXS_IMPLIED'', 0x9A), (''TYA_IMPLIED'', 0x98)]"

definition opcode_constants :: "(string \<times> int) list" where
  "opcode_constants = opcode_constants_1 @ opcode_constants_2"

section \<open>Agreement with the mapper\<close>

fun type_name :: "AddressingType \<Rightarrow> string" where
  "type_name AT_Absolute = ''ABSOLUTE''"
| "type_name AT_Absolute_X = ''ABSOLUTE_X''"
| "type_name AT_Absolute_Y = ''ABSOLUTE_Y''"
| "type_name AT_Accumulator = ''ACCUMULATOR''"
| "type_name AT_Immediate = ''IMMEDIATE''"
| "type_name AT_Implied = ''IMPLIED''"
| "type_name AT_Indirect = ''INDIRECT''"
| "type_name AT_Indirect_X = ''INDIRECT_X''"
| "type_name AT_Indirect_Y = ''INDIRECT_Y''"
| "type_name AT_Relative = ''RELATIVE''"
| "type_name AT_Zero_Page = ''ZERO_PAGE''"
| "type_name AT_Zero_Page_X = ''ZERO_PAGE_X''"
| "type_name AT_Zero_Page_Y = ''ZERO_PAGE_Y''"
| "type_name AT_Unkown = ''UNKNOWN''"

fun constant_of :: "AsmInstrKey \<times> AsmInstrGen \<Rightarrow> string \<times> int" where
  "constant_of (AsmInstrKey name t, Asm2Code addr opcode) = (name @ ''_'' @ type_name t, opcode)"

lemma constants_are_the_mapper: "map constant_of build_instr_mapper = opcode_constants"
  by code_simp

text \<open>
  Each constant of \<^verbatim>\<open>Opcode.h\<close> has the mnemonic and the addressing mode that its name says: at its
  position the matrix of the processor has the documented instruction with that mnemonic and that mode,
  and the assembler emits it for that mnemonic and that mode.
\<close>

theorem opcode_constants_agree:
  "\<forall>c \<in> set opcode_constants. \<exists>name t g.
     fst c = name @ ''_'' @ type_name t \<and> instruction_mapper (AsmInstrKey name t) = Some g \<and>
     opcode_of g = word_of_int (snd c) \<and>
     name = mnemonic (instr_of (word_of_int (snd c))) \<and>
     t = at_of (mode_of (instr_of (word_of_int (snd c))))"
proof
  fix c assume "c \<in> set opcode_constants"
  then obtain key g where kg: "(key, g) \<in> set build_instr_mapper" and c: "c = constant_of (key, g)"
    unfolding constants_are_the_mapper [symmetric] by auto
  obtain name t A n where eq: "key = AsmInstrKey name t" "g = Asm2Code A n"
    by (cases key; cases g) blast
  have m: "instruction_mapper key = Some g" using kg by (simp add: instruction_mapper_iff)
  show "\<exists>name t g. fst c = name @ ''_'' @ type_name t \<and>
      instruction_mapper (AsmInstrKey name t) = Some g \<and> opcode_of g = word_of_int (snd c) \<and>
      name = mnemonic (instr_of (word_of_int (snd c))) \<and>
      t = at_of (mode_of (instr_of (word_of_int (snd c))))"
    using m instruction_mapper_matches [OF m] c
    by (intro exI [of _ name] exI [of _ t] exI [of _ g]) (simp add: eq Let_def)
qed

lemma opcode_constants_agree_witness:
  "(''STX_ZERO_PAGE_Y'', 0x96) \<in> set opcode_constants \<and>
   (\<exists>name t. ''STX_ZERO_PAGE_Y'' = name @ ''_'' @ type_name t \<and> name = mnemonic (instr_of 0x96))"
proof -
  have c: "(''STX_ZERO_PAGE_Y'', 0x96) \<in> set opcode_constants"
    by (simp add: opcode_constants_def opcode_constants_2_def)
  then show ?thesis
    using bspec [OF opcode_constants_agree c] by auto
qed

end
