(* ===== verification/Assembler_Text.thy ===== *)
theory Assembler_Text
  imports Assembler_Spec
begin

text \<open>
  The text form of \<open>Asm::compile\<close>: its own \<open>getline\<close> and the loop that calls it. The loop ends for
  every text, and what it delivers is the text cut at its line ends, CR, LF, CRLF and LFCR alike.
\<close>

section \<open>The lines of a text\<close>

fun normalise_eol :: "string \<Rightarrow> string" where
  "normalise_eol [] = []"
| "normalise_eol [c] = [if c = CHR 0x0D then CHR 0x0A else c]"
| "normalise_eol (c # d # s) =
     (if c = CHR 0x0A then CHR 0x0A # normalise_eol (if d = CHR 0x0D then s else d # s)
      else if c = CHR 0x0D then CHR 0x0A # normalise_eol (if d = CHR 0x0A then s else d # s)
      else c # normalise_eol (d # s))"

fun split_lf :: "string \<Rightarrow> string list" where
  "split_lf [] = [[]]"
| "split_lf (c # s) =
     (if c = CHR 0x0A then [] # split_lf s
      else (c # hd (split_lf s)) # tl (split_lf s))"

text \<open>An unfinished last line is followed by the empty line that the end of the stream gives.\<close>

definition source_lines :: "string \<Rightarrow> string list" where
  "source_lines s =
     (let ps = split_lf (normalise_eol s) in if last ps = [] then ps else ps @ [[]])"

lemma split_lf_nonempty [simp]: "split_lf s \<noteq> []"
  by (cases s) auto

lemma normalise_plain: "c \<noteq> CHR 0x0A \<Longrightarrow> c \<noteq> CHR 0x0D \<Longrightarrow> normalise_eol (c # s) = c # normalise_eol s"
  by (cases s) auto

definition after_eol :: "char \<Rightarrow> string \<Rightarrow> string" where
  "after_eol c s =
     (case s of d # ds \<Rightarrow>
        if c = CHR 0x0A \<and> d = CHR 0x0D \<or> c = CHR 0x0D \<and> d = CHR 0x0A then ds else s
      | [] \<Rightarrow> s)"

lemma normalise_eol_char:
  "c = CHR 0x0A \<or> c = CHR 0x0D \<Longrightarrow> normalise_eol (c # s) = CHR 0x0A # normalise_eol (after_eol c s)"
  by (cases s) (auto simp: after_eol_def)

lemma after_eol_length: "length (after_eol c s) \<le> length s"
  by (simp add: after_eol_def split: list.splits)

section \<open>One call of getline\<close>

lemma getline_loop_cases:
  obtains (eol) p c rest where "buf = p @ c # rest" "\<forall>x \<in> set p. x \<noteq> CHR 0x0A \<and> x \<noteq> CHR 0x0D"
      "c = CHR 0x0A \<or> c = CHR 0x0D" "getline_loop t buf = (t @ p, after_eol c rest, False)"
    | (eof) "\<forall>x \<in> set buf. x \<noteq> CHR 0x0A \<and> x \<noteq> CHR 0x0D"
      "getline_loop t buf = (t @ buf, [], t = [] \<and> buf = [])"
proof (induction buf arbitrary: t thesis)
  case Nil
  then show ?case by simp
next
  case (Cons c cs)
  show ?case
  proof (cases "c = CHR 0x0A \<or> c = CHR 0x0D")
    case True
    then show ?thesis
      by (intro Cons.prems(1) [of "[]" c cs]) (auto simp: after_eol_def split: list.splits)
  next
    case False
    show ?thesis
    proof (rule Cons.IH [of "t @ [c]"], goal_cases)
      case (1 p d rest)
      with False show ?case by (intro Cons.prems(1) [of "c # p" d rest]) auto
    next
      case 2
      with False show ?case by (intro Cons.prems(2)) auto
    qed
  qed
qed

lemma split_plain:
  assumes "\<forall>x \<in> set p. x \<noteq> CHR 0x0A \<and> x \<noteq> CHR 0x0D"
  shows "split_lf (normalise_eol p) = [p]"
    and "c = CHR 0x0A \<or> c = CHR 0x0D \<Longrightarrow>
      split_lf (normalise_eol (p @ c # rest)) = p # split_lf (normalise_eol (after_eol c rest))"
  using assms by (induction p) (auto simp: normalise_plain normalise_eol_char)

section \<open>The loop\<close>

abbreviation open_stream :: "string \<Rightarrow> istream" where
  "open_stream buf \<equiv> \<lparr>is_buf = buf, is_eof = False, is_fail = False\<rparr>"

abbreviation read_loop ::
  "(istream \<times> string) \<times> string list \<Rightarrow> ((istream \<times> string) \<times> string list) option" where
  "read_loop \<equiv> while_option (\<lambda>((is, str), lines). \<not> is_fail is)
     (\<lambda>((is, str), lines). (getline is, lines @ [str]))"

lemma read_loop_lines:
  "\<exists>is. read_loop (getline (open_stream buf), lines) = Some (is, lines @ source_lines buf)"
proof (induction "length buf" arbitrary: buf lines rule: less_induct)
  case less
  show ?case
  proof (cases buf)
    case Nil
    then show ?thesis
      by (simp add: getline_def sentry_def source_lines_def while_option_unfold [of _ _ "(_, _)"])
  next
    case (Cons b bs)
    show ?thesis
    proof (cases rule: getline_loop_cases [of buf "[]"])
      case (eol p c rest)
      let ?rest = "after_eol c rest"
      have "length ?rest < length buf"
        using after_eol_length [of c rest] eol(1) by simp
      moreover have "source_lines buf = p # source_lines ?rest"
        using split_plain(2) [OF eol(2,3), of rest] eol(1) by (simp add: source_lines_def Let_def)
      moreover have "getline (open_stream buf) = (open_stream ?rest, p)"
        using eol(4) by (simp add: getline_def sentry_def)
      ultimately show ?thesis
        using less [of ?rest "lines @ [p]"] by (simp add: while_option_unfold [of _ _ "((_, p), _)"])
    next
      case eof
      have "source_lines buf = [buf, []]"
        using split_plain(1) [OF eof(1)] Cons by (simp add: source_lines_def)
      moreover have "getline (open_stream buf) = (open_stream [], buf)"
        using eof(2) Cons by (simp add: getline_def sentry_def)
      ultimately show ?thesis
        using less [of "[]" "lines @ [buf]"] Cons
        by (simp add: while_option_unfold [of _ _ "((_, b # bs), _)"] source_lines_def)
    qed
  qed
qed

text \<open>
  The loop of \<open>compile\<close> that reads the lines ends for every text, although it tests only
  \<open>failbit\<close>, which nothing but the sentry of one call too many sets; it delivers the text cut at
  its line ends, with one empty line more when the last line is not empty. So \<open>compile\<close> on a text
  always returns or throws.
\<close>

theorem read_lines_total:
  "read_lines s = Some (source_lines s) \<and> (\<exists>res. compile_source base s = Some res)"
proof -
  have "read_lines s = Some (source_lines s)"
    using read_loop_lines [of s "[]"] by (auto simp: read_lines_def)
  then show ?thesis by (simp add: compile_source_def)
qed

section \<open>The line ends do not matter\<close>

definition eols :: "string list" where
  "eols = [[CHR 0x0A], [CHR 0x0D], [CHR 0x0D, CHR 0x0A], [CHR 0x0A, CHR 0x0D]]"

definition plain_line :: "string \<Rightarrow> bool" where
  "plain_line l \<longleftrightarrow> CHR 0x0A \<notin> set l \<and> CHR 0x0D \<notin> set l"

lemma source_lines_eol:
  assumes "eol \<in> set eols" and "\<forall>l \<in> set ls. plain_line l"
  shows "source_lines (concat (map (\<lambda>l. l @ eol) ls)) = ls @ [[]]"
  using assms(2)
proof (induction ls)
  case Nil
  then show ?case by (simp add: source_lines_def)
next
  case (Cons l ls)
  let ?rest = "concat (map (\<lambda>l. l @ eol) ls)"
  obtain c e where eol: "eol = c # e" and c: "c = CHR 0x0A \<or> c = CHR 0x0D"
    using assms(1) by (auto simp: eols_def)
  have plain: "\<forall>x \<in> set l. x \<noteq> CHR 0x0A \<and> x \<noteq> CHR 0x0D"
    using Cons.prems by (auto simp: plain_line_def)
  have after: "after_eol c (e @ ?rest) = ?rest"
  proof (cases ls)
    case Nil
    then show ?thesis using assms(1) eol by (auto simp: eols_def after_eol_def)
  next
    case (Cons l' ls')
    then have "plain_line l'" using Cons.prems by simp
    then show ?thesis using assms(1) eol Cons
      by (cases l') (auto simp: eols_def after_eol_def plain_line_def)
  qed
  then have "source_lines (l @ c # e @ ?rest) = l # source_lines ?rest"
    using split_plain(2) [OF plain c, of "e @ ?rest"] by (simp add: source_lines_def Let_def)
  then show ?case using Cons eol by simp
qed

lemma compile_from_blank_end: "compile_from n (ls @ [[]]) pc r = compile_from n ls pc r"
proof (induction ls arbitrary: n pc r)
  case Nil
  then show ?case by (simp add: ltrim_def skipped_def)
next
  case (Cons l ls)
  then show ?case by (simp add: Let_def split: option.split prod.split)
qed

lemma compile_source_eol:
  assumes "\<forall>l \<in> set ls. plain_line l" and "eol \<in> set eols"
  shows "compile_source base (concat (map (\<lambda>l. l @ eol) ls)) = Some (compile base ls)"
proof -
  have "read_lines (concat (map (\<lambda>l. l @ eol) ls)) = Some (ls @ [[]])"
    using read_loop_lines [of "concat (map (\<lambda>l. l @ eol) ls)" "[]"]
    by (auto simp: read_lines_def source_lines_eol [OF assms(2,1)])
  then show ?thesis
    by (simp add: compile_source_def compile_def compile_from_blank_end)
qed

text \<open>
  C27: Assembling a text is assembling its lines: for lines without CR and LF, each of the four
  line ends LF, CR, CRLF and LFCR gives the same image or the same exception as the list of lines.
\<close>

theorem line_ends_do_not_matter:
  assumes "\<forall>l \<in> set ls. plain_line l" and "eol \<in> set eols"
  shows "compile_source base (concat (map (\<lambda>l. l @ eol) ls)) = Some (compile base ls)"
  by (rule compile_source_eol [OF assms])

lemma line_ends_do_not_matter_witness:
  "compile_source 0x0400 (''nop'' @ [CHR 0x0D, CHR 0x0A] @ ''rts'' @ [CHR 0x0D, CHR 0x0A])
     = Some (compile 0x0400 [''nop'', ''rts''])"
  using line_ends_do_not_matter [of "[''nop'', ''rts'']" "[CHR 0x0D, CHR 0x0A]" "0x0400"]
  by (simp add: plain_line_def eols_def)

end
