(* ===== verification/Loaded_System.thy ===== *)
theory Loaded_System
  imports Run_Loops Assembler_Syntax
begin

text \<open>
  The parts put together, as the users of the library do it: a memory of 256 pages is
  loaded with an image, connected to a bus, and the emulator is started on it.
\<close>

section \<open>Loading an image\<close>

lemma load_bytes:
  assumes "full_memory (Some M)" and "unat off + n \<le> 65536" and "n \<le> length xs"
  obtains M' where "Memory_write_bulk (Some xs) (int n) off M = Some M'" and "full_memory (Some M')"
    and "\<And>ad. memory_view (Some M') ad =
      (if unat off \<le> unat ad \<and> unat ad < unat off + n then xs ! (unat ad - unat off)
       else memory_view (Some M) ad)"
proof -
  have ok: "mem_ok M" and size: "m_size M = 65536"
    using assms(1) by (simp_all add: full_memory_def)
  have c: "clamped M off (int n) = n"
    using assms(2) by (simp add: clamped_def size)
  then obtain M' where M': "Memory_write_bulk (Some xs) (int n) off M = Some M'"
    using assms(3) by (cases "Memory_write_bulk (Some xs) (int n) off M")
      (simp_all add: write_bulk_eq split: if_splits)
  have ok': "mem_ok M'" "m_size M' = 65536"
    using mem_ok_write_bulk [OF ok M'] size by simp_all
  have "memory_view (Some M') ad =
      (if unat off \<le> unat ad \<and> unat ad < unat off + n then xs ! (unat ad - unat off)
       else memory_view (Some M) ad)" for ad
    using write_bulk_nth [OF ok M', of "unat ad"] unat16_less [of ad]
    by (simp add: memory_view_def Bus_read_def Memory_read_def checkAddress_def ok' size c)
  with M' ok' show thesis
    by (intro that [of M']) (simp_all add: full_memory_def)
qed

lemma new_memory_full: "full_memory (Some (Memory_new 256))"
proof -
  have "m_size (Memory_new 256) = 65536"
    by (simp add: Memory_new_def MAX_BYTES_PER_PAGE_def Let_def)
  then show ?thesis by (simp add: full_memory_def)
qed

lemma new_memory_view: "memory_view (Some (Memory_new 256)) ad = 0"
  using unat16_less [of ad]
  by (simp add: memory_view_def Bus_read_def Memory_read_def checkAddress_def Memory_new_def
      MAX_BYTES_PER_PAGE_def Let_def)

section \<open>The base system\<close>

text \<open>Processor, default clock and base bus, and no callback.\<close>

definition base_system :: "(Memory option, uint64) Env" where
  "base_system = \<lparr>v_bus = default_Bus, v_clock = default_clock, p_instr_callback = None\<rparr>"

interpretation base_run: watching_callback default_Bus memory_view full_memory base_system "\<lambda>_. False"
  by (rule watching_none) (simp_all add: base_system_def flat.ram_bus_axioms)

text \<open>
  C11: A program runs from source to reset. When the lines assemble for a base address, the image
  loads into a memory of 256 pages without touching anything else, and \<open>start(false)\<close> leaves the processor
  at the base address with the bytes of the lines before it, provided that the code
  does not reach the reset vector at \<open>$FFFC\<close>.
\<close>

theorem assembled_program_starts:
  assumes "compile base ls = Inr v" and "map line_code ls = map Some codes"
    and "unat base + length (concat codes) \<le> 0xFFFC"
  shows "\<exists>M Q. Memory_write_bulk (Some v) 0x10000 0 (Memory_new 256) = Some M \<and>
    Emulator_start virtual_run base_system False (P\<lparr>p_bus := Some M\<rparr>) = Some Q \<and>
    abs_machine memory_view Q = reset_machine (\<lambda>ad. v ! unat ad) \<and>
    reg_pc (p_regs Q) = base \<and>
    (\<forall>i < length (concat codes). memory_view (p_bus Q) (base + word_of_nat i) = concat codes ! i)"
proof -
  define code where "code = concat codes"
  have "map (the \<circ> line_code) ls = codes"
    using arg_cong [OF assms(2), of "map the"] by (simp add: comp_def)
  then have v: "v = to_vector (store_bytes (fresh_image base) base code)"
    using assms(1) by (simp add: compile_Inr_iff code_def)
  have len: "unat base + length code < 65536" using assms(3) by (simp add: code_def)
  have "ad \<noteq> base + word_of_nat i" if "i < length code" "0xFFFC \<le> ad" for i ad
  proof -
    have "unat (base + word_of_nat i) = unat base + i"
      using that(1) len by (simp add: unat_word_ariths unat_of_nat take_bit_nat_eq_self)
    then have "unat (base + word_of_nat i) < 0xFFFC" using that(1) assms(3) by (simp add: code_def)
    moreover have "0xFFFC \<le> unat ad" using that(2) by (simp add: word_le_nat_alt)
    ultimately show ?thesis by auto
  qed
  then have vector: "v ! unat (0xFFFC :: uint16) = lo8 base" "v ! unat (0xFFFD :: uint16) = hi8 base"
    unfolding v nth_to_vector
    by (subst store_bytes_outside; simp add: fresh_image_def lo8_def hi8_def)+
  obtain M where M: "Memory_write_bulk (Some v) (int 0x10000) 0 (Memory_new 256) = Some M"
    "full_memory (Some M)" "\<And>ad. memory_view (Some M) ad = v ! unat ad"
  proof (rule load_bytes [OF new_memory_full, of 0 "0x10000" v])
    show "unat (0 :: uint16) + 0x10000 \<le> 65536" "0x10000 \<le> length v" by (simp_all add: v)
    fix M' assume M': "Memory_write_bulk (Some v) (int 0x10000) 0 (Memory_new 256) = Some M'"
      "full_memory (Some M')"
      "\<And>ad. memory_view (Some M') ad = (if unat (0 :: uint16) \<le> unat ad \<and>
        unat ad < unat (0 :: uint16) + 0x10000 then v ! (unat ad - unat (0 :: uint16))
        else memory_view (Some (Memory_new 256)) ad)"
    show thesis by (rule that [OF M'(1,2)]) (simp add: M'(3))
  qed
  have view: "memory_view (Some M) = (\<lambda>ad. v ! unat ad)" using M(3) by auto
  have bus: "v_bus base_system = default_Bus" "counting_clock (v_clock base_system)"
    by (simp_all add: base_system_def default.counting_clock_axioms)
  obtain Q where Q: "Emulator_start virtual_run base_system False (P\<lparr>p_bus := Some M\<rparr>) = Some Q"
    "abs_machine memory_view Q = reset_machine (\<lambda>ad. v ! unat ad)"
    using flat.start_refines [OF bus(1) _ bus(2), of "P\<lparr>p_bus := Some M\<rparr>" virtual_run] M(2) view
    by auto
  have "reg_pc (p_regs Q) = base"
    using abs_machine_pc [of Q memory_view] vector
    by (simp add: Q(2) reset_machine_def reset_cpu_def word_at_def)
  moreover have "memory_view (p_bus Q) = (\<lambda>ad. v ! unat ad)"
    using arg_cong [OF Q(2), of mc_mem] by (simp add: abs_machine_def reset_machine_def)
  moreover have "v ! unat (base + word_of_nat i) = code ! i" if "i < length code" for i
    unfolding v nth_to_vector using len that by (intro store_bytes_inside) simp_all
  ultimately show ?thesis
    using M(1) Q unfolding code_def [symmetric] by (intro exI [of _ M] exI [of _ Q]) simp
qed

lemma assembled_program_starts_witness:
  "\<exists>v M Q. compile 0x0400 ['' ; reset'', ''  lda #$1F ; one'', ''bne -4''] = Inr v \<and>
    Emulator_start Some base_system False
      ((Processor_new None Registers_zero 0)\<lparr>p_bus := Some M\<rparr>) = Some Q \<and>
    reg_pc (p_regs Q) = 0x0400 \<and> memory_view (p_bus Q) 0x0402 = 0xD0"
proof -
  let ?lines = "['' ; reset'', ''  lda #$1F ; one'', ''bne -4'']"
    and ?codes = "[[], [0xA9, 0x1F], [0xD0, 0xFC]] :: uint8 list list"
  obtain v where v: "compile 0x0400 ?lines = Inr v"
    using compile_Inr_iff [of "0x0400" ?lines] by (auto simp: sample_codes)
  have c: "map line_code ?lines = map Some ?codes" by (simp add: sample_codes)
  obtain M Q where Q: "Emulator_start Some base_system False
      ((Processor_new None Registers_zero 0)\<lparr>p_bus := Some M\<rparr>) = Some Q"
    "reg_pc (p_regs Q) = 0x0400"
    "\<forall>i < length (concat ?codes).
      memory_view (p_bus Q) (0x0400 + word_of_nat i) = concat ?codes ! i"
    using assembled_program_starts [OF v c, of Some "Processor_new None Registers_zero 0"] by auto
  have "memory_view (p_bus Q) 0x0402 = 0xD0" using spec [OF Q(3), of 2] by simp
  with v Q show ?thesis by blast
qed

end
