(* ===== verification/Test_Rig.thy ===== *)
theory Test_Rig
  imports Bus_Simulation Disassembler
begin

text \<open>
  The fixture of \<^verbatim>\<open>test_src/testCpu.cpp\<close>: a processor on a logging bus over 64 KB of memory. A \<open>Rig\<close> is a
  processor whose bus state is the connected \<open>Memory\<close> with the log of its accesses. The second part evaluates tests:
  the fixture is the image, under the map of \<open>Bus_Simulation\<close>, of the same processor on a memory
  that is a function, and every operation of the fixture commutes with that map.
\<close>

section \<open>The fixture\<close>

type_synonym Rig = "(Memory option logged, uint64) Processor"

definition Rig_new :: Rig where
  "Rig_new =
     (let mem = Memory_new 256;
          mem = Memory_write 0xfffc 0x00 mem;
          mem = Memory_write 0xfffd 0x04 mem;
          regs = Registers_zero;
          regs = regs\<lparr>reg_sp := 0xfd\<rparr>;
          regs = regs\<lparr>reg_sr := FLAG_U\<rparr>;
          regs = regs\<lparr>reg_pc := 0x0400\<rparr>
      in Processor_new \<lparr>lg_state = Bus_connect (Some mem) Bus_new, lg_trace = []\<rparr> regs default_clock_new)"

definition put :: "uint16 \<Rightarrow> uint8 \<Rightarrow> Rig \<Rightarrow> Rig" where
  "put at v r =
     r\<lparr>p_bus := (p_bus r)\<lparr>lg_state := map_option (Memory_write at v) (lg_state (p_bus r))\<rparr>\<rparr>"

definition get :: "uint16 \<Rightarrow> Rig \<Rightarrow> uint8" where
  "get at r = (case lg_state (p_bus r) of Some mem \<Rightarrow> Memory_read at mem | None \<Rightarrow> 0)"

primrec poke :: "uint16 \<Rightarrow> int list \<Rightarrow> Rig \<Rightarrow> Rig" where
  "poke p [] r = r"
| "poke p (v # bytes) r = poke (p + 1) bytes (put p (word_of_int v) r)"

definition cpu_step :: "Rig \<Rightarrow> Rig" where
  "cpu_step r = step logging_system r"

definition stepCycles :: "Rig \<Rightarrow> int \<times> Rig" where
  "stepCycles r =
     (let before = default_cycles (p_clock r);
          r = cpu_step r
      in (sint (ucast (default_cycles (p_clock r) - before) :: 32 word), r))"

text \<open>An assignment to a register, and what the bus has logged.\<close>

definition with_regs :: "(Registers \<Rightarrow> Registers) \<Rightarrow> ('b, 'k) Processor \<Rightarrow> ('b, 'k) Processor" where
  "with_regs f r = r\<lparr>p_regs := f (p_regs r)\<rparr>"

fun writes_in :: "access list \<Rightarrow> (uint16 \<times> uint8) list" where
  "writes_in [] = []"
| "writes_in (Wr ad v # t) = (ad, v) # writes_in t"
| "writes_in (Rd ad # t) = writes_in t"

fun reads_in :: "access list \<Rightarrow> uint16 list" where
  "reads_in [] = []"
| "reads_in (Wr ad v # t) = reads_in t"
| "reads_in (Rd ad # t) = ad # reads_in t"

definition bus_writes :: "('b logged, 'k) Processor \<Rightarrow> (uint16 \<times> uint8) list" where
  "bus_writes r = writes_in (trace_of (p_bus r))"

definition bus_reads :: "('b logged, 'k) Processor \<Rightarrow> uint16 list" where
  "bus_reads r = reads_in (trace_of (p_bus r))"

definition bus_accesses :: "('b logged, 'k) Processor \<Rightarrow> int" where
  "bus_accesses r = int (accesses (p_bus r))"

definition status :: "uint8 \<Rightarrow> ('b, 'k) Processor \<Rightarrow> bool" where
  "status flag r = getStatus flag (p_regs r)"

definition disassemble :: "Rig \<Rightarrow> string \<times> Registers \<times> Rig" where
  "disassemble r =
     (let probe = Registers_zero\<lparr>reg_pc := 0x0400\<rparr>;
          (text, probe, b) = unasm_line (v_bus logging_system) probe (p_bus r)
      in (text, probe, r\<lparr>p_bus := b\<rparr>))"

section \<open>Evaluation on a memory function\<close>

type_synonym fast_rig = "(mem logged, uint64) Processor"

definition fast_new :: fast_rig where
  "fast_new = Processor_new \<lparr>lg_state = (\<lambda>_. 0)(0xfffc := 0, 0xfffd := 4), lg_trace = []\<rparr>
     (Registers_zero\<lparr>reg_sp := 0xfd, reg_sr := FLAG_U, reg_pc := 0x0400\<rparr>) 0"

definition fast_put :: "uint16 \<Rightarrow> uint8 \<Rightarrow> fast_rig \<Rightarrow> fast_rig" where
  "fast_put at v r = r\<lparr>p_bus := (p_bus r)\<lparr>lg_state := (lg_state (p_bus r))(at := v)\<rparr>\<rparr>"

definition fast_get :: "uint16 \<Rightarrow> fast_rig \<Rightarrow> uint8" where
  "fast_get at r = lg_state (p_bus r) at"

primrec fast_poke :: "uint16 \<Rightarrow> int list \<Rightarrow> fast_rig \<Rightarrow> fast_rig" where
  "fast_poke p [] r = r"
| "fast_poke p (v # bytes) r = fast_poke (p + 1) bytes (fast_put p (word_of_int v) r)"

definition fast_cycles :: "fast_rig \<Rightarrow> int \<times> fast_rig" where
  "fast_cycles r =
     (let r' = step logged_system r in (sint (ucast (p_clock r' - p_clock r) :: 32 word), r'))"

definition fast_disassemble :: "fast_rig \<Rightarrow> string \<times> Registers \<times> fast_rig" where
  "fast_disassemble r =
     (let (text, probe, b) = unasm_line (v_bus logged_system) (Registers_zero\<lparr>reg_pc := 0x0400\<rparr>) (p_bus r)
      in (text, probe, r\<lparr>p_bus := b\<rparr>))"

abbreviation slow :: "fast_rig \<Rightarrow> Rig" where
  "slow \<equiv> on_bus logged_ram"

lemma slow_new: "Rig_new = slow fast_new"
  by (simp add: Rig_new_def fast_new_def Processor_new_def on_bus_def logged_ram_def Bus_connect_def
      ram_of_new ram_of_write default_clock_new_def Let_def)

lemma slow_put: "put at v (slow r) = slow (fast_put at v r)"
  by (simp add: put_def fast_put_def on_bus_def logged_ram_def ram_of_write)

lemma slow_get: "get at (slow r) = fast_get at r"
  by (simp add: get_def fast_get_def logged_ram_def ram_of_read)

lemma slow_poke: "poke p bytes (slow r) = slow (fast_poke p bytes r)"
  by (induction bytes arbitrary: p r) (simp_all add: slow_put)

lemma slow_step: "cpu_step (slow r) = slow (step logged_system r)"
  by (simp add: cpu_step_def logged_map.step_map)

lemma slow_cycles: "stepCycles (slow r) = apsnd slow (fast_cycles r)"
  by (simp add: stepCycles_def fast_cycles_def slow_step Let_def default_cycles_def)

lemma slow_regs: "with_regs f (slow r) = slow (with_regs f r)"
  by (simp add: with_regs_def on_bus_update)

lemma slow_log:
  "bus_writes (slow r) = bus_writes r" "bus_reads (slow r) = bus_reads r"
  "bus_accesses (slow r) = bus_accesses r" "status flag (slow r) = status flag r"
  by (simp_all add: bus_writes_def bus_reads_def bus_accesses_def status_def accesses_def trace_of_def
      logged_ram_def)

context bus_map
begin

lemma read_operand_maps [simp]:
  "read_byte B' at (h s) = apsnd (apsnd h) (read_byte B at s)"
  "read_word B' at (h s) = apsnd (apsnd h) (read_word B at s)"
  by (simp_all add: read_byte_def read_word_def Let_def case_prod_beta)

lemma unasm_at_map: "unasm_at B' at (h s) = apsnd (apsnd h) (unasm_at B at s)"
  by (simp add: unasm_at_def column_0_def column_1_def column_2_def column_3_def operand_def bare_def
      getIndXParams_def getIndYParams_def getInd2Params_def getZPgParams_def getImmParams_def
      getRelParams_def getAbsParams_def Let_def case_prod_beta split: option.split)

end

lemma slow_disassemble: "disassemble (slow r) = apsnd (apsnd slow) (fast_disassemble r)"
  by (simp add: disassemble_def fast_disassemble_def unasm_line_def logged_map.unasm_at_map
      Let_def case_prod_beta on_bus_update)

text \<open>The rewriting that moves a test to the memory function.\<close>

lemma slow_let:
  "Let (slow r) f = Let r (\<lambda>r. f (slow r))"
  "Let (apsnd slow x) f' = Let x (\<lambda>x. f' (apsnd slow x))"
  "case_prod g (apsnd slow x) = case_prod (\<lambda>n r. g n (slow r)) x"
  "Let (apsnd (apsnd slow) y) g' = Let y (\<lambda>y. g' (apsnd (apsnd slow) y))"
  "case_prod k (apsnd (apsnd slow) y) = case_prod (\<lambda>t z. k t (apsnd slow z)) y"
  by (simp_all add: Let_def case_prod_beta)

lemmas fast = slow_new slow_put slow_get slow_poke slow_step slow_cycles slow_regs slow_log
  slow_disassemble slow_let on_bus_flags on_bus_select

end
