(* ===== verification/Test_Cpu.thy ===== *)
theory Test_Cpu
  imports Test_Rig
begin

text \<open>
  The test cases of \<^verbatim>\<open>test_src/testCpu.cpp\<close>, as propositions about the model: each is the program of
  its \<open>TEST_CASE\<close>, and its value is the conjunction of the checks. A \<open>SUBCASE\<close> starts from a new fixture. The
  tests that measure wall-clock time are left out.
\<close>

section \<open>Addressing modes\<close>

definition indexed_indirect_uses_zero_page_pointer :: bool where
  "indexed_indirect_uses_zero_page_pointer \<longleftrightarrow>
     (let r = Rig_new;
          r = with_regs (reg_x_update (\<lambda>_. 0x04)) r;
          r = poke 0x0400 [0xA1, 0x20] r;
          r = poke 0x0024 [0x00, 0x30] r;
          r = poke 0x0020 [0x00, 0x40] r;
          r = put 0x3000 0xAA r;
          r = put 0x4004 0xBB r;
          r = cpu_step r
      in reg_a (p_regs r) = 0xAA)"

definition indexed_indirect_wraps_in_zero_page :: bool where
  "indexed_indirect_wraps_in_zero_page \<longleftrightarrow>
     (let r = Rig_new;
          r = with_regs (reg_x_update (\<lambda>_. 0x01)) r;
          r = poke 0x0400 [0xA1, 0xFF] r;
          r = poke 0x0000 [0x34, 0x12] r;
          r = put 0x1234 0x5A r;
          r = cpu_step r
      in reg_a (p_regs r) = 0x5A)"

definition indirect_indexed_wraps_pointer_in_zero_page :: bool where
  "indirect_indexed_wraps_pointer_in_zero_page \<longleftrightarrow>
     (let r = Rig_new;
          r = with_regs (reg_y_update (\<lambda>_. 0x01)) r;
          r = poke 0x0400 [0xB1, 0xFF] r;
          r = put 0x00FF 0x00 r;
          r = put 0x0000 0x30 r;
          r = put 0x0100 0x99 r;
          r = put 0x3001 0xAA r;
          r = cpu_step r
      in reg_a (p_regs r) = 0xAA)"

definition jmp_indirect_reproduces_page_boundary_bug :: bool where
  "jmp_indirect_reproduces_page_boundary_bug \<longleftrightarrow>
     (let r = Rig_new;
          r = poke 0x0400 [0x6C, 0xFF, 0x30] r;
          r = put 0x30FF 0x34 r;
          r = put 0x3000 0x12 r;
          r = put 0x3100 0x56 r;
          r = cpu_step r
      in reg_pc (p_regs r) = 0x1234)"

section \<open>Cycle counts\<close>

definition branch_cycles :: bool where
  "branch_cycles \<longleftrightarrow>
     (let r = Rig_new;
          r = with_regs (setStatus FLAG_Z False) r;
          r = poke 0x0400 [0xF0, 0x10] r;
          (cycles, r) = stepCycles r
      in cycles = 2 \<and> reg_pc (p_regs r) = 0x0402) \<and>
     (let r = Rig_new;
          r = with_regs (setStatus FLAG_Z True) r;
          r = poke 0x0400 [0xF0, 0x10] r;
          (cycles, r) = stepCycles r
      in cycles = 3 \<and> reg_pc (p_regs r) = 0x0412) \<and>
     (let r = Rig_new;
          r = with_regs (reg_pc_update (\<lambda>_. 0x04F0)) r;
          r = with_regs (setStatus FLAG_Z True) r;
          r = poke 0x04F0 [0xF0, 0x40] r;
          (cycles, r) = stepCycles r
      in cycles = 4 \<and> reg_pc (p_regs r) = 0x0532) \<and>
     (let r = Rig_new;
          r = with_regs (setStatus FLAG_Z True) r;
          r = poke 0x0400 [0xF0, 0xFC] r;
          (cycles, r) = stepCycles r
      in cycles = 4 \<and> reg_pc (p_regs r) = 0x03FE)"

definition page_cross_penalty_on_reads :: bool where
  "page_cross_penalty_on_reads \<longleftrightarrow>
     (let r = Rig_new;
          r = with_regs (reg_x_update (\<lambda>_. 0x01)) r;
          r = poke 0x0400 [0xBD, 0x00, 0x30] r;
          (cycles, r) = stepCycles r
      in cycles = 4) \<and>
     (let r = Rig_new;
          r = with_regs (reg_x_update (\<lambda>_. 0x01)) r;
          r = poke 0x0400 [0xBD, 0xFF, 0x30] r;
          (cycles, r) = stepCycles r
      in cycles = 5) \<and>
     (let r = Rig_new;
          r = with_regs (reg_y_update (\<lambda>_. 0x01)) r;
          r = poke 0x0400 [0xB9, 0xFF, 0x30] r;
          (cycles, r) = stepCycles r
      in cycles = 5) \<and>
     (let r = Rig_new;
          r = with_regs (reg_y_update (\<lambda>_. 0x01)) r;
          r = poke 0x0400 [0xB1, 0x10] r;
          r = poke 0x0010 [0xFF, 0x30] r;
          (cycles, r) = stepCycles r
      in cycles = 6)"

definition no_page_cross_penalty_on_stores_and_rmw :: bool where
  "no_page_cross_penalty_on_stores_and_rmw \<longleftrightarrow>
     (let r = Rig_new;
          r = with_regs (reg_x_update (\<lambda>_. 0x01)) r;
          r = poke 0x0400 [0x9D, 0xFF, 0x30] r;
          (cycles, r) = stepCycles r
      in cycles = 5) \<and>
     (let r = Rig_new;
          r = with_regs (reg_x_update (\<lambda>_. 0x01)) r;
          r = poke 0x0400 [0x1E, 0xFF, 0x30] r;
          (cycles, r) = stepCycles r
      in cycles = 7) \<and>
     (let r = Rig_new;
          r = with_regs (reg_y_update (\<lambda>_. 0x01)) r;
          r = poke 0x0400 [0x91, 0x10] r;
          r = poke 0x0010 [0xFF, 0x30] r;
          (cycles, r) = stepCycles r
      in cycles = 6)"

section \<open>Interrupts\<close>

definition nmi_is_serviced_regardless_of_interrupt_flag :: bool where
  "nmi_is_serviced_regardless_of_interrupt_flag \<longleftrightarrow>
     (let r = Rig_new;
          r = with_regs (setStatus FLAG_I True) r;
          r = poke 0xFFFA [0x00, 0x80] r;
          r = poke 0x0400 [0xEA] r;
          r = nmi r;
          pending = nmiPending r;
          (cycles, r) = stepCycles r;
          serviced = (cycles = 7 \<and> reg_pc (p_regs r) = 0x8000 \<and> status FLAG_I r \<and> \<not> nmiPending r);
          pushed = (get 0x01FD r = 0x04 \<and> get 0x01FC r = 0x00 \<and> get 0x01FB r AND FLAG_B = 0
            \<and> get 0x01FB r AND FLAG_U = FLAG_U);
          r = poke 0x8000 [0xEA] r;
          (cycles, r) = stepCycles r
      in pending \<and> serviced \<and> pushed \<and> cycles = 2)"

definition irq_is_gated_by_the_interrupt_flag :: bool where
  "irq_is_gated_by_the_interrupt_flag \<longleftrightarrow>
     (let r = Rig_new;
          r = poke 0xFFFE [0x00, 0x90] r;
          r = poke 0x0400 [0xEA, 0xEA] r;
          r = with_regs (setStatus FLAG_I True) r;
          r = irq True r;
          (cycles, r) = stepCycles r
      in cycles = 2 \<and> reg_pc (p_regs r) = 0x0401) \<and>
     (let r = Rig_new;
          r = poke 0xFFFE [0x00, 0x90] r;
          r = poke 0x0400 [0xEA, 0xEA] r;
          r = with_regs (setStatus FLAG_I False) r;
          r = irq True r;
          (cycles, r) = stepCycles r
      in cycles = 7 \<and> reg_pc (p_regs r) = 0x9000 \<and> status FLAG_I r) \<and>
     (let r = Rig_new;
          r = poke 0xFFFE [0x00, 0x90] r;
          r = poke 0x0400 [0xEA, 0xEA] r;
          r = with_regs (setStatus FLAG_I False) r;
          r = irq True r;
          r = cpu_step r;
          asserted = irqAsserted r;
          r = irq False r
      in asserted \<and> \<not> irqAsserted r)"

definition rti_returns_from_an_interrupt :: bool where
  "rti_returns_from_an_interrupt \<longleftrightarrow>
     (let r = Rig_new;
          r = poke 0xFFFE [0x00, 0x90] r;
          r = poke 0x0400 [0xEA] r;
          r = poke 0x9000 [0x40] r;
          r = with_regs (setStatus FLAG_I False) r;
          r = with_regs (setStatus FLAG_C True) r;
          r = irq True r;
          r = cpu_step r;
          r = irq False r;
          serviced = (reg_pc (p_regs r) = 0x9000);
          r = cpu_step r
      in serviced \<and> reg_pc (p_regs r) = 0x0400 \<and> status FLAG_C r \<and> \<not> status FLAG_I r)"

definition brk_pushes_status_with_break_set :: bool where
  "brk_pushes_status_with_break_set \<longleftrightarrow>
     (let r = Rig_new;
          r = poke 0xFFFE [0x00, 0x90] r;
          r = poke 0x0400 [0x00] r;
          r = cpu_step r
      in reg_pc (p_regs r) = 0x9000 \<and> get 0x01FB r AND FLAG_B = FLAG_B \<and> get 0x01FD r = 0x04
        \<and> get 0x01FC r = 0x02)"

section \<open>Decimal mode\<close>

definition decimal_mode_adds_in_bcd :: bool where
  "decimal_mode_adds_in_bcd \<longleftrightarrow>
     (let r = Rig_new;
          r = with_regs (reg_a_update (\<lambda>_. 0x09)) r;
          r = with_regs (setStatus FLAG_D True) r;
          r = poke 0x0400 [0x69, 0x01] r;
          r = cpu_step r
      in reg_a (p_regs r) = 0x10)"

definition a_chip_without_decimal_ignores_the_flag :: bool where
  "a_chip_without_decimal_ignores_the_flag \<longleftrightarrow>
     (let r = Rig_new;
          r = with_regs (decimalDisabled_update (\<lambda>_. True)) r;
          r = with_regs (reg_a_update (\<lambda>_. 0x09)) r;
          r = with_regs (setStatus FLAG_D True) r;
          r = poke 0x0400 [0x69, 0x01] r;
          r = cpu_step r
      in reg_a (p_regs r) = 0x0A)"

definition decimal_subtraction_follows_the_same_switch :: bool where
  "decimal_subtraction_follows_the_same_switch \<longleftrightarrow>
     (let r = Rig_new;
          r = with_regs (reg_a_update (\<lambda>_. 0x10)) r;
          r = with_regs (setStatus FLAG_D True) r;
          r = with_regs (setStatus FLAG_C True) r;
          r = poke 0x0400 [0xE9, 0x01] r;
          r = cpu_step r;
          plain = Rig_new;
          plain = with_regs (decimalDisabled_update (\<lambda>_. True)) plain;
          plain = with_regs (reg_a_update (\<lambda>_. 0x10)) plain;
          plain = with_regs (setStatus FLAG_D True) plain;
          plain = with_regs (setStatus FLAG_C True) plain;
          plain = poke 0x0400 [0xE9, 0x01] plain;
          plain = cpu_step plain
      in reg_a (p_regs r) = 0x09 \<and> reg_a (p_regs plain) = 0x0F)"

definition the_flag_itself_is_untouched_either_way :: bool where
  "the_flag_itself_is_untouched_either_way \<longleftrightarrow>
     (let r = Rig_new;
          r = with_regs (decimalDisabled_update (\<lambda>_. True)) r;
          r = poke 0x0400 [0xF8] r;
          r = cpu_step r
      in status FLAG_D r)"

section \<open>The checks hold\<close>

lemma addressing_tests:
  "indexed_indirect_uses_zero_page_pointer" "indexed_indirect_wraps_in_zero_page"
  "indirect_indexed_wraps_pointer_in_zero_page" "jmp_indirect_reproduces_page_boundary_bug"
  unfolding indexed_indirect_uses_zero_page_pointer_def indexed_indirect_wraps_in_zero_page_def
    indirect_indexed_wraps_pointer_in_zero_page_def jmp_indirect_reproduces_page_boundary_bug_def fast
  by code_simp+

lemma cycle_tests:
  "branch_cycles" "page_cross_penalty_on_reads" "no_page_cross_penalty_on_stores_and_rmw"
  unfolding branch_cycles_def page_cross_penalty_on_reads_def
    no_page_cross_penalty_on_stores_and_rmw_def fast
  by code_simp+

lemma interrupt_tests:
  "nmi_is_serviced_regardless_of_interrupt_flag" "irq_is_gated_by_the_interrupt_flag"
  "rti_returns_from_an_interrupt" "brk_pushes_status_with_break_set"
  unfolding nmi_is_serviced_regardless_of_interrupt_flag_def irq_is_gated_by_the_interrupt_flag_def
    rti_returns_from_an_interrupt_def brk_pushes_status_with_break_set_def fast
  by code_simp+

lemma decimal_tests:
  "decimal_mode_adds_in_bcd" "a_chip_without_decimal_ignores_the_flag"
  "decimal_subtraction_follows_the_same_switch" "the_flag_itself_is_untouched_either_way"
  unfolding decimal_mode_adds_in_bcd_def a_chip_without_decimal_ignores_the_flag_def
    decimal_subtraction_follows_the_same_switch_def the_flag_itself_is_untouched_either_way_def fast
  by code_simp+

end
