(* ===== verification/Test_Cpu_Memory.thy ===== *)
theory Test_Cpu_Memory
  imports Test_Rig Emulator Listing Loaded_System
begin

text \<open>
  The test cases of \<^verbatim>\<open>test_src/testCpu.cpp\<close> on reset, memory, bus traffic, the default clock and the disassembler. The two loops
  over all 256 opcodes are instances of the general theorems on traffic and on listings.
\<close>

section \<open>Reset, memory and clock\<close>

text \<open>The registers of the first test are not initialised by it, so they are an argument.\<close>

definition reset_disables_interrupts :: "Registers \<Rightarrow> bool" where
  "reset_disables_interrupts regs \<longleftrightarrow>
     (let mem = Memory_new 256;
          mem = Memory_write 0xfffc 0x34 mem;
          mem = Memory_write 0xfffd 0x12 mem;
          bus = Bus_connect (Some mem) Bus_new;
          cpu = Processor_new bus regs default_clock_new;
          cpu = nmi cpu
      in case Emulator_start (run base_system) base_system False cpu of
           None \<Rightarrow> False
         | Some cpu \<Rightarrow> reg_pc (p_regs cpu) = 0x1234 \<and> reg_sp (p_regs cpu) = 0xfd \<and> status FLAG_I cpu
             \<and> status FLAG_U cpu \<and> \<not> nmiPending cpu \<and> default_cycles (p_clock cpu) = 7)"

definition memory_is_zero_filled :: bool where
  "memory_is_zero_filled \<longleftrightarrow>
     (let mem = Memory_new 256
      in Memory_read 0x0000 mem = 0 \<and> Memory_read 0x8000 mem = 0 \<and> Memory_read 0xFFFF mem = 0)"

definition short_memory_wraps_instead_of_overrunning :: bool where
  "short_memory_wraps_instead_of_overrunning \<longleftrightarrow>
     (let mem = Memory_new 2;
          size = Memory_size mem;
          mem = Memory_write 0x0100 0x5A mem;
          first = Memory_read 0x0100 mem;
          mirrored = Memory_read 0x0300 mem;
          mem = Memory_write 0xFFFF 0x77 mem
      in size = 512 \<and> first = 0x5A \<and> mirrored = 0x5A \<and> Memory_read 0x01FF mem = 0x77)"

definition bulk_transfers_are_clamped :: bool where
  "bulk_transfers_are_clamped \<longleftrightarrow>
     (let mem = Memory_new 1;
          src = replicate 512 0xAB
      in case Memory_write_bulk (Some src) 512 0 mem of
           None \<Rightarrow> False
         | Some mem \<Rightarrow> Memory_read 0x00FF mem = 0xAB \<and>
             (let dst = replicate 512 0
              in case Memory_read_bulk (Some dst) 512 0 mem of
                   Some (Some dst) \<Rightarrow> dst ! 0xFF = 0xAB
                 | _ \<Rightarrow> False))"

definition default_clock_counts_without_pacing :: bool where
  "default_clock_counts_without_pacing \<longleftrightarrow>
     (let clk = default_clock_new;
          clk = default_beginCycle clk;
          clk = default_waitCycles 3 clk;
          clk = default_waitCycles 4 clk;
          counted = default_cycles clk;
          clk = default_reset clk
      in counted = 7 \<and> default_cycles clk = 0)"

lemma memory_tests:
  "reset_disables_interrupts regs" "memory_is_zero_filled" "short_memory_wraps_instead_of_overrunning"
  "bulk_transfers_are_clamped" "default_clock_counts_without_pacing"
proof -
  show "reset_disables_interrupts regs"
    by (simp add: reset_disables_interrupts_def Emulator_start_def base_system_def default_Bus_def
        Bus_connect_def Processor_new_def nmi_def nmiPending_def clearInterrupts_def waitCycles_def status_def
        default_clock_def default_reset_def default_beginCycle_def default_waitCycles_def
        default_cycles_def Registers_zero_def getStatus_def flag_defs Bus_read_def le16_def
        ram_of_new ram_of_write ram_of_read Let_def)
  show memory_is_zero_filled
    by (simp add: memory_is_zero_filled_def ram_of_new ram_of_read)
  show short_memory_wraps_instead_of_overrunning
    by (simp add: short_memory_wraps_instead_of_overrunning_def Memory_new_def Memory_size_def
        Memory_write_def Memory_read_def checkAddress_def MAX_BYTES_PER_PAGE_def Let_def)
  show bulk_transfers_are_clamped
    by (simp add: bulk_transfers_are_clamped_def Memory_new_def Memory_write_bulk_def
        Memory_read_bulk_def Memory_read_def checkAddress_def MAX_BYTES_PER_PAGE_def Let_def nth_append)
  show default_clock_counts_without_pacing
    by code_simp
qed

section \<open>Bus traffic\<close>

definition rmw_writes_the_old_value_before_the_new_one :: bool where
  "rmw_writes_the_old_value_before_the_new_one \<longleftrightarrow>
     (let r = Rig_new;
          r = put 0x8000 0x41 r;
          r = poke 0x0400 [0xEE, 0x00, 0x80] r;
          (cycles, r) = stepCycles r;
          writes = bus_writes r
      in length writes = 2 \<and> fst (writes ! 0) = 0x8000 \<and> snd (writes ! 0) = 0x41
        \<and> fst (writes ! 1) = 0x8000 \<and> snd (writes ! 1) = 0x42 \<and> get 0x8000 r = 0x42)"

definition every_rmw_opcode_writes_twice :: bool where
  "every_rmw_opcode_writes_twice \<longleftrightarrow>
     list_all (\<lambda>(name, opcode, start, expect).
        let r = Rig_new;
            r = put 0x8000 start r;
            r = poke 0x0400 [opcode, 0x00, 0x80] r;
            (cycles, r) = stepCycles r;
            writes = bus_writes r
        in length writes = 2 \<and> snd (writes ! 0) = start \<and> snd (writes ! 1) = expect)
      [(''ASL'', 0x0E, 0x21, 0x42), (''ROL'', 0x2E, 0x21, 0x42), (''LSR'', 0x4E, 0x42, 0x21),
       (''ROR'', 0x6E, 0x42, 0x21), (''DEC'', 0xCE, 0x43, 0x42), (''INC'', 0xEE, 0x41, 0x42),
       (''SLO'', 0x0F, 0x21, 0x42), (''RLA'', 0x2F, 0x21, 0x42), (''SRE'', 0x4F, 0x42, 0x21),
       (''RRA'', 0x6F, 0x42, 0x21), (''DCP'', 0xCF, 0x43, 0x42), (''ISC'', 0xEF, 0x41, 0x42)]"

definition the_dummy_write_costs_no_extra_cycles :: bool where
  "the_dummy_write_costs_no_extra_cycles \<longleftrightarrow>
     (let r = Rig_new;
          r = poke 0x0400 [0xEE, 0x00, 0x80] r;
          (absolute, r) = stepCycles r;
          z = Rig_new;
          z = poke 0x0400 [0xE6, 0x80] z;
          (zero_page, z) = stepCycles z
      in absolute = 6 \<and> zero_page = 5)"

definition no_instruction_makes_more_accesses_than_it_has_cycles :: bool where
  "no_instruction_makes_more_accesses_than_it_has_cycles \<longleftrightarrow>
     list_all (\<lambda>op.
        let r = Rig_new;
            r = with_regs (reg_x_update (\<lambda>_. 0x04)) r;
            r = with_regs (reg_y_update (\<lambda>_. 0x05)) r;
            r = poke 0x0400 [op, 0x20, 0x30] r;
            r = poke 0x0020 [0x00, 0x02] r;
            r = poke 0x0024 [0x80, 0x02] r;
            (cycles, r) = stepCycles r
        in bus_accesses r \<le> cycles) [0..255]"

definition indexed_addressing_reads_before_it_knows_the_address :: bool where
  "indexed_addressing_reads_before_it_knows_the_address \<longleftrightarrow>
     (let r = Rig_new;
          r = with_regs (reg_x_update (\<lambda>_. 0x01)) r;
          r = poke 0x0400 [0xBD, 0xFF, 0x02] r;
          r = cpu_step r;
          plain = Rig_new;
          plain = with_regs (reg_x_update (\<lambda>_. 0x01)) plain;
          plain = poke 0x0400 [0xBD, 0x00, 0x02] plain;
          plain = cpu_step plain
      in length (bus_reads r) = 5 \<and> bus_reads r ! 3 = 0x0200 \<and> bus_reads r ! 4 = 0x0300
        \<and> length (bus_reads plain) = 4) \<and>
     (let r = Rig_new;
          r = with_regs (reg_x_update (\<lambda>_. 0x01)) r;
          r = poke 0x0400 [0x9D, 0x00, 0x02] r;
          (cycles, r) = stepCycles r
      in cycles = 5 \<and> length (bus_reads r) = 4 \<and> bus_reads r ! 3 = 0x0201) \<and>
     (let r = Rig_new;
          r = with_regs (reg_x_update (\<lambda>_. 0x01)) r;
          r = poke 0x0400 [0x1E, 0x00, 0x02] r;
          (cycles, r) = stepCycles r
      in cycles = 7 \<and> length (bus_reads r) = 5 \<and> length (bus_writes r) = 2)"

definition accumulator_mode_never_reaches_the_bus :: bool where
  "accumulator_mode_never_reaches_the_bus \<longleftrightarrow>
     (let r = Rig_new;
          r = with_regs (reg_a_update (\<lambda>_. 0x21)) r;
          r = poke 0x0400 [0x0A] r;
          (cycles, r) = stepCycles r
      in reg_a (p_regs r) = 0x42 \<and> bus_writes r = [])"

lemma traffic_tests:
  "rmw_writes_the_old_value_before_the_new_one" "every_rmw_opcode_writes_twice"
  "the_dummy_write_costs_no_extra_cycles" "indexed_addressing_reads_before_it_knows_the_address"
  "accumulator_mode_never_reaches_the_bus"
  unfolding rmw_writes_the_old_value_before_the_new_one_def every_rmw_opcode_writes_twice_def
    the_dummy_write_costs_no_extra_cycles_def indexed_addressing_reads_before_it_knows_the_address_def
    accumulator_mode_never_reaches_the_bus_def fast
  by code_simp+

section \<open>One step of the fixture\<close>

text \<open>Counts of cycles are small: the cast of the difference of two clocks to \<open>int\<close> loses nothing.\<close>

lemma extra_cycles_bound: "0 \<le> extra_cycles I l c m \<and> extra_cycles I l c m \<le> 2"
  by (cases l) (auto simp: extra_cycles_def branch_cost_def)

lemma base_cycles_most: "base_cycles (instr_of code) \<le> 8"
proof -
  have "table_all (\<lambda>_ ins. base_cycles ins \<le> 8) 0 instruction_table"
    by (simp add: instruction_table_def row_defs)
  then show ?thesis by (rule instr_of_all)
qed

lemma spec_step_cycles:
  "base_cycles i \<le> fst (spec_step i c m) \<and> fst (spec_step i c m) \<le> base_cycles i + 2"
  using extra_cycles_bound
  by (cases i) (auto simp: isa_step_def shx_step_def Let_def)

lemma small_cycles:
  assumes "2 \<le> k" and "k \<le> 10"
  shows "sint (ucast (c + of_int k - c :: uint64) :: 32 word) = k"
proof -
  have "k \<in> {2..10}" using assms by simp
  also have "{2..10} = {2, 3, 4, 5, 6, 7, 8, 9, 10 :: int}" by auto
  finally show ?thesis by auto
qed

lemma fast_step:
  assumes "\<not> m_nmi_pending r" and "\<not> m_irq_line r"
  obtains k r2 b2 where
    "spec_step (instr_of (lg_state (p_bus r) (reg_pc (p_regs r))))
       ((abs_cpu (p_regs r))\<lparr>cPC := reg_pc (p_regs r) + 1\<rparr>) (lg_state (p_bus r)) = (k, abs_cpu r2, lg_state b2)"
    "int (accesses b2) \<le> int (accesses (p_bus r)) + k" "2 \<le> k" "k \<le> 10"
    "p_regs (step logged_system r) = r2" "p_bus (step logged_system r) = b2"
    "fst (fast_cycles r) = k"
proof -
  let ?L = "Logging_Bus array_Bus" and ?r = "p_regs r"
  let ?i = "instr_of (lg_state (p_bus r) (reg_pc ?r))"
  define r1 where "r1 = ?r\<lparr>reg_pc := reg_pc ?r + 1\<rparr>"
  define b1 where "b1 = (p_bus r)\<lparr>lg_trace := lg_trace (p_bus r) @ [Rd (reg_pc ?r)]\<rparr>"
  have fetch: "bus_read ?L (reg_pc ?r) (p_bus r) = (lg_state (p_bus r) (reg_pc ?r), b1)"
    by (simp add: b1_def Logging_Bus_def array_Bus_def)
  obtain k r2 b2 where ex: "execute ?i ?L r1 b1 = (k, r2, b2)"
    by (cases "execute ?i ?L r1 b1") auto
  have idle: "r\<lparr>m_nmi_pending := False\<rparr> = r" using assms(1) by (cases r) simp
  have "step logged_system r = execute_next logged_system r"
    using assms by (simp add: idle step_def call_back_def logged_system_def step_core_def Let_def)
  also have "\<dots> = (waitCycles logged_system k (r\<lparr>p_regs := r2, p_bus := b2\<rparr>))
      \<lparr>m_i_flag_delayed := m_i_flag_delayed (execute_next logged_system r),
       m_i_flag_before := m_i_flag_before (execute_next logged_system r)\<rparr>"
    using ex by (simp add: execute_next_def logged_system_def fetch r1_def [symmetric])
  finally have s: "p_regs (step logged_system r) = r2" "p_bus (step logged_system r) = b2"
    "p_clock (step logged_system r) = p_clock r + of_int k"
    by (simp_all add: logged_system_def default_clock_def default_waitCycles_def)
  have "ram_bus ?L lg_state (\<lambda>_. True)"
    using array.logged_ram by simp
  from ram_bus.execute_refines [OF this TrueI, of ?i r1 b1]
  have "spec_step ?i (abs_cpu r1) (lg_state b1) = (k, abs_cpu r2, lg_state b2)"
    by (simp add: implements_def ex)
  then have spec: "spec_step ?i ((abs_cpu ?r)\<lparr>cPC := reg_pc ?r + 1\<rparr>) (lg_state (p_bus r))
      = (k, abs_cpu r2, lg_state b2)"
    by (simp add: r1_def b1_def)
  have "accesses b1 = accesses (p_bus r) + 1" by (simp add: b1_def accesses_def trace_of_def)
  then have fits: "int (accesses b2) \<le> int (accesses (p_bus r)) + k"
    using opcode_traffic(1) [OF ex] by simp
  have k: "2 \<le> k" "k \<le> 10"
    using spec_step_cycles [of ?i "(abs_cpu ?r)\<lparr>cPC := reg_pc ?r + 1\<rparr>" "lg_state (p_bus r)"]
      base_cycles_least base_cycles_most [of "lg_state (p_bus r) (reg_pc ?r)"] spec
      order_trans [OF base_cycles_least] by fastforce+
  have "fst (fast_cycles r) = k"
    using small_cycles [OF k, of "p_clock r"] by (simp add: fast_cycles_def Let_def s)
  with spec fits k s show thesis by (intro that)
qed

lemma fast_put_select [simp]:
  "m_nmi_pending (fast_put p v r) = m_nmi_pending r" "m_irq_line (fast_put p v r) = m_irq_line r"
  "accesses (p_bus (fast_put p v r)) = accesses (p_bus r)" "p_regs (fast_put p v r) = p_regs r"
  "lg_state (p_bus (fast_put p v r)) = (lg_state (p_bus r))(p := v)"
  by (simp_all add: fast_put_def accesses_def trace_of_def)

lemma fast_setup [simp]:
  "m_nmi_pending (fast_poke p bytes r) = m_nmi_pending r" "m_irq_line (fast_poke p bytes r) = m_irq_line r"
  "accesses (p_bus (fast_poke p bytes r)) = accesses (p_bus r)" "p_regs (fast_poke p bytes r) = p_regs r"
  "m_nmi_pending (with_regs f r) = m_nmi_pending r" "m_irq_line (with_regs f r) = m_irq_line r"
  "p_bus (with_regs f r) = p_bus r" "p_regs (with_regs f r) = f (p_regs r)"
  by (induction bytes arbitrary: p r) (simp_all add: with_regs_def)

lemma fast_new_select [simp]:
  "\<not> m_nmi_pending fast_new" "\<not> m_irq_line fast_new" "accesses (p_bus fast_new) = 0"
  "reg_pc (p_regs fast_new) = 0x0400"
  by (simp_all add: fast_new_def Processor_new_def accesses_def trace_of_def)

lemma accesses_test: no_instruction_makes_more_accesses_than_it_has_cycles
proof -
  have fits: "bus_accesses (snd (fast_cycles r)) \<le> fst (fast_cycles r)"
    if "\<not> m_nmi_pending r" "\<not> m_irq_line r" "accesses (p_bus r) = 0" for r
    by (rule fast_step [OF that(1,2)])
      (use that(3) in \<open>simp add: fast_cycles_def bus_accesses_def Let_def\<close>)
  show ?thesis
    unfolding no_instruction_makes_more_accesses_than_it_has_cycles_def fast
    by (simp only: Let_def case_prod_beta list_all_iff) (intro ballI fits; simp)
qed

section \<open>The disassembler\<close>

primrec renders :: "(int list \<times> string) list \<Rightarrow> Rig \<Rightarrow> bool" where
  "renders [] r = True"
| "renders (c # cs) r =
     (let (bytes, expected) = c;
          r = poke 0x0400 bytes r;
          (text, probe, r) = disassemble r
      in text = expected \<and> renders cs r)"

definition disassembler_renders_operands :: bool where
  "disassembler_renders_operands \<longleftrightarrow> renders
     [([0xA9, 0x10], ''LDA #$10''),
      ([0xA5, 0x10], ''LDA $10''),
      ([0xA2, 0xFF], ''LDX #$ff''),
      ([0xAD, 0x02, 0x20], ''LDA $2002''),
      ([0xA1, 0x20], ''LDA ($20,X)''),
      ([0xB1, 0x20], ''LDA ($20),Y''),
      ([0x6C, 0x34, 0x12], ''JMP ($1234)''),
      ([0x0A], ''ASL A''),
      ([0xEA], ''NOP'')] Rig_new"

definition isControlFlow :: "int \<Rightarrow> bool" where
  "isControlFlow op \<longleftrightarrow> op \<in> set [0x00, 0x20, 0x40, 0x60, 0x4C, 0x6C, 0x02, 0x12, 0x22, 0x32,
     0x42, 0x52, 0x62, 0x72, 0x92, 0xB2, 0xD2, 0xF2]"

definition disassembler_lengths_match_execution :: bool where
  "disassembler_lengths_match_execution \<longleftrightarrow>
     list_all (\<lambda>op. isControlFlow op \<or>
       (let r = Rig_new;
            r = poke 0x0400 [op, 0x00, 0x00] r;
            (text, probe, r) = disassemble r;
            disasmLen = uint (reg_pc probe) - 0x0400;
            r = cpu_step r;
            execLen = uint (reg_pc (p_regs r)) - 0x0400
        in disasmLen = execLen \<and> text \<noteq> [])) [0..255] \<and>
     length (filter (\<lambda>op. \<not> isControlFlow op) [0..255]) = 256 - 18"

text \<open>The line that the disassembler prints for a memory, and the memory after a list of pokes.\<close>

lemma fast_disassembleE:
  obtains r' where "fast_disassemble r =
      (line_text (lg_state (p_bus r) 0x0400) (lg_state (p_bus r) 0x0401) (lg_state (p_bus r) 0x0402),
       Registers_zero\<lparr>reg_pc := 0x0401 + of_nat (operand_len (mode_of (instr_of (lg_state (p_bus r) 0x0400))))\<rparr>, r')"
    and "lg_state (p_bus r') = lg_state (p_bus r)" and "p_regs r' = p_regs r"
    and "m_nmi_pending r' = m_nmi_pending r" and "m_irq_line r' = m_irq_line r"
proof -
  obtain t at' b where u: "unasm_at (Logging_Bus array_Bus) 0x0400 (p_bus r) = (t, at', b)"
    by (cases "unasm_at (Logging_Bus array_Bus) 0x0400 (p_bus r)") auto
  have "ram_bus (Logging_Bus array_Bus) lg_state (\<lambda>_. True)"
    using array.logged_ram by simp
  note line = ram_bus.unasm_at_ram [OF this TrueI u]
  show thesis
    by (rule that [of "r\<lparr>p_bus := b\<rparr>"])
      (simp_all add: fast_disassemble_def unasm_line_def logged_system_def u line)
qed

primrec mem_poke :: "uint16 \<Rightarrow> int list \<Rightarrow> mem \<Rightarrow> mem" where
  "mem_poke p [] m = m"
| "mem_poke p (v # bytes) m = mem_poke (p + 1) bytes (m(p := word_of_int v))"

lemma fast_poke_mem: "lg_state (p_bus (fast_poke p bytes r)) = mem_poke p bytes (lg_state (p_bus r))"
  by (induction bytes arbitrary: p r) simp_all

definition mem_line :: "mem \<Rightarrow> string" where
  "mem_line m = line_text (m 0x0400) (m 0x0401) (m 0x0402)"

primrec mem_renders :: "(int list \<times> string) list \<Rightarrow> mem \<Rightarrow> bool" where
  "mem_renders [] m = True"
| "mem_renders (c # cs) m =
     (mem_line (mem_poke 0x0400 (fst c) m) = snd c \<and> mem_renders cs (mem_poke 0x0400 (fst c) m))"

lemma slow_renders: "renders cs (slow r) = mem_renders cs (lg_state (p_bus r))"
proof (induction cs arbitrary: r)
  case (Cons c cs)
  obtain r' where "fast_disassemble (fast_poke 0x0400 (fst c) r) = (line_text
      (mem_poke 0x0400 (fst c) (lg_state (p_bus r)) 0x0400) (mem_poke 0x0400 (fst c) (lg_state (p_bus r)) 0x0401)
      (mem_poke 0x0400 (fst c) (lg_state (p_bus r)) 0x0402), Registers_zero\<lparr>reg_pc := 0x0401 +
      of_nat (operand_len (mode_of (instr_of (mem_poke 0x0400 (fst c) (lg_state (p_bus r)) 0x0400))))\<rparr>, r')"
    "lg_state (p_bus r') = mem_poke 0x0400 (fst c) (lg_state (p_bus r))"
    by (rule fast_disassembleE [of "fast_poke 0x0400 (fst c) r"]) (simp_all add: fast_poke_mem)
  with Cons.IH [of r'] show ?case
    by (simp add: slow_poke slow_disassemble mem_line_def Let_def case_prod_beta)
qed simp

lemma rendered:
  "line_text 0xA9 0x10 hi = ''LDA #$10''"
  "line_text 0xA5 0x10 hi = ''LDA $10''"
  "line_text 0xA2 0xFF hi = ''LDX #$ff''"
  "line_text 0xAD 0x02 0x20 = ''LDA $2002''"
  "line_text 0xA1 0x20 hi = ''LDA ($20,X)''"
  "line_text 0xB1 0x20 hi = ''LDA ($20),Y''"
  "line_text 0x6C 0x34 0x12 = ''JMP ($1234)''"
  "line_text 0x0A lo hi = ''ASL A''"
  "line_text 0xEA lo hi = ''NOP''"
  by (simp_all add: line_text_eq instr_of_def instruction_table_def row_defs decoded_def decoded_0_def
      decoded_1_def decoded_2_def hex2_digits hex4_digits hex_digit_def separated_def le16_def)

lemma render_test: disassembler_renders_operands
proof -
  have "lg_state (p_bus fast_new) = (\<lambda>_. 0)(0xfffc := 0, 0xfffd := 4)"
    by (simp add: fast_new_def Processor_new_def)
  then show ?thesis
    unfolding disassembler_renders_operands_def slow_new slow_renders
    by (simp add: mem_line_def rendered)
qed

text \<open>
  An instruction that is no jump, return or KIL goes on behind its operand, and a branch over 0 as well.
\<close>

lemma not_control_flow: "isControlFlow (uint code) \<or> (case instr_of code of
    Inst I M n \<Rightarrow> \<not> transfers I | SHx_Inst M n Reg \<Rightarrow> True)"
proof -
  have "table_all (\<lambda>code ins. isControlFlow (uint code) \<or> (case ins of
    Inst I M n \<Rightarrow> \<not> transfers I | SHx_Inst M n Reg \<Rightarrow> True)) 0 instruction_table"
    by code_simp
  then show ?thesis by (rule instr_of_all)
qed

lemma step_over_zeros:
  assumes "\<not> isControlFlow (uint code)" and "m (cPC c) = 0"
  shows "cPC (fst (snd (spec_step (instr_of code) c m)))
    = cPC c + of_nat (operand_len (mode_of (instr_of code)))"
proof -
  have shape: "table_shape (instr_of code)" by (rule instr_of_all [OF table_shapes])
  show ?thesis
  proof (cases "branches (instr_of code) c")
    case True
    from spec_step_branches [OF shape this] show ?thesis
      by (simp add: assms(2) branch_target_def)
  next
    case False
    then have "continues (instr_of code) c"
      using not_control_flow [of code] assms(1) by (cases "instr_of code") auto
    from spec_step_continues [OF shape this] show ?thesis .
  qed
qed

lemma line_text_nonempty [simp]: "line_text code lo hi \<noteq> []"
  using mnemonic_letters [of code] by (auto simp: line_text_eq)

lemma length_test: disassembler_lengths_match_execution
proof -
  have "uint (reg_pc (fst (snd (fast_disassemble r))))
        = uint (reg_pc (p_regs (step logged_system (snd (snd (fast_disassemble r)))))) \<and>
      fst (fast_disassemble r) \<noteq> []"
    if r: "r = fast_poke 0x0400 [op, 0x00, 0x00] fast_new" and "\<not> isControlFlow op" "0 \<le> op" "op \<le> 255"
    for r op
  proof -
    have m: "lg_state (p_bus r) 0x0400 = word_of_int op" "lg_state (p_bus r) 0x0401 = 0"
      by (simp_all add: r)
    have code: "uint (word_of_int op :: uint8) = op"
      using that(3,4) by (simp add: uint_word_of_int_eq take_bit_int_eq_self)
    obtain r' where d: "fast_disassemble r = (line_text (word_of_int op) 0 (lg_state (p_bus r) 0x0402),
        Registers_zero\<lparr>reg_pc := 0x0401 + of_nat (operand_len (mode_of (instr_of (word_of_int op))))\<rparr>, r')"
      and r': "lg_state (p_bus r') = lg_state (p_bus r)" "p_regs r' = p_regs r"
        "\<not> m_nmi_pending r'" "\<not> m_irq_line r'"
      by (rule fast_disassembleE [of r]) (simp_all add: m r)
    have pc: "reg_pc (p_regs r') = 0x0400" by (simp add: r' r)
    obtain k r2 b2 where s: "spec_step (instr_of (lg_state (p_bus r') (reg_pc (p_regs r'))))
        ((abs_cpu (p_regs r'))\<lparr>cPC := reg_pc (p_regs r') + 1\<rparr>) (lg_state (p_bus r')) = (k, abs_cpu r2, lg_state b2)"
      "int (accesses b2) \<le> int (accesses (p_bus r')) + k" "2 \<le> k" "k \<le> 10"
      "p_regs (step logged_system r') = r2" "p_bus (step logged_system r') = b2" "fst (fast_cycles r') = k"
      by (rule fast_step [OF r'(3,4)])
    have "cPC (abs_cpu r2) = 0x0401 + of_nat (operand_len (mode_of (instr_of (word_of_int op))))"
      using step_over_zeros [of "word_of_int op" "lg_state (p_bus r)" "(abs_cpu (p_regs r'))\<lparr>cPC := 0x0401\<rparr>"]
        s(1) that(2) by (simp add: code m pc r'(1))
    then show ?thesis by (simp add: d s(5))
  qed
  then have "list_all (\<lambda>op. isControlFlow op \<or>
       (let r = fast_poke 0x0400 [op, 0x00, 0x00] fast_new;
            (text, probe, r) = fast_disassemble r;
            disasmLen = uint (reg_pc probe) - 0x0400;
            r = step logged_system r;
            execLen = uint (reg_pc (p_regs r)) - 0x0400
        in disasmLen = execLen \<and> text \<noteq> [])) [0..255]"
    by (fastforce simp: list_all_iff Let_def case_prod_beta)
  moreover have "length (filter (\<lambda>op. \<not> isControlFlow op) [0..255]) = 256 - 18"
    by code_simp
  ultimately show ?thesis
    unfolding disassembler_lengths_match_execution_def fast by (simp add: Let_def)
qed

end
