(* ===== verification/Test_Cpu_Undocumented.thy ===== *)
theory Test_Cpu_Undocumented
  imports Test_Rig
begin

text \<open>
  The test cases of \<^verbatim>\<open>test_src/testCpu.cpp\<close> on the undocumented opcodes and on the flag byte.
\<close>

section \<open>Undocumented opcodes\<close>

definition lax_loads_a_and_x :: bool where
  "lax_loads_a_and_x \<longleftrightarrow>
     (let r = Rig_new;
          r = poke 0x0400 [0xA7, 0x10] r;
          r = put 0x0010 0x84 r;
          (cycles, r) = stepCycles r
      in cycles = 3 \<and> reg_a (p_regs r) = 0x84 \<and> reg_x (p_regs r) = 0x84 \<and> status FLAG_N r)"

definition sax_stores_a_and_x :: bool where
  "sax_stores_a_and_x \<longleftrightarrow>
     (let r = Rig_new;
          r = with_regs (reg_a_update (\<lambda>_. 0xCC)) r;
          r = with_regs (reg_x_update (\<lambda>_. 0x0F)) r;
          r = poke 0x0400 [0x87, 0x10] r;
          (cycles, r) = stepCycles r
      in cycles = 3 \<and> get 0x0010 r = 0x0C \<and> reg_a (p_regs r) = 0xCC)"

definition dcp_decrements_then_compares :: bool where
  "dcp_decrements_then_compares \<longleftrightarrow>
     (let r = Rig_new;
          r = with_regs (reg_a_update (\<lambda>_. 0x10)) r;
          r = poke 0x0400 [0xC7, 0x10] r;
          r = put 0x0010 0x11 r;
          (cycles, r) = stepCycles r
      in cycles = 5 \<and> get 0x0010 r = 0x10 \<and> status FLAG_Z r \<and> status FLAG_C r)"

definition isc_increments_then_subtracts :: bool where
  "isc_increments_then_subtracts \<longleftrightarrow>
     (let r = Rig_new;
          r = with_regs (reg_a_update (\<lambda>_. 0x10)) r;
          r = with_regs (setStatus FLAG_C True) r;
          r = poke 0x0400 [0xE7, 0x10] r;
          r = put 0x0010 0x04 r;
          (cycles, r) = stepCycles r
      in cycles = 5 \<and> get 0x0010 r = 0x05 \<and> reg_a (p_regs r) = 0x0B)"

definition slo_shifts_then_ors :: bool where
  "slo_shifts_then_ors \<longleftrightarrow>
     (let r = Rig_new;
          r = with_regs (reg_a_update (\<lambda>_. 0x01)) r;
          r = poke 0x0400 [0x07, 0x10] r;
          r = put 0x0010 0x40 r;
          (cycles, r) = stepCycles r
      in cycles = 5 \<and> get 0x0010 r = 0x80 \<and> reg_a (p_regs r) = 0x81 \<and> \<not> status FLAG_C r)"

definition rla_rotates_then_ands :: bool where
  "rla_rotates_then_ands \<longleftrightarrow>
     (let r = Rig_new;
          r = with_regs (reg_a_update (\<lambda>_. 0xFF)) r;
          r = with_regs (setStatus FLAG_C True) r;
          r = poke 0x0400 [0x27, 0x10] r;
          r = put 0x0010 0x40 r;
          (cycles, r) = stepCycles r
      in cycles = 5 \<and> get 0x0010 r = 0x81 \<and> reg_a (p_regs r) = 0x81)"

definition sre_shifts_then_eors :: bool where
  "sre_shifts_then_eors \<longleftrightarrow>
     (let r = Rig_new;
          r = with_regs (reg_a_update (\<lambda>_. 0xFF)) r;
          r = poke 0x0400 [0x47, 0x10] r;
          r = put 0x0010 0x03 r;
          (cycles, r) = stepCycles r
      in cycles = 5 \<and> get 0x0010 r = 0x01 \<and> reg_a (p_regs r) = 0xFE \<and> status FLAG_C r)"

definition rra_rotates_then_adds :: bool where
  "rra_rotates_then_adds \<longleftrightarrow>
     (let r = Rig_new;
          r = with_regs (reg_a_update (\<lambda>_. 0x10)) r;
          r = with_regs (setStatus FLAG_C False) r;
          r = poke 0x0400 [0x67, 0x10] r;
          r = put 0x0010 0x02 r;
          (cycles, r) = stepCycles r
      in cycles = 5 \<and> get 0x0010 r = 0x01 \<and> reg_a (p_regs r) = 0x11)"

definition anc_copies_bit7_into_carry :: bool where
  "anc_copies_bit7_into_carry \<longleftrightarrow>
     (let r = Rig_new;
          r = with_regs (reg_a_update (\<lambda>_. 0xFF)) r;
          r = poke 0x0400 [0x0B, 0x80] r;
          (cycles, r) = stepCycles r
      in cycles = 2 \<and> reg_a (p_regs r) = 0x80 \<and> status FLAG_C r \<and> status FLAG_N r)"

definition alr_ands_then_shifts_right :: bool where
  "alr_ands_then_shifts_right \<longleftrightarrow>
     (let r = Rig_new;
          r = with_regs (reg_a_update (\<lambda>_. 0xFF)) r;
          r = poke 0x0400 [0x4B, 0x03] r;
          (cycles, r) = stepCycles r
      in cycles = 2 \<and> reg_a (p_regs r) = 0x01 \<and> status FLAG_C r)"

definition sbx_subtracts_from_a_and_x :: bool where
  "sbx_subtracts_from_a_and_x \<longleftrightarrow>
     (let r = Rig_new;
          r = with_regs (reg_a_update (\<lambda>_. 0xF0)) r;
          r = with_regs (reg_x_update (\<lambda>_. 0x0F)) r;
          r = poke 0x0400 [0xCB, 0x01] r;
          (cycles, r) = stepCycles r
      in cycles = 2 \<and> reg_x (p_regs r) = 0xFF \<and> \<not> status FLAG_C r)"

definition sbc_eb_is_an_alias_of_e9 :: bool where
  "sbc_eb_is_an_alias_of_e9 \<longleftrightarrow>
     (let r = Rig_new;
          r = with_regs (reg_a_update (\<lambda>_. 0x10)) r;
          r = with_regs (setStatus FLAG_C True) r;
          r = poke 0x0400 [0xEB, 0x05] r;
          (cycles, r) = stepCycles r
      in cycles = 2 \<and> reg_a (p_regs r) = 0x0B)"

definition undocumented_nops_consume_their_operands :: bool where
  "undocumented_nops_consume_their_operands \<longleftrightarrow>
     (let r = Rig_new;
          r = poke 0x0400 [0x80, 0xFF] r;
          (cycles, r) = stepCycles r
      in cycles = 2 \<and> reg_pc (p_regs r) = 0x0402) \<and>
     (let r = Rig_new;
          r = poke 0x0400 [0x04, 0xFF] r;
          (cycles, r) = stepCycles r
      in cycles = 3 \<and> reg_pc (p_regs r) = 0x0402) \<and>
     (let r = Rig_new;
          r = poke 0x0400 [0x0C, 0x34, 0x12] r;
          (cycles, r) = stepCycles r
      in cycles = 4 \<and> reg_pc (p_regs r) = 0x0403) \<and>
     (let r = Rig_new;
          r = with_regs (reg_x_update (\<lambda>_. 0x01)) r;
          r = poke 0x0400 [0x1C, 0xFF, 0x30] r;
          (cycles, r) = stepCycles r
      in cycles = 5 \<and> reg_pc (p_regs r) = 0x0403) \<and>
     (let r = Rig_new;
          r = poke 0x0400 [0x1A] r;
          (cycles, r) = stepCycles r
      in cycles = 2 \<and> reg_pc (p_regs r) = 0x0401)"

definition kil_jams_the_processor :: bool where
  "kil_jams_the_processor \<longleftrightarrow>
     (let r = Rig_new;
          r = poke 0x0400 [0x02] r;
          r = cpu_step r;
          first = reg_pc (p_regs r);
          r = cpu_step r
      in first = 0x0400 \<and> reg_pc (p_regs r) = 0x0400)"

section \<open>Flag handling\<close>

definition plp_ignores_the_break_bit :: bool where
  "plp_ignores_the_break_bit \<longleftrightarrow>
     (let r = Rig_new;
          r = poke 0x0400 [0x28] r;
          r = with_regs (reg_sp_update (\<lambda>_. 0xFC)) r;
          r = put 0x01FD 0xFF r;
          r = cpu_step r
      in reg_sr (p_regs r) AND FLAG_B = 0 \<and> reg_sr (p_regs r) AND FLAG_U = FLAG_U)"

definition php_always_pushes_break_and_unused_set :: bool where
  "php_always_pushes_break_and_unused_set \<longleftrightarrow>
     (let r = Rig_new;
          r = with_regs (reg_sr_update (\<lambda>_. FLAG_U)) r;
          r = poke 0x0400 [0x08] r;
          r = cpu_step r
      in get 0x01FD r AND (FLAG_B OR FLAG_U) = FLAG_B OR FLAG_U)"

section \<open>The checks hold\<close>

lemma undocumented_tests:
  "lax_loads_a_and_x" "sax_stores_a_and_x" "dcp_decrements_then_compares" "isc_increments_then_subtracts"
  "slo_shifts_then_ors" "rla_rotates_then_ands" "sre_shifts_then_eors" "rra_rotates_then_adds"
  unfolding lax_loads_a_and_x_def sax_stores_a_and_x_def dcp_decrements_then_compares_def
    isc_increments_then_subtracts_def slo_shifts_then_ors_def rla_rotates_then_ands_def
    sre_shifts_then_eors_def rra_rotates_then_adds_def fast
  by code_simp+

lemma immediate_tests:
  "anc_copies_bit7_into_carry" "alr_ands_then_shifts_right" "sbx_subtracts_from_a_and_x"
  "sbc_eb_is_an_alias_of_e9"
  unfolding anc_copies_bit7_into_carry_def alr_ands_then_shifts_right_def
    sbx_subtracts_from_a_and_x_def sbc_eb_is_an_alias_of_e9_def fast
  by code_simp+

lemma nop_kil_tests: "undocumented_nops_consume_their_operands" "kil_jams_the_processor"
  unfolding undocumented_nops_consume_their_operands_def kil_jams_the_processor_def fast
  by code_simp+

lemma flag_tests: "plp_ignores_the_break_bit" "php_always_pushes_break_and_unused_set"
  unfolding plp_ignores_the_break_bit_def php_always_pushes_break_and_unused_set_def fast
  by code_simp+

end
