(* ===== verification/Cpu_Suite.thy ===== *)
theory Cpu_Suite
  imports Test_Cpu Test_Cpu_Memory Test_Cpu_Undocumented
begin

text \<open>The suite of \<^verbatim>\<open>test_src/testCpu.cpp\<close> as a whole.\<close>

definition cpu_suite :: "Registers \<Rightarrow> bool" where
  "cpu_suite regs \<longleftrightarrow>
   (indexed_indirect_uses_zero_page_pointer \<and> indexed_indirect_wraps_in_zero_page \<and>
    indirect_indexed_wraps_pointer_in_zero_page \<and> jmp_indirect_reproduces_page_boundary_bug) \<and>
   (branch_cycles \<and> page_cross_penalty_on_reads \<and> no_page_cross_penalty_on_stores_and_rmw) \<and>
   (nmi_is_serviced_regardless_of_interrupt_flag \<and> irq_is_gated_by_the_interrupt_flag \<and>
    rti_returns_from_an_interrupt \<and> brk_pushes_status_with_break_set \<and> reset_disables_interrupts regs) \<and>
   (decimal_mode_adds_in_bcd \<and> a_chip_without_decimal_ignores_the_flag \<and>
    decimal_subtraction_follows_the_same_switch \<and> the_flag_itself_is_untouched_either_way) \<and>
   (memory_is_zero_filled \<and> short_memory_wraps_instead_of_overrunning \<and> bulk_transfers_are_clamped) \<and>
   (rmw_writes_the_old_value_before_the_new_one \<and> every_rmw_opcode_writes_twice \<and>
    the_dummy_write_costs_no_extra_cycles \<and> no_instruction_makes_more_accesses_than_it_has_cycles \<and>
    indexed_addressing_reads_before_it_knows_the_address \<and> accumulator_mode_never_reaches_the_bus) \<and>
   default_clock_counts_without_pacing \<and>
   (lax_loads_a_and_x \<and> sax_stores_a_and_x \<and> dcp_decrements_then_compares \<and>
    isc_increments_then_subtracts \<and> slo_shifts_then_ors \<and> rla_rotates_then_ands \<and>
    sre_shifts_then_eors \<and> rra_rotates_then_adds \<and> anc_copies_bit7_into_carry \<and>
    alr_ands_then_shifts_right \<and> sbx_subtracts_from_a_and_x \<and> sbc_eb_is_an_alias_of_e9 \<and>
    undocumented_nops_consume_their_operands \<and> kil_jams_the_processor) \<and>
   (disassembler_renders_operands \<and> disassembler_lengths_match_execution) \<and>
   (plp_ignores_the_break_bit \<and> php_always_pushes_break_and_unused_set)"

text \<open>
  The regression suite of the processor holds on the modelled code: every check of the test cases for addressing modes,
  cycle counts, interrupts, reset, decimal mode, memory, bus traffic, the disassembler, the
  undocumented opcodes and the flag byte, run on the fixture of the suite. The two test cases that
  loop over the opcodes hold for all of them.
\<close>

lemma cpu_suite_passes:
  "cpu_suite regs"
  unfolding cpu_suite_def
  by (intro conjI addressing_tests cycle_tests interrupt_tests decimal_tests memory_tests traffic_tests
      accesses_test undocumented_tests immediate_tests nop_kil_tests render_test length_test flag_tests)

end
