(* ===== verification/Test_Asm.thy ===== *)
theory Test_Asm
  imports Assembler_Text
begin

text \<open>
  The test cases of \<^verbatim>\<open>test_src/testAsm.cpp\<close>: sources that assemble, with the bytes that must be in the image, and sources
  that must be refused, with the message. A raw string of the tests is \<open>raw_text\<close> of its lines.
\<close>

section \<open>The macros and the fixture\<close>

definition raw_text :: "string list \<Rightarrow> string" where
  "raw_text ls = concat (map (\<lambda>l. l @ [CHR 0x0A]) ls)"

definition ASSERT_OPCODE_2PARAM :: "uint8 list \<Rightarrow> nat \<Rightarrow> uint8 \<Rightarrow> uint8 \<Rightarrow> uint8 \<Rightarrow> bool" where
  "ASSERT_OPCODE_2PARAM d a opcode byte1 byte2 \<longleftrightarrow>
     d ! a = opcode \<and> d ! (a + 1) = byte1 \<and> d ! (a + 2) = byte2"

definition ASSERT_OPCODE_1PARAM :: "uint8 list \<Rightarrow> nat \<Rightarrow> uint8 \<Rightarrow> uint8 \<Rightarrow> bool" where
  "ASSERT_OPCODE_1PARAM d a opcode byte1 \<longleftrightarrow> d ! a = opcode \<and> d ! (a + 1) = byte1"

definition ASSERT_OPCODE :: "uint8 list \<Rightarrow> nat \<Rightarrow> uint8 \<Rightarrow> bool" where
  "ASSERT_OPCODE d a opcode \<longleftrightarrow> d ! a = opcode"

text \<open>The fixture assembles for \<open>$0400\<close>; \<open>compiled\<close> checks the image, \<open>thrown\<close> the exception.\<close>

definition compiled :: "string \<Rightarrow> (uint8 list \<Rightarrow> bool) \<Rightarrow> bool" where
  "compiled code check \<longleftrightarrow>
     (case compile_source 0x0400 code of Some (Inr d) \<Rightarrow> check d | _ \<Rightarrow> False)"

definition thrown :: "string \<Rightarrow> (string \<Rightarrow> bool) \<Rightarrow> bool" where
  "thrown code check \<longleftrightarrow>
     (case compile_source 0x0400 code of Some (Inl e) \<Rightarrow> check (what e) | _ \<Rightarrow> False)"

section \<open>The test cases\<close>

definition test_asm_adc :: bool where
  "test_asm_adc \<longleftrightarrow> compiled (raw_text
     ['' ; ADC test'', ''    adc #$12'', ''    adc $34'', ''    adc $35,x'', ''    adc $3678'',
      ''    adc $3940,x'', ''    adc $4142,y'', ''    adc ($51,x)'', ''    adc ($52),y''])
     (\<lambda>d. ASSERT_OPCODE_1PARAM d 0x400 0x69 0x12 \<and>
          ASSERT_OPCODE_1PARAM d 0x402 0x65 0x34 \<and>
          ASSERT_OPCODE_1PARAM d 0x404 0x75 0x35 \<and>
          ASSERT_OPCODE_2PARAM d 0x406 0x6d 0x78 0x36 \<and>
          ASSERT_OPCODE_2PARAM d 0x409 0x7d 0x40 0x39 \<and>
          ASSERT_OPCODE_2PARAM d 0x40c 0x79 0x42 0x41 \<and>
          ASSERT_OPCODE_1PARAM d 0x40f 0x61 0x51 \<and>
          ASSERT_OPCODE_1PARAM d 0x411 0x71 0x52)"

definition test_asm_invalid_syntax1 :: bool where
  "test_asm_invalid_syntax1 \<longleftrightarrow> thrown (raw_text ['' ; Syntax error test'', ''    and #$2322''])
     (\<lambda>msg. msg = ''Syntax error at line: 2'')"

definition test_asm_invalid_syntax2 :: bool where
  "test_asm_invalid_syntax2 \<longleftrightarrow> thrown (raw_text ['' ; Syntax error test'', ''    and ($2322),x''])
     (\<lambda>msg. msg = ''Syntax error at line: 2'')"

definition test_asm_invalid_syntax3 :: bool where
  "test_asm_invalid_syntax3 \<longleftrightarrow> thrown (raw_text ['' ; Syntax error test'', ''    adc''])
     (\<lambda>msg. msg = ''Syntax error at line: 2'')"

definition test_asm_relative_offsets :: bool where
  "test_asm_relative_offsets \<longleftrightarrow> compiled (raw_text
     ['' ; branch test'', ''    bne +4'', ''    beq -4'', ''    bcc 0'', ''    bmi +127'', ''    bpl -128''])
     (\<lambda>d. ASSERT_OPCODE_1PARAM d 0x400 0xd0 0x04 \<and>
          ASSERT_OPCODE_1PARAM d 0x402 0xf0 0xfc \<and>
          ASSERT_OPCODE_1PARAM d 0x404 0x90 0x00 \<and>
          ASSERT_OPCODE_1PARAM d 0x406 0x30 0x7f \<and>
          ASSERT_OPCODE_1PARAM d 0x408 0x10 0x80)"

definition test_asm_indirect_syntax :: bool where
  "test_asm_indirect_syntax \<longleftrightarrow> compiled (raw_text
     ['' ; indirect test'', ''    lda ($51,x)'', ''    lda ($52),y'', ''    jmp ($1234)''])
     (\<lambda>d. ASSERT_OPCODE_1PARAM d 0x400 0xa1 0x51 \<and>
          ASSERT_OPCODE_1PARAM d 0x402 0xb1 0x52 \<and>
          ASSERT_OPCODE_2PARAM d 0x404 0x6c 0x34 0x12)"

definition test_asm_rejects_malformed_indirect :: bool where
  "test_asm_rejects_malformed_indirect \<longleftrightarrow>
     thrown (raw_text [''lda ($51),x'']) (\<lambda>_. True) \<and>
     thrown (raw_text [''lda ($51,y)'']) (\<lambda>_. True) \<and>
     thrown (raw_text [''lda ($51,x'']) (\<lambda>_. True) \<and>
     thrown (raw_text [''lda $51,x)'']) (\<lambda>_. True)"

definition test_asm_addressing_widths :: bool where
  "test_asm_addressing_widths \<longleftrightarrow> compiled (raw_text
     ['''', ''    lda $12'', ''    lda $1234'', ''    lda $12,x'', ''    lda $1234,x'', ''    ldx $12,y'',
      ''    lda $1234,y'', ''    asl a'', ''    nop''])
     (\<lambda>d. ASSERT_OPCODE_1PARAM d 0x400 0xa5 0x12 \<and>
          ASSERT_OPCODE_2PARAM d 0x402 0xad 0x34 0x12 \<and>
          ASSERT_OPCODE_1PARAM d 0x405 0xb5 0x12 \<and>
          ASSERT_OPCODE_2PARAM d 0x407 0xbd 0x34 0x12 \<and>
          ASSERT_OPCODE_1PARAM d 0x40a 0xb6 0x12 \<and>
          ASSERT_OPCODE_2PARAM d 0x40c 0xb9 0x34 0x12 \<and>
          ASSERT_OPCODE d 0x40f 0x0a \<and>
          ASSERT_OPCODE d 0x410 0xea)"

definition test_asm_and :: bool where
  "test_asm_and \<longleftrightarrow> compiled (raw_text
     ['' ; AND test'', ''    and #$23'', ''    and $34'', ''    and $35,x'', ''    and $3678'',
      ''    and $3940,x'', ''    and $4142,y'', ''    and ($51,x)'', ''    and ($52),y''])
     (\<lambda>d. ASSERT_OPCODE_1PARAM d 0x400 0x29 0x23 \<and>
          ASSERT_OPCODE_1PARAM d 0x402 0x25 0x34 \<and>
          ASSERT_OPCODE_1PARAM d 0x404 0x35 0x35 \<and>
          ASSERT_OPCODE_2PARAM d 0x406 0x2d 0x78 0x36 \<and>
          ASSERT_OPCODE_2PARAM d 0x409 0x3d 0x40 0x39 \<and>
          ASSERT_OPCODE_2PARAM d 0x40c 0x39 0x42 0x41 \<and>
          ASSERT_OPCODE_1PARAM d 0x40f 0x21 0x51 \<and>
          ASSERT_OPCODE_1PARAM d 0x411 0x31 0x52)"

section \<open>The checks hold\<close>

text \<open>The image of a source whose lines have the given codes, and the error of one that has none.\<close>

lemma compiledI:
  assumes "list_all plain_line ls" and "map line_code ls = map Some codes"
    and "length (concat codes) \<le> 1000"
    and "\<And>d. map (nth d) [0x400..<0x400 + length (concat codes)] = concat codes \<Longrightarrow> check d"
  shows "compiled (raw_text ls) check"
proof -
  let ?code = "concat codes"
  let ?d = "to_vector (store_bytes (fresh_image 0x0400) 0x0400 ?code)"
  have "map (the \<circ> line_code) ls = codes"
    using arg_cong [OF assms(2), of "map the"] by (simp add: comp_def)
  moreover have "line_code l \<noteq> None" if "l \<in> set ls" for l
    using that arg_cong [OF assms(2), of set] by (auto dest!: equalityD1)
  ultimately have "compile 0x0400 ls = Inr ?d"
    by (simp add: compile_Inr_iff)
  then have "compile_source 0x0400 (raw_text ls) = Some (Inr ?d)"
    using compile_source_eol [of ls "[CHR 0x0A]"] assms(1)
    by (simp add: raw_text_def eols_def list_all_iff)
  moreover have "map (nth ?d) [0x400..<0x400 + length ?code] = ?code"
  proof (rule nth_equalityI)
    fix i assume "i < length (map (nth ?d) [0x400..<0x400 + length ?code])"
    then have i: "i < length ?code" by simp
    then have "unat (0x0400 + word_of_nat i :: uint16) = 0x400 + i"
      using assms(3) by (simp add: unat_word_ariths unat_of_nat take_bit_nat_eq_self)
    then show "map (nth ?d) [0x400..<0x400 + length ?code] ! i = ?code ! i"
      using store_bytes_inside [of ?code i "fresh_image 0x0400" "0x0400"] i assms(3)
        nth_to_vector [of "store_bytes (fresh_image 0x0400) 0x0400 ?code" "0x0400 + word_of_nat i"]
      by simp
  qed simp
  ultimately show ?thesis using assms(4) by (simp add: compiled_def)
qed

lemma thrownI:
  assumes "list_all plain_line ls" and "bad_line ls k"
    and "check (what (asm_syntax_exception (cast_int (int k + 1))))"
  shows "thrown (raw_text ls) check"
proof -
  have "compile_source 0x0400 (raw_text ls) = Some (compile 0x0400 ls)"
    using compile_source_eol [of ls "[CHR 0x0A]"] assms(1)
    by (simp add: raw_text_def eols_def list_all_iff)
  moreover have "compile 0x0400 ls = Inl (asm_syntax_exception (cast_int (int k + 1)))"
    using compile_from_bad [OF assms(2), of 0] by (simp add: compile_def)
  ultimately show ?thesis using assms(3) by (simp add: thrown_def)
qed

text \<open>The codes of the lines, evaluated.\<close>

lemma comment_codes:
  "line_code [] = Some []" "line_code '' ; ADC test'' = Some []" "line_code '' ; AND test'' = Some []"
  "line_code '' ; branch test'' = Some []" "line_code '' ; indirect test'' = Some []"
  "line_code '' ; Syntax error test'' = Some []"
  by code_simp+

lemma adc_codes:
  "line_code ''    adc #$12'' = Some [0x69, 0x12]"
  "line_code ''    adc $34'' = Some [0x65, 0x34]"
  "line_code ''    adc $35,x'' = Some [0x75, 0x35]"
  "line_code ''    adc $3678'' = Some [0x6d, 0x78, 0x36]"
  "line_code ''    adc $3940,x'' = Some [0x7d, 0x40, 0x39]"
  "line_code ''    adc $4142,y'' = Some [0x79, 0x42, 0x41]"
  "line_code ''    adc ($51,x)'' = Some [0x61, 0x51]"
  "line_code ''    adc ($52),y'' = Some [0x71, 0x52]"
  by code_simp+

lemma and_codes:
  "line_code ''    and #$23'' = Some [0x29, 0x23]"
  "line_code ''    and $34'' = Some [0x25, 0x34]"
  "line_code ''    and $35,x'' = Some [0x35, 0x35]"
  "line_code ''    and $3678'' = Some [0x2d, 0x78, 0x36]"
  "line_code ''    and $3940,x'' = Some [0x3d, 0x40, 0x39]"
  "line_code ''    and $4142,y'' = Some [0x39, 0x42, 0x41]"
  "line_code ''    and ($51,x)'' = Some [0x21, 0x51]"
  "line_code ''    and ($52),y'' = Some [0x31, 0x52]"
  by code_simp+

lemma width_codes:
  "line_code ''    lda $12'' = Some [0xa5, 0x12]"
  "line_code ''    lda $1234'' = Some [0xad, 0x34, 0x12]"
  "line_code ''    lda $12,x'' = Some [0xb5, 0x12]"
  "line_code ''    lda $1234,x'' = Some [0xbd, 0x34, 0x12]"
  "line_code ''    ldx $12,y'' = Some [0xb6, 0x12]"
  "line_code ''    lda $1234,y'' = Some [0xb9, 0x34, 0x12]"
  "line_code ''    asl a'' = Some [0x0a]"
  "line_code ''    nop'' = Some [0xea]"
  by code_simp+

lemma branch_codes:
  "line_code ''    bne +4'' = Some [0xd0, 0x04]"
  "line_code ''    beq -4'' = Some [0xf0, 0xfc]"
  "line_code ''    bcc 0'' = Some [0x90, 0x00]"
  "line_code ''    bmi +127'' = Some [0x30, 0x7f]"
  "line_code ''    bpl -128'' = Some [0x10, 0x80]"
  by code_simp+

lemma indirect_codes:
  "line_code ''    lda ($51,x)'' = Some [0xa1, 0x51]"
  "line_code ''    lda ($52),y'' = Some [0xb1, 0x52]"
  "line_code ''    jmp ($1234)'' = Some [0x6c, 0x34, 0x12]"
  by code_simp+

lemma refused_codes:
  "line_code ''    and #$2322'' = None" "line_code ''    and ($2322),x'' = None"
  "line_code ''    adc'' = None" "line_code ''lda ($51),x'' = None" "line_code ''lda ($51,y)'' = None"
  "line_code ''lda ($51,x'' = None" "line_code ''lda $51,x)'' = None"
  by code_simp+

lemmas line_codes = comment_codes adc_codes and_codes width_codes branch_codes indirect_codes

lemmas asserts = ASSERT_OPCODE_def ASSERT_OPCODE_1PARAM_def ASSERT_OPCODE_2PARAM_def

lemma accepted_tests:
  "test_asm_adc" "test_asm_and" "test_asm_relative_offsets" "test_asm_indirect_syntax"
  "test_asm_addressing_widths"
proof -
  show test_asm_adc
    unfolding test_asm_adc_def
    by (rule compiledI [where codes = "[[], [0x69, 0x12], [0x65, 0x34], [0x75, 0x35], [0x6d, 0x78, 0x36],
      [0x7d, 0x40, 0x39], [0x79, 0x42, 0x41], [0x61, 0x51], [0x71, 0x52]]"])
      (simp_all add: plain_line_def line_codes asserts upt_rec_numeral)
  show test_asm_and
    unfolding test_asm_and_def
    by (rule compiledI [where codes = "[[], [0x29, 0x23], [0x25, 0x34], [0x35, 0x35], [0x2d, 0x78, 0x36],
      [0x3d, 0x40, 0x39], [0x39, 0x42, 0x41], [0x21, 0x51], [0x31, 0x52]]"])
      (simp_all add: plain_line_def line_codes asserts upt_rec_numeral)
  show test_asm_relative_offsets
    unfolding test_asm_relative_offsets_def
    by (rule compiledI [where codes = "[[], [0xd0, 0x04], [0xf0, 0xfc], [0x90, 0x00], [0x30, 0x7f],
      [0x10, 0x80]]"])
      (simp_all add: plain_line_def line_codes asserts upt_rec_numeral)
  show test_asm_indirect_syntax
    unfolding test_asm_indirect_syntax_def
    by (rule compiledI [where codes = "[[], [0xa1, 0x51], [0xb1, 0x52], [0x6c, 0x34, 0x12]]"])
      (simp_all add: plain_line_def line_codes asserts upt_rec_numeral)
  show test_asm_addressing_widths
    unfolding test_asm_addressing_widths_def
    by (rule compiledI [where codes = "[[], [0xa5, 0x12], [0xad, 0x34, 0x12], [0xb5, 0x12],
      [0xbd, 0x34, 0x12], [0xb6, 0x12], [0xb9, 0x34, 0x12], [0x0a], [0xea]]"])
      (simp_all add: plain_line_def line_codes asserts upt_rec_numeral)
qed

lemma refused_line:
  assumes "line_code l = None"
  shows "bad_line [l] 0" and "bad_line ['' ; Syntax error test'', l] 1"
  using assms comment_codes by (simp_all add: bad_line_def nth_Cons)

lemma refused_message: "what (asm_syntax_exception (cast_int (int 1 + 1))) = ''Syntax error at line: 2''"
  by (simp add: what_def asm_syntax_exception_def format_error_def cast_int_def show_int_def show_dec.simps hex_digit_def)

lemma refused_tests:
  "test_asm_invalid_syntax1" "test_asm_invalid_syntax2" "test_asm_invalid_syntax3"
  "test_asm_rejects_malformed_indirect"
  unfolding test_asm_invalid_syntax1_def test_asm_invalid_syntax2_def test_asm_invalid_syntax3_def
    test_asm_rejects_malformed_indirect_def
  by (intro conjI thrownI [OF _ refused_line(1)] thrownI [OF _ refused_line(2)] refused_codes refused_message
      TrueI; simp add: plain_line_def)+

definition assembler_suite :: "bool" where
  "assembler_suite \<longleftrightarrow>
   test_asm_adc \<and> test_asm_invalid_syntax1 \<and> test_asm_invalid_syntax2 \<and> test_asm_invalid_syntax3 \<and>
   test_asm_relative_offsets \<and> test_asm_indirect_syntax \<and> test_asm_rejects_malformed_indirect \<and>
   test_asm_addressing_widths \<and> test_asm_and"

text \<open>
  The assembler's own test suite holds: the five sources assemble to the opcodes and operand bytes that
  the tests check, at the addresses they check, and the seven malformed ones are refused, with the line number
  where the test names it.
\<close>

lemma assembler_suite_passes:
  "assembler_suite"
  unfolding assembler_suite_def using accepted_tests refused_tests by blast

end
