(* ===== verification/Test_Adc.thy ===== *)
theory Test_Adc
  imports Loaded_System Bus_Simulation
begin

text \<open>
  \<^verbatim>\<open>test_src/testAdc.cpp\<close>: whole programs run with \<open>start(true)\<close>. The instruction callback of the fixture is a closure
  with a variable \<open>oldpc\<close> of its own, and pauses the processor when an instruction leaves the program counter
  where it was; here that variable is kept beside the memory, in the bus state of the fixture. The second
  part moves the fixture to a memory function, as in \<open>Bus_Simulation\<close>, and evaluates the runs.
\<close>

section \<open>The fixture\<close>

record 'm traced =
  tr_mem :: 'm
  tr_oldpc :: uint16

definition Traced_Bus :: "'m Bus \<Rightarrow> 'm traced Bus" where
  "Traced_Bus B =
     \<lparr>bus_read = (\<lambda>ad b. case bus_read B ad (tr_mem b) of (v, m) \<Rightarrow> (v, b\<lparr>tr_mem := m\<rparr>)),
      bus_write = (\<lambda>ad v b. b\<lparr>tr_mem := bus_write B ad v (tr_mem b)\<rparr>)\<rparr>"

definition trap_callback :: "('m traced, 'k) Processor \<Rightarrow> ('m traced, 'k) Processor" where
  "trap_callback P =
     (if tr_oldpc (p_bus P) = reg_pc (p_regs P) then pause P
      else P\<lparr>p_bus := (p_bus P)\<lparr>tr_oldpc := reg_pc (p_regs P)\<rparr>\<rparr>)"

definition trap_system :: "'m Bus \<Rightarrow> ('m traced, uint64) Env" where
  "trap_system B = setInstructionCallback (Some trap_callback)
     \<lparr>v_bus = Traced_Bus B, v_clock = default_clock, p_instr_callback = None\<rparr>"

type_synonym fixture = "(Memory option traced, uint64) Processor"

definition prepare_test :: "Memory \<Rightarrow> Memory option" where
  "prepare_test mem =
     (let data = replicate 0x10000 0;
          data = data[0xfffc := 0x00];
          data = data[0xfffd := 0x04]
      in Memory_write_bulk (Some data) 0x10000 0 mem)"

definition loadProgram :: "uint8 list \<Rightarrow> Memory \<Rightarrow> Memory option" where
  "loadProgram d mem = Memory_write_bulk (Some d) (int (length d)) 0x400 mem"

text \<open>The constructor with the program of the test loaded, and \<open>start(true)\<close>.\<close>

definition Test_ADC :: "uint8 list \<Rightarrow> fixture option" where
  "Test_ADC program =
     (case prepare_test (Memory_new 256) of
        None \<Rightarrow> None
      | Some mem \<Rightarrow>
          case loadProgram program mem of
            None \<Rightarrow> None
          | Some mem \<Rightarrow> Some (Processor_new \<lparr>tr_mem = Bus_connect (Some mem) Bus_new, tr_oldpc = 0\<rparr>
              Registers_zero default_clock_new))"

definition run_test :: "uint8 list \<Rightarrow> (fixture \<Rightarrow> bool) \<Rightarrow> bool" where
  "run_test program check =
     (case Test_ADC program of
        None \<Rightarrow> False
      | Some P \<Rightarrow>
          case Emulator_start (run (trap_system default_Bus)) (trap_system default_Bus) True P of
            None \<Rightarrow> False
          | Some P \<Rightarrow> check P)"

section \<open>The programs and the test cases\<close>

definition program_test_adc_imm :: "uint8 list" where
  "program_test_adc_imm = [0xD8, 0xA9, 0x01, 0x69, 0x21, 0xD0, 0xfe]"

definition program_test_adc_zp :: "uint8 list" where
  "program_test_adc_zp = [0xD8, 0xA9, 0x01, 0x85, 0x00, 0xA9, 0x01, 0x65, 0x00, 0xD0, 0xfe]"

definition program_test_adc_zpx :: "uint8 list" where
  "program_test_adc_zpx =
     [0xD8, 0xA9, 0x03, 0x85, 0x03, 0xA9, 0x04, 0xA2, 0x02, 0x75, 0x01, 0xD0, 0xfe]"

definition program_test_adc_abs :: "uint8 list" where
  "program_test_adc_abs =
     [0xD8, 0xA9, 0x05, 0x8D, 0x00, 0x02, 0xA9, 0x06, 0x6D, 0x00, 0x02, 0xD0, 0xfe]"

definition program_test_adc_abx :: "uint8 list" where
  "program_test_adc_abx =
     [0xD8, 0xA9, 0x06, 0x8D, 0x03, 0x02, 0xA9, 0x07, 0xA2, 0x03, 0x7D, 0x00, 0x02, 0xD0, 0xfe]"

definition sums_to :: "uint8 \<Rightarrow> ('b, 'k) Processor \<Rightarrow> bool" where
  "sums_to v P \<longleftrightarrow> \<not> getStatus FLAG_C (p_regs P) \<and> \<not> getStatus FLAG_Z (p_regs P)
     \<and> \<not> getStatus FLAG_V (p_regs P) \<and> reg_a (p_regs P) = v"

definition test_adc_imm :: bool where
  "test_adc_imm \<longleftrightarrow> run_test program_test_adc_imm (sums_to 0x22)"

definition test_adc_zp :: bool where
  "test_adc_zp \<longleftrightarrow> run_test program_test_adc_zp (sums_to 0x02)"

definition test_adc_zpx :: bool where
  "test_adc_zpx \<longleftrightarrow> run_test program_test_adc_zpx (sums_to 0x07)"

definition test_adc_abs :: bool where
  "test_adc_abs \<longleftrightarrow> run_test program_test_adc_abs (sums_to 0x0b)"

definition test_adc_abx :: bool where
  "test_adc_abx \<longleftrightarrow> run_test program_test_adc_abx (sums_to 0x0d)"

section \<open>Loading\<close>

lemma ram_of_view:
  assumes "full_memory (Some M)"
  shows "M = ram_of (memory_view (Some M))"
proof -
  have ok: "mem_ok M" "m_size M = 65536" using assms by (simp_all add: full_memory_def)
  have "unat (m_pages M) * 256 = 65536" using ok by (simp add: mem_ok_def MAX_BYTES_PER_PAGE_def)
  then have "unat (m_pages M) = 256" by simp
  then have pages: "m_pages M = 256" by (simp add: word_unat_eq_iff)
  have "m_bytes M = map (\<lambda>i. memory_view (Some M) (word_of_nat i)) [0..<65536]"
    using ok by (intro nth_equalityI)
      (simp_all add: memory_view_def Bus_read_def Memory_read_def checkAddress_def unat_of_nat
        take_bit_nat_eq_self)
  with ok pages show ?thesis by (simp add: ram_of_def)
qed

lemma ram_of_full: "full_memory (Some (ram_of m))" "memory_view (Some (ram_of m)) = m"
  by (auto simp: full_memory_def ram_of_def mem_ok_def MAX_BYTES_PER_PAGE_def memory_view_def
      Bus_read_def ram_of_read [unfolded ram_of_def])

lemma ram_of_load:
  assumes "unat off + length xs \<le> 65536"
  shows "Memory_write_bulk (Some xs) (int (length xs)) off (ram_of m) = Some (ram_of (store_bytes m off xs))"
proof (rule load_bytes [OF ram_of_full(1) assms order_refl, of m])
  fix M'
  assume M': "Memory_write_bulk (Some xs) (int (length xs)) off (ram_of m) = Some M'"
    "full_memory (Some M')"
    "\<And>ad. memory_view (Some M') ad =
      (if unat off \<le> unat ad \<and> unat ad < unat off + length xs then xs ! (unat ad - unat off)
       else memory_view (Some (ram_of m)) ad)"
  have "memory_view (Some M') ad = store_bytes m off xs ad" for ad
  proof (cases "unat off \<le> unat ad \<and> unat ad < unat off + length xs")
    case True
    define i where "i = unat ad - unat off"
    have "ad = off + word_of_nat i"
      using True by (simp add: i_def of_nat_diff)
    moreover have "i < length xs" using True by (simp add: i_def) linarith
    ultimately show ?thesis
      using True store_bytes_inside [of xs i m off] assms M'(3) [of ad] by (simp add: i_def)
  next
    case False
    have "ad \<noteq> off + word_of_nat i" if "i < length xs" for i
    proof
      assume "ad = off + word_of_nat i"
      then have "unat ad = unat off + i"
        using that assms by (simp add: unat_word_ariths unat_of_nat take_bit_nat_eq_self)
      with False that show False by simp
    qed
    then have "store_bytes m off xs ad = m ad" by (rule store_bytes_outside)
    then show ?thesis by (simp only: M'(3) False if_False ram_of_full(2))
  qed
  then have "memory_view (Some M') = store_bytes m off xs" by auto
  with M'(1) ram_of_view [OF M'(2)] show ?thesis by simp
qed

section \<open>Evaluation\<close>

text \<open>A loop that ends within \<open>n\<close> rounds, by evaluation.\<close>

fun rounds :: "nat \<Rightarrow> ('s \<Rightarrow> bool) \<Rightarrow> ('s \<Rightarrow> 's) \<Rightarrow> 's \<Rightarrow> 's option" where
  "rounds 0 b c s = (if b s then None else Some s)"
| "rounds (Suc n) b c s = (if b s then rounds n b c (c s) else Some s)"

lemma rounds_while: "rounds n b c s = Some t \<Longrightarrow> while_option b c s = Some t"
  by (induction n b c s rule: rounds.induct) (subst while_option_unfold, simp split: if_splits)+

context env_map
begin

lemma start_map:
  "Emulator_start (run E') E' go (on_bus h P) = map_option (on_bus h) (Emulator_start (run E) E go P)"
  by (simp add: Emulator_start_def Let_def case_prod_beta on_bus_update on_bus_flags same_clock
      waitCycles_map run_map)

end

definition traced_ram :: "mem traced \<Rightarrow> Memory option traced" where
  "traced_ram b = \<lparr>tr_mem = Some (ram_of (tr_mem b)), tr_oldpc = tr_oldpc b\<rparr>"

interpretation traced_map: env_map "trap_system array_Bus" "trap_system default_Bus" traced_ram
  by unfold_locales
    (simp_all add: trap_system_def setInstructionCallback_def Traced_Bus_def traced_ram_def default_Bus_def
      array_Bus_def Bus_read_def Bus_write_def ram_of_read ram_of_write call_back_def trap_callback_def
      pause_def on_bus_def)

definition fast_fixture :: "uint8 list \<Rightarrow> (mem traced, uint64) Processor" where
  "fast_fixture program = Processor_new
     \<lparr>tr_mem = store_bytes ((\<lambda>_. 0)(0xfffd := 0x04)) 0x400 program, tr_oldpc = 0\<rparr> Registers_zero 0"

lemma prepared: "prepare_test (Memory_new 256) = Some (ram_of ((\<lambda>_. 0)(0xfffd := 0x04)))"
proof -
  define d :: "uint8 list" where "d = (replicate 0x10000 0)[0xfffc := 0x00, 0xfffd := 0x04]"
  have len: "length d = 0x10000" by (simp add: d_def)
  have "store_bytes (\<lambda>_. 0) 0 d ad = ((\<lambda>_. 0)(0xfffd := 0x04)) ad" for ad :: uint16
    using store_bytes_inside [of d "unat ad" "\<lambda>_. 0" 0] unat16_less [of ad]
    by (simp add: len) (simp add: d_def nth_list_update word_unat_eq_iff)
  then have "store_bytes (\<lambda>_. 0) 0 d = (\<lambda>_. 0)(0xfffd := 0x04)" by auto
  then show ?thesis
    using ram_of_load [of 0 d "\<lambda>_. 0"] len
    by (simp add: prepare_test_def ram_of_new d_def [symmetric] Let_def)
qed

lemma run_test_fast:
  assumes "length program \<le> 1000"
    and "rounds n run_cond (step (trap_system array_Bus)) (run_start (trap_system array_Bus)
      (the (Emulator_start Some (trap_system array_Bus) True (fast_fixture program)))) = Some P"
    and "\<And>h. check (on_bus h (run_end P))"
  shows "run_test program check"
proof -
  have "loadProgram program (ram_of ((\<lambda>_. 0)(0xfffd := 0x04)))
      = Some (ram_of (store_bytes ((\<lambda>_. 0)(0xfffd := 0x04)) 0x400 program))"
    unfolding loadProgram_def using assms(1) by (intro ram_of_load) simp
  then have "Test_ADC program = Some (on_bus traced_ram (fast_fixture program))"
    by (simp add: Test_ADC_def prepared fast_fixture_def traced_ram_def on_bus_def Processor_new_def
        Bus_connect_def default_clock_new_def)
  moreover have "Emulator_start (run (trap_system array_Bus)) (trap_system array_Bus) True (fast_fixture program)
      = Some (run_end P)"
    using rounds_while [OF assms(2)] by (simp add: run_def Emulator_start_def Let_def case_prod_beta)
  ultimately show ?thesis
    using assms(3) by (simp add: run_test_def traced_map.start_map)
qed

definition fast_run :: "uint8 list \<Rightarrow> uint8 \<Rightarrow> bool" where
  "fast_run program v =
     (case rounds 12 run_cond (step (trap_system array_Bus)) (run_start (trap_system array_Bus)
       (the (Emulator_start Some (trap_system array_Bus) True (fast_fixture program)))) of
        None \<Rightarrow> False | Some P \<Rightarrow> sums_to v (run_end P))"

lemma fast_runs:
  "fast_run program_test_adc_imm 0x22"
  "fast_run program_test_adc_zp 0x02"
  "fast_run program_test_adc_zpx 0x07"
  "fast_run program_test_adc_abs 0x0b"
  "fast_run program_test_adc_abx 0x0d"
  by code_simp+

lemma fast_run_test:
  assumes "fast_run program v" and "length program \<le> 1000"
  shows "run_test program (sums_to v)"
proof -
  obtain P where "rounds 12 run_cond (step (trap_system array_Bus)) (run_start (trap_system array_Bus)
      (the (Emulator_start Some (trap_system array_Bus) True (fast_fixture program)))) = Some P"
    and "sums_to v (run_end P)"
    using assms(1) by (auto simp: fast_run_def split: option.splits)
  then show ?thesis
    by (intro run_test_fast [OF assms(2)]) (simp_all add: sums_to_def)
qed

definition adc_suite :: "bool" where
  "adc_suite \<longleftrightarrow>
   test_adc_imm \<and> test_adc_zp \<and> test_adc_zpx \<and> test_adc_abs \<and> test_adc_abx"

text \<open>
  The five programs of the suite run to their end: \<open>start(true)\<close> returns, stopped by the
  fixture's callback in the branch to itself, with the sum in A, no carry, no overflow and a result that is not zero. They
  add with an immediate, zero page, zero page indexed, absolute and absolute indexed operand.
\<close>

lemma adc_suite_passes:
  "adc_suite"
  unfolding adc_suite_def test_adc_imm_def test_adc_zp_def test_adc_zpx_def test_adc_abs_def test_adc_abx_def
  by (intro conjI fast_run_test fast_runs)
    (simp_all add: program_test_adc_imm_def program_test_adc_zp_def program_test_adc_zpx_def
      program_test_adc_abs_def program_test_adc_abx_def)

end
