(* ===== verification/Test_Functional.thy ===== *)
theory Test_Functional
  imports Loaded_System
begin

text \<open>
  The harness of \<^verbatim>\<open>test_src/testFunctional.cpp\<close>, which runs Klaus Dormann's functional test: the image is loaded flat, the processor
  is reset and put at \<open>$0400\<close>, and stepped until an instruction leaves the program counter where
  it is or a limit is reached. The image is a file the build downloads, so it is an argument; what is proved is
  what a verdict of the harness means for the program in the image.
\<close>

section \<open>The harness\<close>

definition FUNCTIONAL_TEST_START :: uint16 where
  "FUNCTIONAL_TEST_START = 0x0400"

definition FUNCTIONAL_TEST_SUCCESS :: uint16 where
  "FUNCTIONAL_TEST_SUCCESS = 0x3469"

definition EXPECTED_INSTRUCTIONS :: int where
  "EXPECTED_INSTRUCTIONS = 30646177"

definition EXPECTED_CYCLES :: uint64 where
  "EXPECTED_CYCLES = 96241374"

definition INSTRUCTION_LIMIT :: int where
  "INSTRUCTION_LIMIT = 200000000"

text \<open>The loop, with the number of rounds that the limit leaves as its first argument.\<close>

fun functional_loop :: "nat \<Rightarrow> ('b, 'k) Env \<Rightarrow> ('b, 'k) Processor \<Rightarrow> int \<Rightarrow> ('b, 'k) Processor \<times> int" where
  "functional_loop 0 E cpu steps = (cpu, steps)"
| "functional_loop (Suc n) E cpu steps =
     (let pc = reg_pc (p_regs cpu);
          cpu = step E cpu;
          steps = steps + 1
      in if reg_pc (p_regs cpu) = pc then (cpu, steps) else functional_loop n E cpu steps)"

datatype verdict = No_trap | Wrong_trap uint16 | Trapped bool bool

definition functional_test_suite :: "uint8 list \<Rightarrow> verdict option" where
  "functional_test_suite img =
     (case Memory_write_bulk (Some img) 0x10000 0 (Memory_new 256) of
        None \<Rightarrow> None
      | Some mem \<Rightarrow>
          let bus = Bus_connect (Some mem) Bus_new;
              cpu = Processor_new bus Registers_zero default_clock_new
          in case Emulator_start (run base_system) base_system False cpu of
               None \<Rightarrow> None
             | Some cpu \<Rightarrow>
                 let cpu = cpu\<lparr>p_regs := (p_regs cpu)\<lparr>reg_pc := FUNCTIONAL_TEST_START\<rparr>\<rparr>;
                     (cpu, steps) = functional_loop (nat INSTRUCTION_LIMIT) base_system cpu 0
                 in if \<not> steps < INSTRUCTION_LIMIT then Some No_trap
                    else if reg_pc (p_regs cpu) \<noteq> FUNCTIONAL_TEST_SUCCESS
                      then Some (Wrong_trap (reg_pc (p_regs cpu)))
                    else Some (Trapped (steps = EXPECTED_INSTRUCTIONS)
                      (default_cycles (p_clock cpu) = EXPECTED_CYCLES)))"

section \<open>Where the loop stops\<close>

definition self_trap :: "('b, 'k) Env \<Rightarrow> ('b, 'k) Processor \<Rightarrow> nat \<Rightarrow> bool" where
  "self_trap E P k \<longleftrightarrow> reg_pc (p_regs ((step E ^^ Suc k) P)) = reg_pc (p_regs ((step E ^^ k) P))"

lemma self_trap_Suc: "self_trap E (step E P) k = self_trap E P (Suc k)"
  by (simp add: self_trap_def funpow_swap1 del: funpow.simps) (simp add: funpow_swap1)

lemma functional_loop_trap:
  assumes "self_trap E P k" and "\<And>j. j < k \<Longrightarrow> \<not> self_trap E P j" and "k < n"
  shows "functional_loop n E P steps = ((step E ^^ Suc k) P, steps + int (Suc k))"
  using assms
proof (induction n arbitrary: P k steps)
  case (Suc n)
  show ?case
  proof (cases k)
    case 0
    then show ?thesis using Suc.prems(1) by (simp add: self_trap_def)
  next
    case (Suc j)
    have "\<not> self_trap E P 0" using Suc.prems(2) [of 0] Suc by simp
    moreover have "functional_loop n E (step E P) (steps + 1)
        = ((step E ^^ Suc j) (step E P), steps + 1 + int (Suc j))"
    proof (rule Suc.IH)
      show "self_trap E (step E P) j" using Suc.prems(1) Suc by (simp add: self_trap_Suc)
      show "\<not> self_trap E (step E P) i" if "i < j" for i
        using Suc.prems(2) [of "Suc i"] that Suc by (simp add: self_trap_Suc)
      show "j < n" using Suc.prems(3) Suc by simp
    qed
    ultimately show ?thesis
      using Suc by (simp add: self_trap_def funpow_swap1 Let_def)
  qed
qed simp

lemma functional_loop_limit:
  assumes "\<And>j. j < n \<Longrightarrow> \<not> self_trap E P j"
  shows "functional_loop n E P steps = ((step E ^^ n) P, steps + int n)"
  using assms
proof (induction n arbitrary: P steps)
  case (Suc n)
  have "\<not> self_trap E P 0" using Suc.prems by simp
  moreover have "functional_loop n E (step E P) (steps + 1) = ((step E ^^ n) (step E P), steps + 1 + int n)"
    using Suc.prems by (intro Suc.IH) (simp add: self_trap_Suc)
  ultimately show ?case by (simp add: self_trap_def funpow_swap1 Let_def)
qed simp

section \<open>What a verdict means\<close>

text \<open>The abstract machine after the reset, put at the start of the code.\<close>

definition test_machine :: "uint8 list \<Rightarrow> machine" where
  "test_machine img =
     (let s = reset_machine (\<lambda>ad. img ! unat ad)
      in s\<lparr>mc_cpu := (mc_cpu s)\<lparr>cPC := FUNCTIONAL_TEST_START\<rparr>\<rparr>)"

definition stuck_at :: "machine \<Rightarrow> nat \<Rightarrow> bool" where
  "stuck_at s k \<longleftrightarrow> cPC (mc_cpu (machine_at (Suc k) s)) = cPC (mc_cpu (machine_at k s))"

definition machine_verdict :: "machine \<Rightarrow> verdict" where
  "machine_verdict s =
     (if \<exists>k. int (Suc k) < INSTRUCTION_LIMIT \<and> stuck_at s k then
        let k = (LEAST k. stuck_at s k);
            pc = cPC (mc_cpu (machine_at (Suc k) s))
        in if pc \<noteq> FUNCTIONAL_TEST_SUCCESS then Wrong_trap pc
           else Trapped (int (Suc k) = EXPECTED_INSTRUCTIONS)
             (7 + of_int (cycles_to (Suc k) s) = EXPECTED_CYCLES)
      else No_trap)"

lemma loop_verdict:
  fixes cpu :: "(Memory option, uint64) Processor"
  assumes "full_memory (p_bus cpu)" and "abs_machine memory_view cpu = s" and "p_clock cpu = 7"
  shows "(let (cpu, steps) = functional_loop (nat INSTRUCTION_LIMIT) base_system cpu 0
     in if \<not> steps < INSTRUCTION_LIMIT then Some No_trap
        else if reg_pc (p_regs cpu) \<noteq> FUNCTIONAL_TEST_SUCCESS then Some (Wrong_trap (reg_pc (p_regs cpu)))
        else Some (Trapped (steps = EXPECTED_INSTRUCTIONS) (default_cycles (p_clock cpu) = EXPECTED_CYCLES)))
   = Some (machine_verdict s)"
proof -
  let ?S = "\<lambda>k. (step base_system ^^ k) cpu" and ?n = "nat INSTRUCTION_LIMIT"
  have clock: "counting_clock (v_clock base_system)" "\<And>k. clk_cycles (v_clock base_system) k = k"
    by (simp_all add: base_system_def default.counting_clock_axioms)
      (simp add: default_clock_def default_cycles_def)
  have pc: "reg_pc (p_regs (?S k)) = cPC (mc_cpu (machine_at k s))" for k
    using base_run.steps_state(1) [OF assms(1), of k] abs_machine_pc [of "?S k" memory_view] assms(2)
    by simp
  have cyc: "p_clock (?S k) = 7 + of_int (cycles_to k s)" for k
    using base_run.steps_state(5) [OF assms(1) clock(1), of k] assms(2,3) by (simp add: clock(2))
  have stuck: "self_trap base_system cpu k = stuck_at s k" for k
    unfolding self_trap_def stuck_at_def pc ..
  have n: "0 < INSTRUCTION_LIMIT" "int ?n = INSTRUCTION_LIMIT" by (simp_all add: INSTRUCTION_LIMIT_def)
  show ?thesis
  proof (cases "\<exists>k < ?n. stuck_at s k")
    case True
    then obtain j where j: "j < ?n" "stuck_at s j" by blast
    define k where "k = (LEAST k. stuck_at s k)"
    have k: "stuck_at s k" "\<And>j. j < k \<Longrightarrow> \<not> stuck_at s j" "k \<le> j"
      unfolding k_def using j(2) by (auto intro: LeastI Least_le dest: not_less_Least)
    have loop: "functional_loop ?n base_system cpu 0 = (?S (Suc k), int (Suc k))"
      using functional_loop_trap [of base_system cpu k ?n 0] k j(1) by (simp add: stuck del: funpow.simps)
    have least: "(\<exists>k. int (Suc k) < INSTRUCTION_LIMIT \<and> stuck_at s k) \<longleftrightarrow> int (Suc k) < INSTRUCTION_LIMIT"
      using k(1,2) by (metis linorder_not_less of_nat_less_iff Suc_less_eq order_le_less_trans of_nat_le_iff Suc_le_mono)
    show ?thesis
      unfolding loop machine_verdict_def least k_def [symmetric]
      by (simp add: pc cyc default_cycles_def Let_def del: funpow.simps)
  next
    case False
    then have "functional_loop ?n base_system cpu 0 = (?S ?n, INSTRUCTION_LIMIT)"
      using functional_loop_limit [of ?n base_system cpu 0] n by (simp add: stuck del: funpow.simps)
    moreover have "\<not> (\<exists>k. int (Suc k) < INSTRUCTION_LIMIT \<and> stuck_at s k)"
      using False n by (metis less_trans lessI nat_int zless_nat_conj)
    ultimately show ?thesis
      unfolding machine_verdict_def by (auto simp del: not_less)
  qed
qed

lemma functional_suite_eq:
  assumes "length img = 0x10000"
  shows "functional_test_suite img = Some (machine_verdict (test_machine img))"
proof (rule load_bytes [OF new_memory_full, of 0 "0x10000" img])
  show "unat (0 :: uint16) + 0x10000 \<le> 65536" "0x10000 \<le> length img" using assms by simp_all
  fix M
  assume M: "Memory_write_bulk (Some img) (int 0x10000) 0 (Memory_new 256) = Some M"
    "full_memory (Some M)"
    "\<And>ad. memory_view (Some M) ad = (if unat (0 :: uint16) \<le> unat ad \<and>
      unat ad < unat (0 :: uint16) + 0x10000 then img ! (unat ad - unat (0 :: uint16))
      else memory_view (Some (Memory_new 256)) ad)"
  have view: "memory_view (Some M) = (\<lambda>ad. img ! unat ad)"
  proof
    show "memory_view (Some M) ad = img ! unat ad" for ad
      using M(3) [of ad] unat16_less [of ad] by simp
  qed
  let ?cpu = "Processor_new (Some M) Registers_zero default_clock_new :: (Memory option, uint64) Processor"
  have bus: "v_bus base_system = default_Bus" "counting_clock (v_clock base_system)"
    "full_memory (p_bus ?cpu)"
    using M(2) by (simp_all add: base_system_def default.counting_clock_axioms Processor_new_def)
  obtain Q where Q: "Emulator_start (run base_system) base_system False ?cpu = Some Q"
    "abs_machine memory_view Q = reset_machine (memory_view (p_bus ?cpu))" "full_memory (p_bus Q)"
    "clk_cycles (v_clock base_system) (p_clock Q) = 7"
    by (rule flat.start_refines [OF bus(1,3,2), of "run base_system"])
  let ?Q = "Q\<lparr>p_regs := (p_regs Q)\<lparr>reg_pc := FUNCTIONAL_TEST_START\<rparr>\<rparr>"
  have "abs_machine memory_view ?Q = test_machine img"
    using Q(2) view
    by (auto simp: test_machine_def abs_machine_def reset_machine_def Processor_new_def Let_def
        split: if_splits)
  moreover have "p_clock ?Q = 7"
    using Q(4) by (simp add: base_system_def default_clock_def default_cycles_def)
  ultimately show ?thesis
    using loop_verdict [of ?Q "test_machine img"] Q(1,3) M(1)
    by (simp add: functional_test_suite_def Bus_connect_def Let_def)
qed

text \<open>
  C30: A verdict of the functional test harness is a statement about the program in the image: it says
  whether the abstract machine, started at \<open>$0400\<close> on that image after a reset, comes within the limit to an
  instruction that does not move the program counter, at which address it does so first, and whether that takes
  exactly the expected number of instructions and, with the 7 cycles of the reset, of cycles. The harness
  always ends.
\<close>

theorem functional_test_verdict:
  assumes "length img = 0x10000"
  shows "functional_test_suite img = Some (machine_verdict (test_machine img))"
  using assms by (rule functional_suite_eq)

text \<open>An image whose first instruction jumps to itself.\<close>

definition jump_image :: "uint8 list" where
  "jump_image = (replicate 0x10000 0)[0x400 := 0x4C, 0x402 := 0x04]"

lemma functional_test_verdict_witness:
  "functional_test_suite jump_image = Some (Wrong_trap 0x0400)"
proof -
  let ?s = "test_machine jump_image"
  have len: "length jump_image = 0x10000" by (simp add: jump_image_def)
  have "jump_image ! 0x400 = 0x4C" "jump_image ! 0x401 = 0" "jump_image ! 0x402 = 4"
    by (simp_all add: jump_image_def nth_list_update)
  moreover have "instr_of 0x4C = Inst JMP_Impl AbsConst 3"
    by (simp add: instr_of_def instruction_table_def row_defs)
  ultimately have pc: "cPC (mc_cpu (machine_at 0 ?s)) = 0x0400" "cPC (mc_cpu (machine_at (Suc 0) ?s)) = 0x0400"
    by (simp_all add: machine_at_Suc machine_step_def take_instruction_def test_machine_def reset_machine_def
        FUNCTIONAL_TEST_START_def isa_step_def implied_def word_at_def le16_def Let_def)
  then have "stuck_at ?s 0" by (simp add: stuck_at_def)
  moreover from this have "(LEAST k. stuck_at ?s k) = 0" by (rule Least_eq_0)
  moreover have "\<exists>k. int (Suc k) < INSTRUCTION_LIMIT \<and> stuck_at ?s k"
    using \<open>stuck_at ?s 0\<close> by (intro exI [of _ 0]) (simp add: INSTRUCTION_LIMIT_def)
  ultimately have "machine_verdict ?s = Wrong_trap 0x0400"
    using pc(2) by (simp only: machine_verdict_def if_True Let_def) (simp add: FUNCTIONAL_TEST_SUCCESS_def)
  then show ?thesis using functional_test_verdict [OF len] by simp
qed

section \<open>The file of the image\<close>

text \<open>The bytes of the file, or nothing when it cannot be opened; a short file leaves the rest of the image zero.\<close>

definition loadImage :: "uint8 list option \<Rightarrow> bool \<times> uint8 list" where
  "loadImage is =
     (case is of
        None \<Rightarrow> (False, [])
      | Some bytes \<Rightarrow>
          let out = replicate 0x10000 0;
              got = take 0x10000 bytes;
              out = got @ drop (length got) out
          in (length got > 0, out))"

text \<open>The test case with its file: \<open>Inl\<close> is the message of a test that is skipped.\<close>

definition functional_test_case :: "uint8 list option \<Rightarrow> string + verdict option" where
  "functional_test_case is =
     (case loadImage is of (found, img) \<Rightarrow>
        if \<not> found then Inl ''6502_functional_test.bin not found -- skipping''
        else Inr (functional_test_suite img))"

text \<open>Whatever the file holds, the test case is skipped, when there is nothing to read, or ends with the verdict of its image.\<close>

lemma functional_test_case_verdict:
  "functional_test_case is =
     (if is = None \<or> is = Some [] then Inl ''6502_functional_test.bin not found -- skipping''
      else Inr (Some (machine_verdict (test_machine (snd (loadImage is))))))"
proof (cases "is")
  case (Some bytes)
  then have "length (snd (loadImage is)) = 0x10000"
    by (simp add: loadImage_def Let_def)
  from functional_suite_eq [OF this] Some show ?thesis
    by (auto simp: functional_test_case_def loadImage_def Let_def)
qed (simp add: functional_test_case_def loadImage_def)

end
