(* ===== verification/Pacing.thy ===== *)
theory Pacing
  imports Emu_Clock "HOL-Library.While_Combinator"
begin

text \<open>
  The pacing side of \<^verbatim>\<open>src/emuclock.cpp\<close>: \<open>chrono_clock\<close>, the platform timers behind \<open>precision_clock\<close>, and what both
  clocks promise about time. The host's time is an argument: a call of \<open>waitCycles\<close> comes with the time at
  which it is made, and what it asks the host to sleep is kept in the state. The locale \<open>pacer\<close>
  is the contract of both clocks, stated on integers; \<open>precision_clock\<close> computes on 64-bit words and meets it below
  \<open>2^63\<close> nanoseconds (292 years), which is where the clock of C++ ends too.
\<close>

section \<open>The chrono clock\<close>

text \<open>
  A \<open>time_point\<close> of the steady clock counts nanoseconds. The budget of an instruction is a conversion of a
  floating-point product, as in \<open>precision_clock\<close>, and is the parameter \<open>budget\<close>.
\<close>

record chrono_state =
  cc_cycles :: uint64
  cc_deadline :: int
  cc_slept :: "int list"

definition chrono_new :: chrono_state where
  "chrono_new = \<lparr>cc_cycles = default_clock_new, cc_deadline = 0, cc_slept = []\<rparr>"

definition chrono_beginCycle :: "int \<Rightarrow> chrono_state \<Rightarrow> chrono_state" where
  "chrono_beginCycle now s = s\<lparr>cc_deadline := now\<rparr>"

definition chrono_waitCycles :: "(int \<Rightarrow> int) \<Rightarrow> int \<Rightarrow> int \<Rightarrow> chrono_state \<Rightarrow> chrono_state" where
  "chrono_waitCycles budget now cycles s =
     (let s = s\<lparr>cc_cycles := default_waitCycles cycles (cc_cycles s)\<rparr>;
          s = s\<lparr>cc_deadline := cc_deadline s + budget cycles\<rparr>
      in if cc_deadline s > now then s\<lparr>cc_slept := cc_slept s @ [cc_deadline s - now]\<rparr>
         else if now - cc_deadline s > RESYNC_NS then s\<lparr>cc_deadline := now\<rparr>
         else s)"

definition chrono_clock :: "(int \<Rightarrow> int) \<Rightarrow> int \<Rightarrow> chrono_state Clock" where
  "chrono_clock budget now = \<lparr>clk_beginCycle = chrono_beginCycle now,
     clk_waitCycles = chrono_waitCycles budget now,
     clk_reset = (\<lambda>s. s\<lparr>cc_cycles := default_reset (cc_cycles s)\<rparr>),
     clk_cycles = (\<lambda>s. default_cycles (cc_cycles s))\<rparr>"

interpretation chrono: counting_clock "chrono_clock budget now" for budget now
  by unfold_locales
    (simp_all add: chrono_clock_def chrono_beginCycle_def chrono_waitCycles_def
      default_cycles_def default_waitCycles_def default_reset_def Let_def)

section \<open>The platform timers\<close>

record timespec =
  tv_sec :: int
  tv_nsec :: int

definition nanoTime_linux :: "timespec \<Rightarrow> uint64" where
  "nanoTime_linux ts = word_of_int (tv_sec ts) * 1000000000 + word_of_int (tv_nsec ts)"

definition nanosleep_linux :: "uint64 \<Rightarrow> timespec" where
  "nanosleep_linux ns = \<lparr>tv_sec = sint (ns div 1000000000), tv_nsec = sint (ns mod 1000000000)\<rparr>"

text \<open>On Windows: the counter \<open>now\<close>, rebased and converted from ticks of the frequency \<open>freq\<close>.\<close>

definition nanoTime_windows :: "uint64 \<Rightarrow> uint64 \<Rightarrow> uint64 \<Rightarrow> uint64" where
  "nanoTime_windows freq base now =
     (let ticks = now - base
      in (ticks div freq) * 1000000000 + ((ticks mod freq) * 1000000000) div freq)"

definition SPIN_THRESHOLD :: uint64 where
  "SPIN_THRESHOLD = 1000000"

text \<open>
  The \<open>k\<close>-th call of \<open>nanoTime\<close> returns \<open>time k\<close>. The result is what is slept and the number of calls made,
  \<open>None\<close> when the loop never ends.
\<close>

definition nanosleep_windows :: "(nat \<Rightarrow> uint64) \<Rightarrow> uint64 \<Rightarrow> (uint64 list \<times> nat) option" where
  "nanosleep_windows time ns =
     (let deadline = time 0 + ns;
          slept = (if ns > SPIN_THRESHOLD then [ns - SPIN_THRESHOLD] else [])
      in map_option (\<lambda>k. (slept, Suc k)) (while_option (\<lambda>k. time k < deadline) Suc 1))"

section \<open>The contract of a pacing clock\<close>

definition pace :: "int \<Rightarrow> int \<Rightarrow> int \<Rightarrow> int \<times> int list" where
  "pace now b deadline =
     (let d = deadline + b
      in if now < d then (d, [d - now]) else if RESYNC_NS < now - d then (now, []) else (d, []))"

text \<open>A sequence of calls, each with its time and its cycles, and the time they have a right to.\<close>

definition waits :: "(int \<Rightarrow> int \<Rightarrow> 's \<Rightarrow> 's) \<Rightarrow> (int \<times> int) list \<Rightarrow> 's \<Rightarrow> 's" where
  "waits wait calls s = foldl (\<lambda>s (now, n). wait now n s) s calls"

definition due :: "(int \<Rightarrow> int) \<Rightarrow> (int \<times> int) list \<Rightarrow> int" where
  "due b calls = sum_list (map (\<lambda>(now, n). b n) calls)"

text \<open>
  Calls that a host can make: each comes no earlier than the return of the one before it, which is its own time and what
  it asked to sleep.
\<close>

fun timely :: "(int \<Rightarrow> int \<Rightarrow> 's \<Rightarrow> 's) \<Rightarrow> ('s \<Rightarrow> int list) \<Rightarrow> int \<Rightarrow> (int \<times> int) list \<Rightarrow> 's \<Rightarrow> bool" where
  "timely wait slept t [] s \<longleftrightarrow> True"
| "timely wait slept t ((now, n) # calls) s \<longleftrightarrow> t \<le> now \<and>
     (let s' = wait now n s
      in timely wait slept (now + sum_list (slept s') - sum_list (slept s)) calls s')"

text \<open>Calls that are never more than the window behind the schedule, and the sleeps of the schedule.\<close>

fun on_schedule :: "(int \<Rightarrow> int) \<Rightarrow> int \<Rightarrow> (int \<times> int) list \<Rightarrow> bool" where
  "on_schedule b t [] \<longleftrightarrow> True"
| "on_schedule b t ((now, n) # calls) \<longleftrightarrow> now \<le> t + b n + RESYNC_NS \<and> on_schedule b (t + b n) calls"

fun scheduled_sleeps :: "(int \<Rightarrow> int) \<Rightarrow> int \<Rightarrow> (int \<times> int) list \<Rightarrow> int list" where
  "scheduled_sleeps b t [] = []"
| "scheduled_sleeps b t ((now, n) # calls) =
     (if now < t + b n then [t + b n - now] else []) @ scheduled_sleeps b (t + b n) calls"

lemma waits_simps [simp]:
  "waits wait [] s = s" "waits wait ((now, n) # calls) s = waits wait calls (wait now n s)"
  by (simp_all add: waits_def)

lemma due_simps [simp]: "due b [] = 0" "due b ((now, n) # calls) = b n + due b calls"
  by (simp_all add: due_def)

locale pacer =
  fixes wait :: "int \<Rightarrow> int \<Rightarrow> 's \<Rightarrow> 's" and deadline :: "'s \<Rightarrow> int" and slept :: "'s \<Rightarrow> int list"
    and budget :: "int \<Rightarrow> int"
  assumes budget_nonneg: "0 \<le> budget n"
    and wait_paces: "0 \<le> now \<Longrightarrow> now < 2 ^ 63 \<Longrightarrow> 0 \<le> deadline s \<Longrightarrow> deadline s + budget n < 2 ^ 63 \<Longrightarrow>
      deadline (wait now n s) = fst (pace now (budget n) (deadline s)) \<and>
      slept (wait now n s) = slept s @ snd (pace now (budget n) (deadline s))"
begin

lemma due_nonneg: "0 \<le> due budget calls"
  by (induction calls) (auto simp: budget_nonneg add_nonneg_nonneg)

text \<open>A clock on schedule keeps the deadlines of the schedule.\<close>

lemma schedule_kept:
  assumes "on_schedule budget (deadline s) calls" and "0 \<le> deadline s"
    and "deadline s + due budget calls < 2 ^ 63"
    and "\<forall>(now, n) \<in> set calls. 0 \<le> now \<and> now < 2 ^ 63"
  shows "deadline (waits wait calls s) = deadline s + due budget calls \<and>
    slept (waits wait calls s) = slept s @ scheduled_sleeps budget (deadline s) calls"
  using assms
proof (induction calls arbitrary: s)
  case (Cons c calls)
  obtain now n where c: "c = (now, n)" by force
  have "deadline s + budget n < 2 ^ 63"
    using Cons.prems(3) due_nonneg [of calls] by (simp add: c)
  then have w: "deadline (wait now n s) = fst (pace now (budget n) (deadline s))"
    "slept (wait now n s) = slept s @ snd (pace now (budget n) (deadline s))"
    using wait_paces [of now s n] Cons.prems(2,4) by (simp_all add: c)
  have p: "pace now (budget n) (deadline s) = (deadline s + budget n,
      if now < deadline s + budget n then [deadline s + budget n - now] else [])"
    using Cons.prems(1) by (simp add: pace_def c Let_def)
  have "deadline (waits wait calls (wait now n s)) = deadline (wait now n s) + due budget calls \<and>
    slept (waits wait calls (wait now n s))
      = slept (wait now n s) @ scheduled_sleeps budget (deadline (wait now n s)) calls"
    using Cons.prems budget_nonneg [of n] by (intro Cons.IH) (simp_all add: w p c)
  then show ?case by (simp add: w p c)
qed simp

text \<open>A clock never lets the emulated processor get ahead of time.\<close>

lemma never_fast:
  assumes "timely wait slept t (calls @ [(now, n)]) s" and "0 \<le> deadline s" and "deadline s \<le> t"
    and "deadline s \<le> M" and "\<forall>(now, n) \<in> set calls. now \<le> M" and "M + due budget calls < 2 ^ 63"
  shows "deadline s + due budget calls \<le> now"
  using assms
proof (induction calls arbitrary: t s M)
  case (Cons c calls)
  obtain now' n' where c: "c = (now', n')" by force
  let ?s = "wait now' n' s" and ?p = "pace now' (budget n') (deadline s)"
  have now': "0 \<le> now'" "now' \<le> M" "t \<le> now'" using Cons.prems by (simp_all add: c)
  have M: "M + budget n' + due budget calls < 2 ^ 63" using Cons.prems(6) by (simp add: c)
  then have "now' < 2 ^ 63" "deadline s + budget n' < 2 ^ 63"
    using now' budget_nonneg [of n'] due_nonneg [of calls] Cons.prems(4) by linarith+
  then have w: "deadline ?s = fst ?p" "slept ?s = slept s @ snd ?p"
    using wait_paces [OF now'(1)] Cons.prems(2) by blast+
  have p: "deadline s + budget n' \<le> fst ?p" "fst ?p \<le> now' + sum_list (snd ?p)" "fst ?p \<le> M + budget n'"
    using now' Cons.prems(4) budget_nonneg [of n'] by (simp_all add: pace_def Let_def RESYNC_NS_def)
  have "deadline ?s + due budget calls \<le> now"
  proof (rule Cons.IH)
    show "timely wait slept (now' + sum_list (snd ?p)) (calls @ [(now, n)]) ?s"
      using Cons.prems(1) by (simp add: c w(2) Let_def)
    show "0 \<le> deadline ?s" using p(1) w(1) Cons.prems(2) budget_nonneg [of n'] by linarith
    show "deadline ?s \<le> now' + sum_list (snd ?p)" "deadline ?s \<le> M + budget n'" using p w(1) by simp_all
    show "\<forall>(now, n) \<in> set calls. now \<le> M + budget n'"
      using Cons.prems(5) budget_nonneg [of n'] by (fastforce simp: c)
    show "M + budget n' + due budget calls < 2 ^ 63" by (rule M)
  qed
  then show ?case using p(1) w(1) by (simp add: c)
qed simp

end

section \<open>Both clocks pace\<close>

interpretation chrono_pacer: pacer "chrono_waitCycles (\<lambda>n. int (b n))" cc_deadline cc_slept "\<lambda>n. int (b n)"
  for b :: "int \<Rightarrow> nat"
  by unfold_locales (simp_all add: chrono_waitCycles_def pace_def Let_def)

definition precision_wait :: "(int \<Rightarrow> uint64) \<Rightarrow> int \<Rightarrow> int \<Rightarrow> precision_state \<Rightarrow> precision_state" where
  "precision_wait budget now = precision_waitCycles budget (word_of_int now)"

lemma precision_wait_paces:
  fixes b :: "int \<Rightarrow> uint64"
  assumes "0 \<le> now" and "now < 2 ^ 63" and "uint (pc_deadline s) + uint (b n) < 2 ^ 63"
  shows "uint (pc_deadline (precision_wait b now n s)) = fst (pace now (uint (b n)) (uint (pc_deadline s)))"
    and "map uint (pc_slept (precision_wait b now n s))
      = map uint (pc_slept s) @ snd (pace now (uint (b n)) (uint (pc_deadline s)))"
proof -
  define d where "d = pc_deadline s + b n"
  define w where "w = (word_of_int now :: uint64)"
  have w: "uint w = now" using assms(1,2) by (simp add: w_def uint_word_of_int)
  have d: "uint d = uint (pc_deadline s) + uint (b n)"
    using assms(3) by (simp add: d_def uint_word_ariths)
  have less: "w < d \<longleftrightarrow> now < uint d" by (simp add: word_less_def w)
  have sleep: "uint (d - w) = uint d - now" if "w < d"
    using that w by (simp add: uint_minus_simple_alt [THEN iffD1] word_le_def word_less_def)
  have behind: "sint (w - d) = now - uint d" if "\<not> w < d"
    using sint_ahead [of d w] that w assms(2) by simp
  show "uint (pc_deadline (precision_wait b now n s)) = fst (pace now (uint (b n)) (uint (pc_deadline s)))"
    "map uint (pc_slept (precision_wait b now n s))
      = map uint (pc_slept s) @ snd (pace now (uint (b n)) (uint (pc_deadline s)))"
    using behind sleep
    by (simp_all add: precision_wait_def precision_waitCycles_def pace_def Let_def d [symmetric]
        d_def [symmetric] w_def [symmetric] less w)
qed

interpretation precision_pacer: pacer "precision_wait b" "\<lambda>s. uint (pc_deadline s)"
    "\<lambda>s. map uint (pc_slept s)" "\<lambda>n. uint (b n)" for b :: "int \<Rightarrow> uint64"
  by unfold_locales (simp_all add: precision_wait_paces)

lemma precision_begin:
  assumes "0 \<le> t" and "t < 2 ^ 63"
  shows "uint (pc_deadline (precision_beginCycle (word_of_int t) s)) = t"
  using assms by (simp add: precision_beginCycle_def uint_word_of_int)



text \<open>
  C33: The clocks keep an absolute schedule: as long as no call comes more than the resynchronisation window after
  its time, the deadline after any number of calls is the start plus the budgets, and each call asks for
  exactly the time left until its own deadline or, when it comes late, for nothing. No error accumulates: a late call
  shortens the next sleep by as much.
\<close>

theorem pacing_keeps_schedule:
  fixes cb :: "int \<Rightarrow> nat" and pb :: "int \<Rightarrow> uint64"
  assumes "0 \<le> t" and "\<forall>(now, n) \<in> set calls. 0 \<le> now \<and> now < 2 ^ 63"
    and "on_schedule (\<lambda>n. int (cb n)) t calls" and "t + due (\<lambda>n. int (cb n)) calls < 2 ^ 63"
    and "on_schedule (\<lambda>n. uint (pb n)) t calls" and "t + due (\<lambda>n. uint (pb n)) calls < 2 ^ 63"
  shows "(let s' = waits (chrono_waitCycles (\<lambda>n. int (cb n))) calls (chrono_beginCycle t s)
      in cc_deadline s' = t + due (\<lambda>n. int (cb n)) calls \<and>
        cc_slept s' = cc_slept s @ scheduled_sleeps (\<lambda>n. int (cb n)) t calls) \<and>
    (let r' = waits (precision_wait pb) calls (precision_beginCycle (word_of_int t) r)
      in uint (pc_deadline r') = t + due (\<lambda>n. uint (pb n)) calls \<and>
        map uint (pc_slept r') = map uint (pc_slept r) @ scheduled_sleeps (\<lambda>n. uint (pb n)) t calls)"
proof -
  have "t < 2 ^ 63"
    using assms(4) chrono_pacer.due_nonneg [of cb calls] by linarith
  note p = precision_begin [OF assms(1) this]
  have c: "cc_deadline (chrono_beginCycle t s) = t" "cc_slept (chrono_beginCycle t s) = cc_slept s"
    "pc_slept (precision_beginCycle (word_of_int t) r) = pc_slept r"
    by (simp_all add: chrono_beginCycle_def precision_beginCycle_def)
  show ?thesis
    using chrono_pacer.schedule_kept [of cb "chrono_beginCycle t s" calls]
      precision_pacer.schedule_kept [of pb "precision_beginCycle (word_of_int t) r" calls] assms
    by (simp add: p c Let_def)
qed

lemma pacing_keeps_schedule_witness:
  "cc_slept (waits (chrono_waitCycles (\<lambda>n. int (nat n * 1000))) [(10, 2), (4000, 3), (5006, 2)]
      (chrono_beginCycle 5 chrono_new)) = [1995, 1005, 1999]"
  using pacing_keeps_schedule [of 5 "[(10, 2), (4000, 3), (5006, 2)]" "\<lambda>n. nat n * 1000" "\<lambda>n. 0"
      chrono_new precision_new]
  by (simp add: RESYNC_NS_def chrono_new_def Let_def)

section \<open>The platform timers\<close>

lemma qpc_exact:
  fixes t f :: nat
  assumes "0 < f"
  shows "t div f * c + (t mod f * c) div f = t * c div f"
proof -
  have "t * c = f * (t div f * c) + t mod f * c"
    by (metis add_mult_distrib mult.assoc mult_div_mod_eq)
  then show ?thesis
    using assms by simp
qed

lemma nanoTime_windows_exact:
  assumes "0 < unat freq" and "unat freq \<le> 18446744073"
    and "unat (now - base) * 1000000000 div unat freq < 2 ^ 64"
  shows "unat (nanoTime_windows freq base now) = unat (now - base) * 1000000000 div unat freq"
proof -
  define t where "t = unat (now - base)"
  define f where "f = unat freq"
  have "t mod f < f" using assms(1) by (simp add: f_def)
  then have r: "t mod f * 1000000000 < 2 ^ 64" using assms(2) by (simp add: f_def)
  have sum: "t div f * 1000000000 + (t mod f * 1000000000) div f < 2 ^ 64"
    using assms(1,3) by (simp add: qpc_exact t_def f_def)
  have q: "t div f * 1000000000 < 2 ^ 64" using sum by linarith
  have "unat ((now - base) div freq * 1000000000) = t div f * 1000000000"
    using q by (simp add: unat_word_ariths unat_div t_def f_def)
  moreover have "unat (((now - base) mod freq * 1000000000) div freq) = (t mod f * 1000000000) div f"
  proof -
    have "unat ((now - base) mod freq * 1000000000) = t mod f * 1000000000"
      using r by (simp add: unat_word_ariths unat_mod t_def f_def)
    then show ?thesis by (simp add: unat_div f_def)
  qed
  ultimately have "unat (nanoTime_windows freq base now) = t div f * 1000000000 + (t mod f * 1000000000) div f"
    using sum by (simp add: nanoTime_windows_def Let_def unat_word_ariths)
  then show ?thesis
    using assms(1) by (simp add: qpc_exact t_def f_def)
qed

lemma nanosleep_linux_exact:
  "nanoTime_linux (nanosleep_linux ns) = ns"
  "0 \<le> tv_sec (nanosleep_linux ns)" "0 \<le> tv_nsec (nanosleep_linux ns)"
  "tv_nsec (nanosleep_linux ns) < 1000000000"
proof -
  have "uint ns div 1000000000 < 2 ^ 63" using uint_lt2p [of ns] by simp
  then have q: "sint (ns div 1000000000) = uint ns div 1000000000"
    by (simp add: sint_small uint_div)
  have r: "sint (ns mod 1000000000) = uint ns mod 1000000000"
    by (simp add: sint_small uint_mod order_less_trans [OF pos_mod_bound])
  show "nanoTime_linux (nanosleep_linux ns) = ns"
    by (simp add: nanoTime_linux_def nanosleep_linux_def div_mult_mod_eq)
  show "0 \<le> tv_sec (nanosleep_linux ns)" "0 \<le> tv_nsec (nanosleep_linux ns)"
    "tv_nsec (nanosleep_linux ns) < 1000000000"
    by (simp_all add: nanosleep_linux_def q r pos_imp_zdiv_nonneg_iff)
qed

lemma while_counter:
  "while_option P Suc i = (if \<exists>k. \<not> P (i + k) then Some (i + (LEAST k. \<not> P (i + k))) else None)"
proof -
  have "(Suc ^^ k) i = i + k" for k by (induction k) simp_all
  then show ?thesis unfolding while_option_def by (simp only:)
qed

text \<open>
  C40: The platform timers mean what their comments say. On Linux the split of a wait into seconds and
  nanoseconds is one that \<open>nanosleep\<close> accepts and stands for the same time. On Windows the split conversion from counter
  ticks is exact: the truncated quotient with no overflow in between, for any frequency up to 18 GHz, as long as the result fits;
  and a wait returns exactly when a reading of the timer reaches the deadline, at the first one that does.
\<close>

theorem platform_timers:
  assumes "0 < unat freq" and "unat freq \<le> 18446744073"
    and "unat (now - base) * 1000000000 div unat freq < 2 ^ 64"
  shows "(nanoTime_linux (nanosleep_linux ns) = ns \<and> 0 \<le> tv_sec (nanosleep_linux ns) \<and>
      0 \<le> tv_nsec (nanosleep_linux ns) \<and> tv_nsec (nanosleep_linux ns) < 1000000000) \<and>
    unat (nanoTime_windows freq base now) = unat (now - base) * 1000000000 div unat freq \<and>
    (if \<exists>k. time 0 + ns \<le> time (Suc k)
     then \<exists>slept. nanosleep_windows time ns = Some (slept, Suc (Suc (LEAST k. time 0 + ns \<le> time (Suc k))))
     else nanosleep_windows time ns = None)"
  using nanosleep_linux_exact [of ns] nanoTime_windows_exact [OF assms]
  by (simp add: nanosleep_windows_def while_counter Let_def not_less)

text \<open>One second and a third of a counter of 10 MHz.\<close>

lemma platform_timers_witness:
  "unat (nanoTime_windows 10000000 7 13333340) = 1333333300"
  using platform_timers [of 10000000 13333340 7 0 "\<lambda>_. 0"] by simp

end
