(* ===== verification/Test_Pacing.thy ===== *)
theory Test_Pacing
  imports Pacing
begin

text \<open>
  The test case \<open>pacing_clocks_track_wall_clock\<close> of \<^verbatim>\<open>test_src/testCpu.cpp\<close>, which paces 100000 cycles at 1 MHz against the
  clock of the host. The times that the host's clock shows are an argument: at the start of the measurement, at
  \<open>beginCycle\<close>, at each of the 20000 calls of \<open>waitCycles\<close>, and at the end. What is proved is on which hosts the test passes.
\<close>

section \<open>The test case\<close>

record host =
  ho_start :: int
  ho_begin :: int
  ho_calls :: "int list"
  ho_end :: int

definition wait_calls :: "host \<Rightarrow> (int \<times> int) list" where
  "wait_calls h = map (\<lambda>now. (now, 5)) (ho_calls h)"

text \<open>The lambda: whether the count is right, and the milliseconds, for a clock given by its member functions.\<close>

definition measure_ms ::
  "(int \<Rightarrow> 's \<Rightarrow> 's) \<Rightarrow> (int \<Rightarrow> int \<Rightarrow> 's \<Rightarrow> 's) \<Rightarrow> ('s \<Rightarrow> 's) \<Rightarrow> ('s \<Rightarrow> uint64) \<Rightarrow> host \<Rightarrow> 's \<Rightarrow> bool \<times> int" where
  "measure_ms beginCycle wait reset cycles h clk =
     (let clk = reset clk;
          clk = beginCycle (ho_begin h) clk;
          clk = waits wait (wait_calls h) clk;
          ms = (ho_end h - ho_start h) div 1000000
      in (cycles clk = 100000, ms))"

definition in_bounds :: "bool \<times> int \<Rightarrow> bool" where
  "in_bounds r \<longleftrightarrow> fst r \<and> 60 \<le> snd r \<and> snd r \<le> 500"

definition chrono_subcase :: "(int \<Rightarrow> int) \<Rightarrow> host \<Rightarrow> bool \<times> int" where
  "chrono_subcase budget h = measure_ms chrono_beginCycle (chrono_waitCycles budget)
     (\<lambda>s. s\<lparr>cc_cycles := default_reset (cc_cycles s)\<rparr>) (\<lambda>s. default_cycles (cc_cycles s)) h chrono_new"

definition precision_subcase :: "(int \<Rightarrow> uint64) \<Rightarrow> host \<Rightarrow> bool \<times> int" where
  "precision_subcase budget h = measure_ms (\<lambda>now. precision_beginCycle (word_of_int now)) (precision_wait budget)
     (\<lambda>s. s\<lparr>pc_cycles := default_reset (pc_cycles s)\<rparr>) (\<lambda>s. default_cycles (pc_cycles s)) h precision_new"

definition pacing_clocks_track_wall_clock :: "(int \<Rightarrow> int) \<Rightarrow> host \<Rightarrow> (int \<Rightarrow> uint64) \<Rightarrow> host \<Rightarrow> bool" where
  "pacing_clocks_track_wall_clock cb h pb h' \<longleftrightarrow> in_bounds (chrono_subcase cb h) \<and> in_bounds (precision_subcase pb h')"

section \<open>The hosts on which it passes\<close>

text \<open>
  A host whose clock does not go back, whose sleeps last at least as long as asked, and which is never more than 50 ms
  behind the schedule.
\<close>

definition host_for :: "(int \<Rightarrow> int \<Rightarrow> 's \<Rightarrow> 's) \<Rightarrow> ('s \<Rightarrow> int list) \<Rightarrow> (int \<Rightarrow> int) \<Rightarrow> host \<Rightarrow> 's \<Rightarrow> bool" where
  "host_for wait slept b h s \<longleftrightarrow> length (ho_calls h) = 20000 \<and>
     0 \<le> ho_start h \<and> ho_start h \<le> ho_begin h \<and> ho_begin h \<le> ho_start h + RESYNC_NS \<and>
     (\<forall>now \<in> set (ho_calls h). now \<le> ho_end h) \<and> ho_end h < 2 ^ 62 \<and>
     timely wait slept (ho_begin h) (wait_calls h @ [(ho_end h, 5)]) s \<and>
     on_schedule b (ho_begin h) (wait_calls h @ [(ho_end h, 5)])"

lemma due_calls: "due b (wait_calls h) = int (length (ho_calls h)) * b 5"
  by (simp add: due_def wait_calls_def o_def sum_list_triv)

lemma on_schedule_last: "on_schedule b t (calls @ [(now, n)]) \<Longrightarrow> now \<le> t + due b calls + b n + RESYNC_NS"
  by (induction b t calls rule: on_schedule.induct) auto

lemma calls_charged:
  "cc_cycles (waits (chrono_waitCycles cb) calls s) = cc_cycles s + of_int (sum_list (map snd calls))"
  "pc_cycles (waits (precision_wait pb) calls r) = pc_cycles r + of_int (sum_list (map snd calls))"
proof -
  have "cc_cycles (chrono_waitCycles cb now n s) = cc_cycles s + of_int n" for now n and s :: chrono_state
    by (simp add: chrono_waitCycles_def default_waitCycles_def Let_def)
  then show "cc_cycles (waits (chrono_waitCycles cb) calls s) = cc_cycles s + of_int (sum_list (map snd calls))"
    by (induction calls arbitrary: s) (auto simp: add.assoc)
  have "pc_cycles (precision_wait pb now n r) = pc_cycles r + of_int n" for now n and r :: precision_state
    by (simp add: precision_wait_def precision_waitCycles_def default_waitCycles_def Let_def)
  then show "pc_cycles (waits (precision_wait pb) calls r) = pc_cycles r + of_int (sum_list (map snd calls))"
    by (induction calls arbitrary: r) (auto simp: add.assoc)
qed

lemma calls_sum: "sum_list (map snd (wait_calls h)) = 5 * int (length (ho_calls h))"
  by (simp add: wait_calls_def o_def sum_list_triv)

lemma ms_bounds:
  assumes "4999 \<le> b" and "b \<le> 5001" and "t0 \<le> t" and "t \<le> t0 + RESYNC_NS"
    and "t + 20000 * b \<le> t1" and "t1 \<le> t + 20000 * b + b + RESYNC_NS"
  shows "60 \<le> (t1 - t0) div 1000000 \<and> (t1 - t0) div 1000000 \<le> (500 :: int)"
  using assms by (simp add: RESYNC_NS_def) linarith

lemma calls_before: "(\<forall>(now, n) \<in> set (wait_calls h). P now) \<longleftrightarrow> (\<forall>now \<in> set (ho_calls h). P now)"
  by (auto simp: wait_calls_def)

lemma host_for_ends: "host_for wait slept b h s \<Longrightarrow> ho_begin h \<le> ho_end h"
  by (cases "ho_calls h") (auto simp: host_for_def wait_calls_def)

lemma host_for_last:
  "host_for wait slept b h s \<Longrightarrow> ho_end h \<le> ho_begin h + 20000 * b 5 + b 5 + RESYNC_NS"
  using on_schedule_last [of b "ho_begin h" "wait_calls h" "ho_end h" 5] by (simp add: host_for_def due_calls)

text \<open>The test passes on every such host, with the budget of 5 cycles that the rounding of \<open>5 * 1e-6 * 1e9\<close> may give.\<close>

theorem pacing_test_passes:
  fixes cb :: "int \<Rightarrow> nat" and pb :: "int \<Rightarrow> uint64"
  assumes "cb 5 \<in> {4999..5001}" and "uint (pb 5) \<in> {4999..5001}"
    and c: "host_for (chrono_waitCycles (\<lambda>n. int (cb n))) cc_slept (\<lambda>n. int (cb n)) h
      (chrono_beginCycle (ho_begin h) chrono_new)"
    and p: "host_for (precision_wait pb) (\<lambda>s. map uint (pc_slept s)) (\<lambda>n. uint (pb n)) h'
      (precision_beginCycle (word_of_int (ho_begin h')) precision_new)"
  shows "pacing_clocks_track_wall_clock (\<lambda>n. int (cb n)) h pb h'"
proof -
  note [simp] = chrono_beginCycle_def precision_beginCycle_def chrono_new_def precision_new_def default_clock_new_def
  let ?c = "chrono_beginCycle (ho_begin h) chrono_new"
  let ?p = "precision_beginCycle (word_of_int (ho_begin h')) precision_new"
  note ends = host_for_ends [OF c] host_for_ends [OF p]
  have "0 \<le> ho_begin h'" "ho_begin h' < 2 ^ 63" using p ends by (simp_all add: host_for_def)
  note start = precision_begin [OF this]
  have cl: "ho_begin h + 20000 * int (cb 5) \<le> ho_end h"
    using chrono_pacer.never_fast [of cb "ho_begin h" "wait_calls h" "ho_end h" 5 ?c "ho_end h"] c assms(1) ends
    by (auto simp: host_for_def due_calls calls_before)
  have pl: "ho_begin h' + 20000 * uint (pb 5) \<le> ho_end h'"
    using precision_pacer.never_fast [of pb "ho_begin h'" "wait_calls h'" "ho_end h'" 5 ?p "ho_end h'"] p assms(2) ends start
    by (auto simp: host_for_def due_calls calls_before)
  have "60 \<le> (ho_end h - ho_start h) div 1000000 \<and> (ho_end h - ho_start h) div 1000000 \<le> 500"
    using ms_bounds [OF _ _ _ _ cl host_for_last [OF c]] assms(1) c by (simp add: host_for_def)
  moreover have "60 \<le> (ho_end h' - ho_start h') div 1000000 \<and> (ho_end h' - ho_start h') div 1000000 \<le> 500"
    using ms_bounds [OF _ _ _ _ pl host_for_last [OF p]] assms(2) p by (simp add: host_for_def)
  ultimately show ?thesis
    using c p by (simp add: pacing_clocks_track_wall_clock_def in_bounds_def chrono_subcase_def precision_subcase_def
        measure_ms_def calls_charged calls_sum host_for_def default_cycles_def default_reset_def Let_def)
qed

section \<open>An ideal host\<close>

text \<open>Sleeps that last as long as asked, and no time for anything else: the test passes.\<close>

primrec ideal_calls :: "nat \<Rightarrow> int \<Rightarrow> int list" where
  "ideal_calls 0 t = []"
| "ideal_calls (Suc n) t = t # ideal_calls n (t + 5000)"

definition ideal_host :: host where
  "ideal_host = \<lparr>ho_start = 0, ho_begin = 0, ho_calls = ideal_calls 20000 0, ho_end = 100000000\<rparr>"

lemma ideal_calls_bounds: "length (ideal_calls n t) = n" "\<forall>now \<in> set (ideal_calls n t). now \<le> t + 5000 * int n"
  by (induction n arbitrary: t) fastforce+

context pacer
begin

lemma ideal_timely:
  assumes "budget 5 = 5000" and "deadline s = t" and "0 \<le> t" and "t + 5000 * int n + 5000 < 2 ^ 63"
  shows "timely wait slept t (map (\<lambda>now. (now, 5)) (ideal_calls n t) @ [(t + 5000 * int n, 5)]) s \<and>
    on_schedule budget t (map (\<lambda>now. (now, 5)) (ideal_calls n t) @ [(t + 5000 * int n, 5)])"
  using assms(2-)
proof (induction n arbitrary: s t)
  case 0
  then show ?case using assms(1) by (simp add: RESYNC_NS_def)
next
  case (Suc n)
  have w: "deadline (wait t 5 s) = t + 5000" "slept (wait t 5 s) = slept s @ [5000]"
    using wait_paces [of t s 5] Suc.prems assms(1) by (simp_all add: pace_def)
  have "t + 5000 * int (Suc n) = (t + 5000) + 5000 * int n" by simp
  then show ?case
    using Suc.IH [OF w(1)] Suc.prems w(2) assms(1) by (simp add: RESYNC_NS_def Let_def add.assoc)
qed

end

lemma pacing_test_passes_witness:
  "pacing_clocks_track_wall_clock (\<lambda>n. int (nat n * 1000)) ideal_host (\<lambda>n. word_of_int n * 1000) ideal_host"
proof (rule pacing_test_passes)
  have bounds: "length (ho_calls ideal_host) = 20000" "\<forall>now \<in> set (ho_calls ideal_host). now \<le> ho_end ideal_host"
    using ideal_calls_bounds [of 20000 0] by (simp_all add: ideal_host_def)
  show "host_for (chrono_waitCycles (\<lambda>n. int (nat n * 1000))) cc_slept (\<lambda>n. int (nat n * 1000)) ideal_host
      (chrono_beginCycle (ho_begin ideal_host) chrono_new)"
    using chrono_pacer.ideal_timely [of "\<lambda>n. nat n * 1000" "chrono_beginCycle 0 chrono_new" 0 20000] bounds
    by (simp add: host_for_def wait_calls_def RESYNC_NS_def chrono_beginCycle_def) (simp add: ideal_host_def)
  show "host_for (precision_wait (\<lambda>n. word_of_int n * 1000)) (\<lambda>s. map uint (pc_slept s))
      (\<lambda>n. uint (word_of_int n * 1000 :: uint64)) ideal_host
      (precision_beginCycle (word_of_int (ho_begin ideal_host)) precision_new)"
    using precision_pacer.ideal_timely [of "\<lambda>n. word_of_int n * 1000" "precision_beginCycle 0 precision_new" 0 20000] bounds
    by (simp add: host_for_def wait_calls_def RESYNC_NS_def precision_beginCycle_def) (simp add: ideal_host_def)
qed simp_all

end
