(* ===== verification/Threads.thy ===== *)
theory Threads
  imports Run_Loops
begin

text \<open>
  \<^verbatim>\<open>Processor::run\<close> on a thread of its own, with other threads that call \<open>pause\<close>, \<open>nmi\<close>, \<open>irq\<close> and \<open>stop\<close> of
  \<^verbatim>\<open>src/Processor.cpp\<close> and \<^verbatim>\<open>src/I6502Emulator.cpp\<close> meanwhile. The four flags they share are \<open>std::atomic\<close>, so a run is
  a sequence of atomic actions: each load, store and exchange of a flag is one, and all that a step does to registers, bus and
  clock, which no other thread touches, is one. The actions of the other threads come in between in any order. The
  theorems say what this granularity adds to the model of \<open>Processor_Step\<close>: without other threads nothing, a call during a
  step is a call before or after it, a pause in the loop ends it after at most one more instruction, and a pause
  before the loop is lost, so that \<open>stop\<close> may wait for ever.
\<close>

section \<open>The atomic actions of a run\<close>

datatype taken = Take_nmi | Take_irq | Take_instruction

text \<open>Where the run thread is: the action it does next. A value read earlier is carried along.\<close>

datatype loc = Enter | Clear | Begin | Test_running | Test_stopping | Poll | Exchange_nmi bool | Load_irq bool
  | Body taken | Callback | Leave | Leave_clear | Out

type_synonym ('b, 'k) conf = "loc \<times> ('b, 'k) Processor"

text \<open>The calls of other threads. \<open>Execute\<close> is the action that executes an instruction or takes an interrupt.\<close>

datatype call = Pause | Nmi | Irq bool

datatype event = Thread | Execute | Host call

primrec apply_call :: "call \<Rightarrow> ('b, 'k) Processor \<Rightarrow> ('b, 'k) Processor" where
  "apply_call Pause P = pause P"
| "apply_call Nmi P = nmi P"
| "apply_call (Irq asserted) P = irq asserted P"

primrec take :: "('b, 'k) Env \<Rightarrow> taken \<Rightarrow> ('b, 'k) Processor \<Rightarrow> ('b, 'k) Processor" where
  "take E Take_nmi P = take_vector E 0xFFFA P"
| "take E Take_irq P = take_vector E 0xFFFE P"
| "take E Take_instruction P = execute_next E P"

fun thread :: "('b, 'k) Env \<Rightarrow> ('b, 'k) conf \<Rightarrow> (event \<times> ('b, 'k) conf) option" where
  "thread E (Enter, P) = Some (Thread, Clear, P\<lparr>m_running := True\<rparr>)"
| "thread E (Clear, P) = Some (Thread, Begin, P\<lparr>m_stopping := False\<rparr>)"
| "thread E (Begin, P) = Some (Thread, Test_running, P\<lparr>p_clock := clk_beginCycle (v_clock E) (p_clock P)\<rparr>)"
| "thread E (Test_running, P) = Some (Thread, if m_running P then Test_stopping else Leave, P)"
| "thread E (Test_stopping, P) = Some (Thread, if m_stopping P then Leave else Poll, P)"
| "thread E (Poll, P) = Some (Thread, Exchange_nmi (masked P), P)"
| "thread E (Exchange_nmi b, P) =
     Some (Thread, if m_nmi_pending P then Body Take_nmi else Load_irq b, P\<lparr>m_nmi_pending := False\<rparr>)"
| "thread E (Load_irq b, P) =
     Some (Thread, Body (if m_irq_line P \<and> \<not> b then Take_irq else Take_instruction), P)"
| "thread E (Body w, P) = Some (Execute, Callback, take E w P)"
| "thread E (Callback, P) = Some (Thread, Test_running, call_back (p_instr_callback E) P)"
| "thread E (Leave, P) = Some (Thread, Leave_clear, P\<lparr>m_running := False\<rparr>)"
| "thread E (Leave_clear, P) = Some (Thread, Out, P\<lparr>m_stopping := False\<rparr>)"
| "thread E (Out, P) = None"

inductive action :: "('b, 'k) Env \<Rightarrow> ('b, 'k) conf \<Rightarrow> event \<Rightarrow> ('b, 'k) conf \<Rightarrow> bool" for E where
  own: "thread E c = Some (e, c') \<Longrightarrow> action E c e c'"
| other: "action E (l, P) (Host k) (l, apply_call k P)"

inductive actions :: "('b, 'k) Env \<Rightarrow> ('b, 'k) conf \<Rightarrow> event list \<Rightarrow> ('b, 'k) conf \<Rightarrow> bool" for E where
  none: "actions E c [] c"
| more: "action E c e c1 \<Longrightarrow> actions E c1 es c' \<Longrightarrow> actions E c (e # es) c'"

inductive_cases actions_NilE [elim!]: "actions E c [] c'"
inductive_cases actions_ConsE: "actions E c (e # es) c'"
inductive_cases action_HostE: "action E c (Host k) c'"

lemma thread_not_host: "thread E c = Some (e, c') \<Longrightarrow> e \<noteq> Host k"
  by (induction E c rule: thread.induct) auto

lemma action_cases:
  assumes "action E c e c'"
  obtains (own) "thread E c = Some (e, c')" "\<And>k. e \<noteq> Host k"
  | (other) k l P where "e = Host k" "c = (l, P)" "c' = (l, apply_call k P)"
  using assms by (cases rule: action.cases) (auto dest: thread_not_host)

text \<open>A sequence of events determines the outcome.\<close>

fun perform :: "('b, 'k) Env \<Rightarrow> event list \<Rightarrow> ('b, 'k) conf \<Rightarrow> ('b, 'k) conf option" where
  "perform E [] c = Some c"
| "perform E (Host k # es) c = perform E es (fst c, apply_call k (snd c))"
| "perform E (e # es) c = (case thread E c of None \<Rightarrow> None
     | Some (e', c') \<Rightarrow> if e' = e then perform E es c' else None)"

lemma actions_perform: "actions E c es c' \<longleftrightarrow> perform E es c = Some c'"
proof
  show "perform E es c = Some c'" if "actions E c es c'"
    using that
  proof (induction rule: actions.induct)
    case (more c e c1 es c')
    from more.hyps(1) show ?case
      by (cases rule: action_cases; cases e) (use more.IH in auto)
  qed simp
  show "actions E c es c'" if "perform E es c = Some c'"
    using that
    by (induction E es c rule: perform.induct)
      (auto intro: actions.none actions.more [OF action.own] actions.more [OF action.other]
        split: option.splits if_splits)
qed

text \<open>The run thread is never stuck before it is out.\<close>

lemma thread_progress: "fst c \<noteq> Out \<Longrightarrow> \<exists>e c'. thread E c = Some (e, c')"
  by (cases c; cases "fst c") auto

section \<open>Alone, the run thread is run\<close>

lemma step_core_take:
  "step_core E P = take E (if m_nmi_pending P then Take_nmi
      else if m_irq_line P \<and> \<not> masked P then Take_irq else Take_instruction) (P\<lparr>m_nmi_pending := False\<rparr>)"
proof -
  have same: "P\<lparr>m_nmi_pending := False\<rparr> = P" if "\<not> m_nmi_pending P" using that by (cases P) simp
  show ?thesis by (cases "m_nmi_pending P") (simp_all add: step_core_cases same)
qed

definition alone :: "event list \<Rightarrow> bool" where
  "alone es \<longleftrightarrow> list_all (\<lambda>e. e = Thread \<or> e = Execute) es"

lemma alone_simps [simp]:
  "alone []" "alone (Thread # es) = alone es" "alone (Execute # es) = alone es" "\<not> alone (Host k # es)"
  by (simp_all add: alone_def)

lemma alone_append: "alone (es @ fs) \<longleftrightarrow> alone es \<and> alone fs"
  by (simp add: alone_def)

lemma actions_alone_Cons:
  "alone (e # es) \<Longrightarrow> actions E c (e # es) c' \<longleftrightarrow> (\<exists>c1. thread E c = Some (e, c1) \<and> actions E c1 es c')"
  by (auto elim!: actions_ConsE action.cases intro: actions.more action.own)

lemma actions_append: "actions E c es c1 \<Longrightarrow> actions E c1 fs c' \<Longrightarrow> actions E c (es @ fs) c'"
  by (induction rule: actions.induct) (auto intro: actions.more)

text \<open>The actions of one round of the loop, and of its end.\<close>

definition round_events :: "('b, 'k) Processor \<Rightarrow> event list" where
  "round_events P = [Thread, Thread, Thread, Thread] @ (if m_nmi_pending P then [] else [Thread]) @ [Execute, Thread]"

lemma own_actions: "thread E c = Some (e, c1) \<Longrightarrow> actions E c1 es c' \<Longrightarrow> actions E c (e # es) c'"
  by (blast intro: actions.more action.own)

lemma round_actions:
  assumes "run_cond P"
  shows "actions E (Test_running, P) (round_events P) (Test_running, step E P)"
  using assms
  by (cases "m_nmi_pending P")
    (auto simp: round_events_def run_cond_def step_def step_core_take intro!: own_actions actions.none)

text \<open>Its actions are determined, so any way out of the loop passes through them.\<close>

lemma alone_determined:
  assumes "actions E c es c1" and "alone es" and "actions E c fs (Out, Q)" and "alone fs"
  obtains gs where "fs = es @ gs" and "actions E c1 gs (Out, Q)" and "alone gs"
proof -
  have "\<exists>gs. fs = es @ gs \<and> actions E c1 gs (Out, Q) \<and> alone gs"
    using assms
  proof (induction arbitrary: fs rule: actions.induct)
    case (none c)
    then show ?case by simp
  next
    case (more c e c2 es c1)
    have e: "thread E c = Some (e, c2)" "alone es"
      using more.hyps(1) more.prems(1) by (auto elim!: action.cases simp: alone_def)
    obtain f fs' where fs: "fs = f # fs'"
      using more.prems(2) e(1) by (cases fs) auto
    then have "f = e" "actions E c2 fs' (Out, Q)" "alone fs'"
      using more.prems(2,3) e(1) by (auto simp: actions_alone_Cons alone_def)
    with more.IH [OF e(2)] fs show ?case by auto
  qed
  then show thesis using that by blast
qed

lemma alone_round_events [simp]: "alone (round_events P)" "round_events P \<noteq> []"
  by (simp_all add: round_events_def alone_def)

definition leave_events :: "('b, 'k) Processor \<Rightarrow> event list" where
  "leave_events P = (if m_running P then [Thread, Thread] else [Thread]) @ [Thread, Thread]"

lemma leave_actions:
  assumes "\<not> run_cond P"
  shows "actions E (Test_running, P) (leave_events P) (Out, run_end P)"
  using assms
  by (cases "m_running P")
    (auto simp: leave_events_def run_cond_def run_end_def intro!: own_actions actions.none)

lemma alone_leave_events [simp]: "alone (leave_events P)"
  by (simp add: leave_events_def alone_def)

lemma start_actions: "actions E (Enter, P) [Thread, Thread, Thread] (Test_running, run_start E P)"
  by (auto simp: run_start_def Let_def intro!: own_actions actions.none)

lemma loop_runs:
  assumes "actions E (Test_running, P) es (Out, Q)" and "alone es"
  shows "map_option run_end (while_option run_cond (step E) P) = Some Q"
  using assms
proof (induction "length es" arbitrary: P es rule: less_induct)
  case less
  show ?case
  proof (cases "run_cond P")
    case True
    from alone_determined [OF round_actions [OF this] alone_round_events(1) less.prems]
    obtain gs where gs: "es = round_events P @ gs" "actions E (Test_running, step E P) gs (Out, Q)" "alone gs"
      by blast
    then have "length gs < length es" by simp
    from less.hyps [OF this gs(2,3)] True show ?thesis by (simp add: while_option_unfold)
  next
    case False
    from alone_determined [OF leave_actions [OF this] alone_leave_events less.prems]
    obtain gs where "actions E (Out, run_end P) gs (Out, Q)" "alone gs" by blast
    then have "Q = run_end P" by (cases gs) (auto simp: actions_alone_Cons)
    with False show ?thesis by (simp add: while_option_unfold)
  qed
qed

lemma loop_acts:
  assumes "while_option run_cond (step E) P = Some R"
  shows "\<exists>es. alone es \<and> actions E (Test_running, P) es (Out, run_end R)"
proof -
  define k where "k = (LEAST k. \<not> run_cond ((step E ^^ k) P))"
  have "R = (step E ^^ k) P" using assms by (simp add: while_option_def k_def split: if_splits)
  moreover have "\<forall>j < k. run_cond ((step E ^^ j) P)" unfolding k_def using not_less_Least by blast
  ultimately show ?thesis
    using while_option_stop [OF assms]
  proof (induction k arbitrary: P)
    case 0
    then have "actions E (Test_running, P) (leave_events P) (Out, run_end R)" using leave_actions by simp
    then show ?case using alone_leave_events by blast
  next
    case (Suc k)
    have "R = (step E ^^ k) (step E P)" using Suc.prems(1) by (simp add: funpow_swap1)
    moreover have "run_cond ((step E ^^ j) (step E P))" if "j < k" for j
      using Suc.prems(2) that by (metis Suc_less_eq funpow_simps_right(2) comp_apply)
    ultimately obtain es where "alone es" "actions E (Test_running, step E P) es (Out, run_end R)"
      using Suc.IH Suc.prems(3) by blast
    moreover have "run_cond P" using Suc.prems(2) by force
    ultimately have "alone (round_events P @ es)" "actions E (Test_running, P) (round_events P @ es) (Out, run_end R)"
      using actions_append [OF round_actions] by (simp_all add: alone_append)
    then show ?case by blast
  qed
qed


section \<open>Calls during a step\<close>

text \<open>The calls of the other threads in a sequence of events, in their order, and their effect.\<close>

fun calls :: "event list \<Rightarrow> call list" where
  "calls [] = []"
| "calls (Host k # es) = k # calls es"
| "calls (e # es) = calls es"

definition apply_calls :: "call list \<Rightarrow> ('b, 'k) Processor \<Rightarrow> ('b, 'k) Processor" where
  "apply_calls ks P = fold apply_call ks P"

lemma apply_calls_simps [simp]:
  "apply_calls [] P = P" "apply_calls (k # ks) P = apply_calls ks (apply_call k P)"
  "apply_calls (ks @ ks') P = apply_calls ks' (apply_calls ks P)"
  by (simp_all add: apply_calls_def)

lemma calls_simps [simp]: "calls (map Host ks) = ks" "calls (es @ fs) = calls es @ calls fs"
  by (induction ks, simp_all, induction es rule: calls.induct, simp_all)

text \<open>A call touches its flag only; the work of a step neither reads nor writes the flags.\<close>

fun same_line :: "call \<Rightarrow> call \<Rightarrow> bool" where
  "same_line Pause Pause = True"
| "same_line Nmi Nmi = True"
| "same_line (Irq _) (Irq _) = True"
| "same_line _ _ = False"

lemma apply_call_frame [simp]:
  "masked (apply_call k P) = masked P"
  "p_regs (apply_call k P) = p_regs P" "p_bus (apply_call k P) = p_bus P" "p_clock (apply_call k P) = p_clock P"
  "m_running (apply_call k P) = m_running P"
  by (cases k; simp add: pause_def nmi_def irq_def masked_def)+

lemma apply_calls_frame [simp]:
  "masked (apply_calls ks P) = masked P" "m_running (apply_calls ks P) = m_running P"
  by (induction ks arbitrary: P) simp_all

lemma apply_call_commute: "\<not> same_line k k' \<Longrightarrow> apply_call k (apply_call k' P) = apply_call k' (apply_call k P)"
  by (cases k; cases k') (simp_all add: pause_def nmi_def irq_def)

lemma take_call: "take E w (apply_call k P) = apply_call k (take E w P)"
  by (cases w; cases k) (simp_all add: take_vector_def serviceInterrupt_def execute_next_def waitCycles_def
      pause_def nmi_def irq_def Let_def case_prod_beta)

lemma take_calls: "take E w (apply_calls ks P) = apply_calls ks (take E w P)"
  by (induction ks arbitrary: P) (simp_all add: take_call)

text \<open>The way from one place of the run thread to another: calls, its own action, and the rest.\<close>

lemma next_own_action:
  assumes "actions E (l, P) es (l', Q)" and "l \<noteq> l'"
  obtains ks e c fs where "es = map Host ks @ e # fs" "\<And>k. e \<noteq> Host k"
    "thread E (l, apply_calls ks P) = Some (e, c)" "actions E c fs (l', Q)"
proof -
  have "\<exists>ks e c fs. es = map Host ks @ e # fs \<and> (\<forall>k. e \<noteq> Host k) \<and>
    thread E (l, apply_calls ks P) = Some (e, c) \<and> actions E c fs (l', Q)"
    using assms
  proof (induction es arbitrary: P)
    case (Cons e es)
    from Cons.prems(1) obtain c1 where c1: "action E (l, P) e c1" "actions E c1 es (l', Q)"
      by (rule actions_ConsE)
    from c1(1) show ?case
    proof (cases rule: action_cases)
      case own
      then show ?thesis using c1(2) by (intro exI [of _ "[]"]) auto
    next
      case (other k l1 P1)
      then have "actions E (l, apply_call k P) es (l', Q)" using c1(2) by simp
      from Cons.IH [OF this Cons.prems(2)] obtain ks e' c fs
        where "es = map Host ks @ e' # fs \<and> (\<forall>k. e' \<noteq> Host k) \<and>
          thread E (l, apply_calls (k # ks) P) = Some (e', c) \<and> actions E c fs (l', Q)" by auto
      then show ?thesis
        using other(1) by (intro exI [of _ "k # ks"]) auto
    qed
  qed auto
  then show thesis using that by blast
qed

text \<open>Without executing again the run thread does not come back to the callback.\<close>

lemma no_callback:
  assumes "actions E c es c'" and "Execute \<notin> set es" and "fst c \<noteq> Callback"
  shows "fst c' \<noteq> Callback"
  using assms
proof (induction rule: actions.induct)
  case (more c e c1 es c')
  from more.hyps(1) have "fst c1 \<noteq> Callback"
  proof (cases rule: action_cases)
    case own
    then show ?thesis using more.prems by (cases c; cases "fst c") (auto split: if_splits)
  qed (use more.prems in auto)
  with more show ?case by simp
qed simp

lemma at_callback:
  assumes "actions E (Callback, P) es (Callback, Q)" and "Execute \<notin> set es"
  shows "Q = apply_calls (calls es) P \<and> es = map Host (calls es)"
  using assms
proof (induction es arbitrary: P)
  case (Cons e es)
  from Cons.prems(1) obtain c1 where c1: "action E (Callback, P) e c1" "actions E c1 es (Callback, Q)"
    by (rule actions_ConsE)
  from c1(1) show ?case
  proof (cases rule: action_cases)
    case own
    then show ?thesis using no_callback [OF c1(2)] Cons.prems(2) by auto
  next
    case (other k l1 P1)
    then show ?thesis using Cons.IH [of "apply_call k P"] Cons.prems(2) c1(2) by auto
  qed
qed auto

text \<open>What reaches the processor between the two reads of a step: an \<open>irq\<close> counts for the step, an \<open>nmi\<close> does not.\<close>

fun is_irq :: "call \<Rightarrow> bool" where
  "is_irq (Irq _) = True"
| "is_irq _ = False"

lemma same_line_irq [simp]: "same_line k (Irq b) = is_irq k" "same_line (Irq b) k = is_irq k"
  by (cases k; simp)+

lemma apply_calls_split:
  "apply_calls ks P = apply_calls (filter (Not \<circ> is_irq) ks) (apply_calls (filter is_irq ks) P)"
proof (induction ks arbitrary: P)
  case (Cons k ks)
  have "apply_call k (apply_calls js P) = apply_calls js (apply_call k P)" if "\<not> is_irq k" "list_all is_irq js" for js and P :: "('a, 'b) Processor"
    using that(2)
  proof (induction js arbitrary: P)
    case (Cons j js)
    then have "\<not> same_line k j" using that(1) by (cases j) auto
    with Cons show ?case by (simp add: apply_call_commute)
  qed simp
  from this [of "filter is_irq ks"]
  have "apply_call k (apply_calls (filter is_irq ks) P) = apply_calls (filter is_irq ks) (apply_call k P)"
    if "\<not> is_irq k"
    using that by (simp add: list_all_iff)
  then show ?case using Cons.IH [of "apply_call k P"] by simp
qed simp

lemma same_line_kind: "same_line k j \<Longrightarrow> is_irq j \<longleftrightarrow> is_irq k"
  by (cases k; cases j) simp_all

lemma filter_same_line:
  "filter (same_line k) (filter is_irq ks @ filter (Not \<circ> is_irq) ks) = filter (same_line k) ks"
proof (cases "is_irq k")
  case True
  then have "filter (same_line k) (filter (Not \<circ> is_irq) ks) = []"
    "filter (same_line k) (filter is_irq ks) = filter (same_line k) ks"
    by (auto simp: filter_empty_conv dest: same_line_kind intro: filter_cong)
  then show ?thesis by simp
next
  case False
  then have "filter (same_line k) (filter is_irq ks) = []"
    "filter (same_line k) (filter (Not \<circ> is_irq) ks) = filter (same_line k) ks"
    by (auto simp: filter_empty_conv dest: same_line_kind intro: filter_cong)
  then show ?thesis by simp
qed

lemma apply_call_lines [simp]:
  "m_nmi_pending (apply_call k P) \<longleftrightarrow> m_nmi_pending P \<or> k = Nmi"
  "\<not> is_irq k \<Longrightarrow> m_irq_line (apply_call k P) = m_irq_line P"
  "m_stopping (apply_call k P) \<longleftrightarrow> m_stopping P \<or> k = Pause"
  by (cases k; simp add: pause_def nmi_def irq_def)+

lemma apply_calls_lines:
  "m_nmi_pending (apply_calls ks P) \<longleftrightarrow> m_nmi_pending P \<or> Nmi \<in> set ks"
  "filter is_irq ks = [] \<Longrightarrow> m_irq_line (apply_calls ks P) = m_irq_line P"
  by (induction ks arbitrary: P) (auto split: if_splits)

text \<open>The calls between the two reads, divided into those before and those after the step.\<close>

lemma divide_calls:
  obtains b a where "apply_calls ks P = apply_calls a (apply_calls b P)"
    and "Nmi \<notin> set b" and "filter is_irq a = []"
    and "\<forall>k. filter (same_line k) (b @ a) = filter (same_line k) ks"
    and "Nmi \<notin> set ks \<or> filter is_irq ks = [] \<longrightarrow> b @ a = ks"
proof (cases "Nmi \<in> set ks")
  case True
  have "filter is_irq ks @ filter (Not \<circ> is_irq) ks = ks" if "filter is_irq ks = []"
    using that by (simp add: filter_empty_conv)
  then show thesis
    using that [of "filter (Not \<circ> is_irq) ks" "filter is_irq ks"] apply_calls_split filter_same_line True
    by (auto simp: filter_empty_conv)
next
  case False
  then show thesis using that [of "[]" ks] by simp
qed

lemma step_core_taken:
  assumes "\<not> m_nmi_pending P" and "w = (if m_irq_line P \<and> \<not> masked P then Take_irq else Take_instruction)"
  shows "step_core E P = take E w P"
  using assms by (simp add: step_core_cases)

lemma count_host [simp]: "count_list (map Host ks) Execute = 0"
  by (induction ks) simp_all

lemma body_to_callback:
  assumes "actions E (Body w, P) es (Callback, Q)" and "count_list es Execute = 1"
  shows "Q = apply_calls (calls es) (take E w P)"
proof -
  obtain ks e c fs where e: "es = map Host ks @ e # fs"
    "thread E (Body w, apply_calls ks P) = Some (e, c)" "actions E c fs (Callback, Q)"
    using next_own_action [OF assms(1)] by auto
  then have "actions E (Callback, apply_calls ks (take E w P)) fs (Callback, Q)" by (auto simp: take_calls)
  moreover have "Execute \<notin> set fs" using assms(2) e by (auto simp: count_list_0_iff)
  ultimately show ?thesis using at_callback e by fastforce
qed

text \<open>
  C19: The calls that other threads make while \<open>step\<close> runs, from its first read to its callback, may fall between its
  reads of the flags and in the middle of its work. The result is that of \<open>step\<close> as one piece (\<open>step_core\<close>) with some of the calls
  made before it and the others after it. The calls on one line keep their order, and all calls do, unless an \<open>nmi\<close> and an
  \<open>irq\<close> were both among them.
\<close>

theorem calls_between_steps:
  assumes "actions E (Poll, P) es (Callback, Q)" and "count_list es Execute = 1"
  shows "\<exists>before after. Q = apply_calls after (step_core E (apply_calls before P)) \<and>
    (\<forall>k. filter (same_line k) (before @ after) = filter (same_line k) (calls es)) \<and>
    (Nmi \<notin> set (calls es) \<or> filter is_irq (calls es) = [] \<longrightarrow> before @ after = calls es)"
proof -
  obtain ks0 e0 c0 fs0 where 0: "es = map Host ks0 @ e0 # fs0"
    "thread E (Poll, apply_calls ks0 P) = Some (e0, c0)" "actions E c0 fs0 (Callback, Q)"
    using next_own_action [OF assms(1)] by auto
  then have A1: "actions E (Exchange_nmi (masked P), apply_calls ks0 P) fs0 (Callback, Q)" by auto
  obtain ks1 e1 c1 fs1 where 1: "fs0 = map Host ks1 @ e1 # fs1"
    "thread E (Exchange_nmi (masked P), apply_calls (ks0 @ ks1) P) = Some (e1, c1)" "actions E c1 fs1 (Callback, Q)"
    using next_own_action [OF A1] by auto
  let ?P1 = "apply_calls (ks0 @ ks1) P"
  show ?thesis
  proof (cases "m_nmi_pending ?P1")
    case True
    with 1 have A2: "actions E (Body Take_nmi, ?P1\<lparr>m_nmi_pending := False\<rparr>) fs1 (Callback, Q)" by auto
    have once: "count_list fs1 Execute = 1" using assms(2) 0 1 by auto
    from body_to_callback [OF A2 once] True
    have Q: "Q = apply_calls (calls fs1) (step_core E ?P1)" by (simp add: step_core_cases)
    show ?thesis
      by (rule exI [of _ "ks0 @ ks1"], rule exI [of _ "calls fs1"]) (use Q 0 1 in auto)
  next
    case False
    then have same: "?P1\<lparr>m_nmi_pending := False\<rparr> = ?P1" by (cases ?P1) simp
    from same False 1 have A2: "actions E (Load_irq (masked P), ?P1) fs1 (Callback, Q)" by auto
    obtain ks2 e2 c2 fs2 where 2: "fs1 = map Host ks2 @ e2 # fs2"
      "thread E (Load_irq (masked P), apply_calls ks2 ?P1) = Some (e2, c2)" "actions E c2 fs2 (Callback, Q)"
      using next_own_action [OF A2] by auto
    obtain b a where d: "apply_calls ks2 ?P1 = apply_calls a (apply_calls b ?P1)"
      "Nmi \<notin> set b" "filter is_irq a = []"
      "\<forall>k. filter (same_line k) (b @ a) = filter (same_line k) ks2"
      "Nmi \<notin> set ks2 \<or> filter is_irq ks2 = [] \<longrightarrow> b @ a = ks2"
      by (rule divide_calls [of ks2 ?P1]) (rule that; assumption)
    let ?P2 = "apply_calls b ?P1"
    define w where "w = (if m_irq_line ?P2 \<and> \<not> masked ?P2 then Take_irq else Take_instruction)"
    have "actions E (Body w, apply_calls a ?P2) fs2 (Callback, Q)"
      using 2(2,3) d(1,3) by (auto simp: w_def apply_calls_lines(2))
    moreover have "count_list fs2 Execute = 1" using assms(2) 0 1 2 by auto
    ultimately have "Q = apply_calls (calls fs2) (take E w (apply_calls a ?P2))" by (rule body_to_callback)
    also have "take E w (apply_calls a ?P2) = apply_calls a (step_core E ?P2)"
      using False d(2) step_core_taken [OF _ w_def] by (simp add: take_calls apply_calls_lines(1))
    finally have Q: "Q = apply_calls (a @ calls fs2) (step_core E (apply_calls (ks0 @ ks1 @ b) P))" by simp
    have es: "calls es = ks0 @ ks1 @ ks2 @ calls fs2" using 0 1 2 by auto
    show ?thesis
      by (rule exI [of _ "ks0 @ ks1 @ b"], rule exI [of _ "a @ calls fs2"])
        (use Q d(4,5) in \<open>auto simp: es\<close>)
  qed
qed

lemma calls_between_steps_witness:
  "\<exists>before after. before @ after = [Nmi] \<and>
    apply_calls after (step_core plain_system (apply_calls before (booted (\<lambda>_. 0xEA) 0x0200)))
      = execute_next plain_system (nmi (booted (\<lambda>_. 0xEA) 0x0200))"
proof -
  let ?P = "booted (\<lambda>_. 0xEA) 0x0200" and ?es = "[Thread, Thread, Thread, Host Nmi, Execute]"
  have same: "?P\<lparr>m_nmi_pending := False\<rparr> = ?P" by (simp add: booted_def Processor_new_def)
  have "actions plain_system (Poll, ?P) ?es (Callback, execute_next plain_system (nmi ?P))"
    by (simp add: actions_perform same)
  from calls_between_steps [OF this] show ?thesis by fastforce
qed

text \<open>
  The exception is real: an \<open>nmi\<close> and then an \<open>irq\<close> between the two reads let the interrupt request be taken first, which
  no division of the two calls in this order gives.
\<close>

lemma nmi_then_irq_crossed:
  assumes "\<not> m_nmi_pending P" and "\<not> m_irq_line P" and "\<not> masked P" and "next_code E P = 0x58"
  shows "\<exists>Q. actions E (Poll, P) [Thread, Thread, Host Nmi, Host (Irq True), Thread, Execute] (Callback, Q) \<and>
    (\<forall>before after. before @ after = [Nmi, Irq True] \<longrightarrow>
      Q \<noteq> apply_calls after (step_core E (apply_calls before P)))"
proof -
  let ?Q = "take_vector E 0xFFFE (irq True (nmi P))"
  have "P\<lparr>m_nmi_pending := False\<rparr> = P" using assms(1) by (cases P) simp
  then have "actions E (Poll, P) [Thread, Thread, Host Nmi, Host (Irq True), Thread, Execute] (Callback, ?Q)"
    using assms apply_call_frame(1) [of "Irq True" "nmi P"] apply_call_frame(1) [of Nmi P]
    by (simp add: actions_perform irq_def nmi_def)
  moreover have "?Q \<noteq> apply_calls after (step_core E (apply_calls before P))"
    if split: "before @ after = [Nmi, Irq True]" for before after
  proof -
    have Q: "m_nmi_pending ?Q" "getStatus FLAG_I (p_regs ?Q)"
      by (simp_all add: take_vector_masks) (simp add: irq_def nmi_def)
    consider "before = []" "after = [Nmi, Irq True]" | "Nmi \<in> set before" "Nmi \<notin> set after"
      using split by (auto simp: append_eq_Cons_conv)
    then show ?thesis
    proof cases
      case 1
      then have "\<not> getStatus FLAG_I (p_regs (apply_calls after (step_core E (apply_calls before P))))"
        using assms by (simp add: step_core_cases execute_cli nmi_def irq_def)
      with Q(2) show ?thesis by metis
    next
      case 2
      then have "\<not> m_nmi_pending (apply_calls after (step_core E (apply_calls before P)))"
        by (simp add: apply_calls_lines(1) step_core_cases)
      with Q(1) show ?thesis by metis
    qed
  qed
  ultimately show ?thesis by blast
qed

section \<open>Pause and stop\<close>

text \<open>How many actions of its own the run thread is from the end, when a pause has been asked for.\<close>

fun to_go :: "loc \<Rightarrow> nat" where
  "to_go Poll = 9"
| "to_go (Exchange_nmi _) = 8"
| "to_go (Load_irq _) = 7"
| "to_go (Body _) = 6"
| "to_go Begin = 5"
| "to_go Callback = 5"
| "to_go Test_running = 4"
| "to_go Test_stopping = 3"
| "to_go Leave = 2"
| "to_go Leave_clear = 1"
| "to_go Out = 0"
| "to_go Enter = 12"
| "to_go Clear = 11"

definition in_loop :: "loc \<Rightarrow> bool" where
  "in_loop l \<longleftrightarrow> l \<notin> {Enter, Clear, Leave_clear, Out}"

fun own_count :: "event list \<Rightarrow> nat" where
  "own_count [] = 0"
| "own_count (Host k # es) = own_count es"
| "own_count (e # es) = Suc (own_count es)"

definition keeps_pause :: "('b, 'k) Env \<Rightarrow> bool" where
  "keeps_pause E \<longleftrightarrow> (\<forall>P. m_stopping P \<longrightarrow> m_stopping (call_back (p_instr_callback E) P))"

lemma take_flags [simp]:
  "m_running (take E w P) = m_running P" "m_stopping (take E w P) = m_stopping P"
  by (cases w; simp)+

text \<open>The pause request stays until the run thread is past the loop, and it is closer to the end with each action.\<close>

definition ending :: "('b, 'k) conf \<Rightarrow> bool" where
  "ending c \<longleftrightarrow> (in_loop (fst c) \<and> m_stopping (snd c)) \<or> (fst c \<in> {Leave_clear, Out} \<and> \<not> m_running (snd c))"

lemma ending_own:
  assumes "thread E c = Some (e, c')" and "ending c" and "keeps_pause E"
  shows "ending c' \<and> Suc (to_go (fst c')) \<le> to_go (fst c) \<and>
    (e = Execute \<longrightarrow> 6 \<le> to_go (fst c) \<and> to_go (fst c') < 6)"
proof -
  obtain l P where c: "c = (l, P)" by (cases c)
  have "m_stopping P \<Longrightarrow> m_stopping (call_back (p_instr_callback E) P)"
    using assms(3) by (simp add: keeps_pause_def)
  then show ?thesis
    using assms(1,2) unfolding c by (cases l) (auto simp: ending_def in_loop_def split: if_splits)
qed

lemma ending_actions:
  assumes "actions E c es c'" and "ending c" and "keeps_pause E"
  shows "ending c' \<and> own_count es + to_go (fst c') \<le> to_go (fst c) \<and>
    count_list es Execute \<le> (if to_go (fst c) < 6 then 0 else 1)"
  using assms
proof (induction rule: actions.induct)
  case (more c e c1 es c')
  from more.hyps(1) show ?case
  proof (cases rule: action_cases)
    case own
    from ending_own [OF own(1) more.prems] have e: "ending c1" "Suc (to_go (fst c1)) \<le> to_go (fst c)"
      "e = Execute \<Longrightarrow> 6 \<le> to_go (fst c) \<and> to_go (fst c1) < 6" by auto
    note rest = more.IH [OF e(1) more.prems(2)]
    have "own_count (e # es) = Suc (own_count es)" using own(2) by (cases e) auto
    then have "own_count (e # es) + to_go (fst c') \<le> to_go (fst c)" using e(2) rest by linarith
    moreover have "count_list (e # es) Execute \<le> (if to_go (fst c) < 6 then 0 else 1)"
    proof (cases "e = Execute")
      case True
      with e(3) rest show ?thesis by simp
    next
      case False
      with e(2) rest show ?thesis by (simp split: if_splits)
    qed
    ultimately show ?thesis using rest by blast
  next
    case (other k l P)
    then have "ending c1" using more.prems(1) by (auto simp: ending_def)
    from more.IH [OF this more.prems(2)] other show ?thesis by simp
  qed
qed auto

text \<open>
  C20: A \<open>pause\<close> that reaches the run thread anywhere in its loop, with an instruction callback that does not take
  pauses back, ends the run: the thread performs at most nine more actions, executes at most one more
  instruction, always has a next action until it is out, and is out, not running, when it has performed nine. What other threads
  call in between does not matter.
\<close>

theorem pause_ends_run:
  assumes "in_loop l" and "actions E (l, pause P) es (l', Q)" and "keeps_pause E"
  shows "own_count es \<le> 9 \<and> count_list es Execute \<le> 1 \<and>
    (l' = Out \<or> (\<exists>e c. thread E (l', Q) = Some (e, c))) \<and>
    (own_count es = 9 \<longrightarrow> l' = Out) \<and> (l' = Out \<longrightarrow> \<not> isRunning Q)"
proof -
  have "ending (l, pause P)" using assms(1) by (simp add: ending_def)
  from ending_actions [OF assms(2) this assms(3)]
  have end_: "ending (l', Q)" "own_count es + to_go l' \<le> to_go l" "count_list es Execute \<le> 1"
    by (auto split: if_splits)
  moreover have "to_go l \<le> 9" using assms(1) by (cases l) (simp_all add: in_loop_def)
  moreover have "l' = Out" if "to_go l' = 0" using that by (cases l') simp_all
  ultimately show ?thesis
    using thread_progress [of "(l', Q)" E] by (auto simp: ending_def in_loop_def isRunning_def)
qed

lemma pause_ends_run_witness:
  "\<exists>Q. actions plain_system (Poll, pause ((booted (\<lambda>_. 0xEA) 0x0200)\<lparr>m_running := True\<rparr>))
      [Thread, Thread, Thread, Execute, Thread, Thread, Thread, Thread, Thread] (Out, Q) \<and> \<not> isRunning Q"
proof -
  let ?P = "(booted (\<lambda>_. 0xEA) 0x0200)\<lparr>m_running := True\<rparr>"
  let ?es = "[Thread, Thread, Thread, Execute, Thread, Thread, Thread, Thread, Thread]"
  have k: "keeps_pause plain_system" by (simp add: keeps_pause_def plain_system_def call_back_def)
  have "\<exists>c. perform plain_system ?es (Poll, pause ?P) = Some c"
    by (simp add: pause_def plain_system_def call_back_def)
  then obtain l Q where a: "actions plain_system (Poll, pause ?P) ?es (l, Q)" by (auto simp: actions_perform)
  have "in_loop Poll" by (simp add: in_loop_def)
  from pause_ends_run [OF this a k] a show ?thesis by auto
qed

text \<open>Once the run thread is past the two stores at its beginning, nothing but a pause ends the loop.\<close>

definition quiet_callback :: "('b, 'k) Env \<Rightarrow> bool" where
  "quiet_callback E \<longleftrightarrow> (\<forall>P. m_running (call_back (p_instr_callback E) P) = m_running P \<and>
     m_stopping (call_back (p_instr_callback E) P) = m_stopping P)"

definition going :: "('b, 'k) conf \<Rightarrow> bool" where
  "going c \<longleftrightarrow> fst c \<notin> {Enter, Clear, Leave, Leave_clear, Out} \<and> m_running (snd c) \<and> \<not> m_stopping (snd c)"

lemma going_own:
  assumes "thread E c = Some (e, c')" and "going c" and "quiet_callback E"
  shows "going c'"
proof -
  obtain l P where c: "c = (l, P)" by (cases c)
  have "m_running (call_back (p_instr_callback E) P) = m_running P"
    "m_stopping (call_back (p_instr_callback E) P) = m_stopping P"
    using assms(3) by (simp_all add: quiet_callback_def)
  then show ?thesis
    using assms(1,2) unfolding c by (cases l) (auto simp: going_def split: if_splits)
qed

lemma going_actions:
  assumes "actions E c es c'" and "going c" and "quiet_callback E" and "Host Pause \<notin> set es"
  shows "going c'"
  using assms
proof (induction rule: actions.induct)
  case (more c e c1 es c')
  from more.hyps(1) have "going c1"
  proof (cases rule: action_cases)
    case own
    then show ?thesis using going_own more.prems by blast
  next
    case (other k l P)
    then show ?thesis using more.prems by (auto simp: going_def)
  qed
  with more show ?case by simp
qed

text \<open>
  C21: A \<open>pause\<close> that reaches the run thread before it has cleared the request is lost, also when the flag \<open>m_running\<close>
  is up already: unless somebody pauses again, the thread then stays in its loop for ever and \<open>isRunning\<close> stays
  true, with any interleaving and any instruction callback that leaves the two flags alone. So a \<open>stop\<close> whose pause comes between the two
  stores at the head of \<open>run\<close> waits for ever.
\<close>

theorem early_pause_is_lost:
  assumes "start \<in> {[Host Pause, Thread, Thread], [Thread, Host Pause, Thread]}"
    and "actions E (Enter, P) (start @ es) (l, Q)" and "quiet_callback E" and "Host Pause \<notin> set es"
  shows "isRunning Q \<and> l \<noteq> Out \<and> (\<exists>e c. thread E (l, Q) = Some (e, c) \<and> going c)"
proof -
  have "\<exists>c. perform E start (Enter, P) = Some c \<and> going c \<and> actions E c es (l, Q)"
    using assms(1,2) by (auto simp: actions_perform going_def pause_def)
  then have g: "going (l, Q)" using going_actions assms(3,4) by blast
  then obtain e c where "thread E (l, Q) = Some (e, c)"
    using thread_progress [of "(l, Q)" E] by (auto simp: going_def)
  with going_own [OF this g assms(3)] g show ?thesis by (auto simp: going_def isRunning_def)
qed

lemma early_pause_is_lost_witness:
  "\<exists>l Q. perform plain_system [Thread, Host Pause, Thread, Thread, Thread, Thread] (Enter, booted (\<lambda>_. 0xEA) 0x0200)
      = Some (l, Q) \<and> isRunning Q \<and> l \<noteq> Out"
proof -
  let ?start = "[Thread, Host Pause, Thread]" and ?es = "[Thread, Thread, Thread]"
  have k: "quiet_callback plain_system" by (simp add: quiet_callback_def plain_system_def call_back_def)
  have "\<exists>c. perform plain_system (?start @ ?es) (Enter, booted (\<lambda>_. 0xEA) 0x0200) = Some c"
    by (simp add: pause_def)
  then obtain l Q where a: "actions plain_system (Enter, booted (\<lambda>_. 0xEA) 0x0200) (?start @ ?es) (l, Q)"
    by (auto simp: actions_perform)
  have "isRunning Q \<and> l \<noteq> Out" using early_pause_is_lost [OF _ a k] by simp
  moreover have "perform plain_system [Thread, Host Pause, Thread, Thread, Thread, Thread]
      (Enter, booted (\<lambda>_. 0xEA) 0x0200) = Some (l, Q)"
    using a by (simp only: actions_perform append.simps)
  ultimately show ?thesis by blast
qed

end
