(* ===== verification/Debugger_Host.thy ===== *)
theory Debugger_Host
  imports Loaded_System Listing Bus_Simulation
begin

text \<open>
  What the two debuggers of \<^verbatim>\<open>debugger_src\<close> share. Their callbacks are closures that change the front end and not the
  machine, so the state of the front end is kept beside the memory, in the state of a bus that passes all accesses on.
  A step of the processor does not touch it, which is the invariant \<open>hosted\<close> with the front end fixed.
\<close>

section \<open>A bus with a front end beside it\<close>

record 'u hosted =
  ho_bus :: "Memory option"
  ho_ui :: 'u

type_synonym 'u Debugger = "('u hosted, uint64) Processor"

definition Hosted_Bus :: "'u hosted Bus" where
  "Hosted_Bus =
     \<lparr>bus_read = (\<lambda>ad b. case bus_read default_Bus ad (ho_bus b) of (v, m) \<Rightarrow> (v, b\<lparr>ho_bus := m\<rparr>)),
      bus_write = (\<lambda>ad v b. b\<lparr>ho_bus := bus_write default_Bus ad v (ho_bus b)\<rparr>)\<rparr>"

abbreviation hosted_view :: "'u hosted \<Rightarrow> mem" where
  "hosted_view b \<equiv> memory_view (ho_bus b)"

definition ui :: "'u Debugger \<Rightarrow> 'u" where
  "ui P = ho_ui (p_bus P)"

definition with_ui :: "('u \<Rightarrow> 'u) \<Rightarrow> 'u Debugger \<Rightarrow> 'u Debugger" where
  "with_ui f P = P\<lparr>p_bus := (p_bus P)\<lparr>ho_ui := f (ho_ui (p_bus P))\<rparr>\<rparr>"

abbreviation machine :: "'u Debugger \<Rightarrow> machine" where
  "machine P \<equiv> abs_machine hosted_view P"

lemma with_ui_select [simp]:
  "p_regs (with_ui f P) = p_regs P" "p_clock (with_ui f P) = p_clock P"
  "m_running (with_ui f P) = m_running P" "m_stopping (with_ui f P) = m_stopping P"
  "ho_bus (p_bus (with_ui f P)) = ho_bus (p_bus P)" "ui (with_ui f P) = f (ui P)"
  "abs_machine hosted_view (with_ui f P) = abs_machine hosted_view P"
  "m_nmi_pending (with_ui f P) = m_nmi_pending P" "m_irq_line (with_ui f P) = m_irq_line P"
  "isRunning (with_ui f P) = isRunning P"
  by (simp_all add: with_ui_def ui_def abs_machine_def isRunning_def)

lemma ui_frame [simp]:
  "ui (run_start E P) = ui P" "ui (run_end P) = ui P" "ui (pause P) = ui P"
  "ho_bus (p_bus (pause P)) = ho_bus (p_bus P)"
  by (simp_all add: ui_def run_start_def run_end_def pause_def)

interpretation hosted: ram_bus Hosted_Bus hosted_view "\<lambda>b. full_memory (ho_bus b)"
  by unfold_locales (auto simp: Hosted_Bus_def flat.write_view flat.write_inv split: prod.splits
      dest: flat.read_value flat.read_view flat.read_inv)

lemma hosted_ui:
  "bus_read Hosted_Bus ad b = (v, b') \<Longrightarrow> ho_ui b' = ho_ui b"
  "ho_ui (bus_write Hosted_Bus ad v b) = ho_ui b"
  by (auto simp: Hosted_Bus_def split: prod.splits)

interpretation hosted_at: ram_bus Hosted_Bus hosted_view "\<lambda>b. full_memory (ho_bus b) \<and> ho_ui b = u" for u
proof (unfold_locales, goal_cases)
  case (1 b ad v b')
  then show ?case by (blast intro: hosted.read_value)
next
  case (2 b ad v b')
  then show ?case by (blast intro: hosted.read_view)
next
  case (3 b ad v b')
  then show ?case using hosted.read_inv [of b ad v b'] hosted_ui(1) [of ad b v b'] by simp
qed (simp_all add: hosted.write_view hosted.write_inv hosted_ui)

text \<open>The system of a debugger: a \<open>DebugProcessor\<close> with its breakpoints and its two callbacks.\<close>

definition debugger_env ::
  "('u Debugger \<Rightarrow> 'u Debugger) \<Rightarrow> ('u Debugger \<Rightarrow> 'u Debugger) \<Rightarrow> uint16 set \<Rightarrow> ('u hosted, uint64) DebugEnv" where
  "debugger_env instr breakp breakpoints =
     (DebugProcessor_env \<lparr>v_bus = Hosted_Bus, v_clock = default_clock, p_instr_callback = Some instr\<rparr> breakpoints)
       \<lparr>p_breakp_callback := Some breakp\<rparr>"

lemma debugger_env_select [simp]:
  "v_bus (debugger_env f g bps) = Hosted_Bus" "v_clock (debugger_env f g bps) = default_clock"
  "p_instr_callback (debugger_env f g bps) = Some f" "p_breakp_callback (debugger_env f g bps) = Some g"
  "m_breakpoints (debugger_env f g bps) = bps"
  by (simp_all add: debugger_env_def DebugProcessor_env_def Env.extend_def DebugEnv.fields_def)

text \<open>A step before its callback: the machine makes a step, and the front end stays.\<close>

lemma debugger_core:
  fixes P :: "'u Debugger"
  assumes "v_bus E = Hosted_Bus" and "full_memory (ho_bus (p_bus P))"
  shows "machine (step_core E P) = snd (machine_step (machine P))"
    and "full_memory (ho_bus (p_bus (step_core E P)))" and "ui (step_core E P) = ui P"
proof -
  have "full_memory (ho_bus (p_bus P)) \<and> ho_ui (p_bus P) = ho_ui (p_bus P)"
    using assms(2) by simp
  note r = hosted_at.step_core_refines [OF assms(1), of P "ho_ui (p_bus P)", OF this]
  show "machine (step_core E P) = snd (machine_step (machine P))"
    "full_memory (ho_bus (p_bus (step_core E P)))" "ui (step_core E P) = ui P"
    using r by (simp_all add: step_result_def ui_def)
qed

text \<open>A callback of a debugger changes the front end and may pause.\<close>

lemma debugger_watching:
  assumes "\<And>P. machine (f P) = machine P" and "\<And>P. ho_bus (p_bus (f P)) = ho_bus (p_bus P)"
    and "\<And>P. p_clock (f P) = p_clock P" and "\<And>P. m_running (f P) = m_running P"
    and "\<And>P. m_stopping (f P) \<longleftrightarrow> m_stopping P \<or> watch P"
  shows "watching_callback Hosted_Bus hosted_view (\<lambda>b. full_memory (ho_bus b))
    (Env.truncate (debugger_env f g bps)) watch"
  using assms by (simp add: watching_callback_def watching_callback_axioms_def hosted.ram_bus_axioms call_back_def)

section \<open>The image that is preloaded\<close>

text \<open>The file is an argument: its bytes, or nothing when it cannot be opened.\<close>

definition loadTestFile :: "uint8 list option \<Rightarrow> Memory \<Rightarrow> Memory option" where
  "loadTestFile is mem =
     (case is of
        None \<Rightarrow> Some mem
      | Some bytes \<Rightarrow>
          let dest = take 0x10000 bytes;
              len = min (int (length bytes)) 0x10000
          in Memory_write_bulk (Some dest) len 0 mem)"

lemma loadTestFile_full:
  obtains mem where "loadTestFile is (Memory_new 256) = Some mem" and "full_memory (Some mem)"
proof (cases "is")
  case None
  then show thesis using that new_memory_full by (simp add: loadTestFile_def)
next
  case (Some bytes)
  let ?n = "min (length bytes) 0x10000"
  have "unat (0 :: uint16) + ?n \<le> 65536" "?n \<le> length (take 0x10000 bytes)" by simp_all
  then obtain M where "Memory_write_bulk (Some (take 0x10000 bytes)) (int ?n) 0 (Memory_new 256) = Some M"
    "full_memory (Some M)"
    using load_bytes [OF new_memory_full] by metis
  then show thesis using that Some by (simp add: loadTestFile_def Let_def of_nat_min)
qed

section \<open>The rest of the numbers\<close>

text \<open>
  \<open>stoi\<close> and \<open>stoul\<close> in base 16: blanks, a sign, a prefix \<open>0x\<close> and the longest run of digits. No digit is
  an exception, and a number that does not fit the type is one too; both are \<open>None\<close>. \<open>stoul\<close> negates in the
  unsigned type, of 64 bits on Linux and 32 on Windows.
\<close>

definition hex_prefix :: "string \<Rightarrow> string" where
  "hex_prefix s =
     (case s of
        c # x # d # cs \<Rightarrow> if c = CHR ''0'' \<and> tolower x = CHR ''x'' \<and> isxdigit d then d # cs else s
      | _ \<Rightarrow> s)"

definition signed_hex :: "string \<Rightarrow> (bool \<times> nat) option" where
  "signed_hex s =
     (let s = dropWhile isspace s;
          (neg, s) = (case s of
             [] \<Rightarrow> (False, s)
           | c # cs \<Rightarrow> if c = CHR ''-'' then (True, cs) else if c = CHR ''+'' then (False, cs) else (False, s));
          s = hex_prefix s
      in if s \<noteq> [] \<and> isxdigit (hd s) then Some (neg, read_digits 16 isxdigit s) else None)"

definition stoi16 :: "string \<Rightarrow> int option" where
  "stoi16 s =
     (case signed_hex s of
        None \<Rightarrow> None
      | Some (neg, n) \<Rightarrow>
          let i = (if neg then - int n else int n)
          in if - (2 ^ 31) \<le> i \<and> i < 2 ^ 31 then Some i else None)"

definition stoul16 :: "string \<Rightarrow> int option" where
  "stoul16 s =
     (case signed_hex s of
        None \<Rightarrow> None
      | Some (neg, n) \<Rightarrow>
          if int n < 2 ^ 32 then Some (if neg then (- int n) mod 2 ^ 32 else int n) else None)"

text \<open>A text of hexadecimal digits only is its value.\<close>

lemma signed_hex_digits:
  assumes "s \<noteq> []" and "list_all isxdigit s"
  shows "signed_hex s = Some (False, read_digits 16 isxdigit s)"
proof -
  have no_prefix: "hex_prefix s = s"
    using assms(2) by (auto simp: hex_prefix_def ctype_defs split: list.splits if_splits)
  obtain c cs where s: "s = c # cs" "isxdigit c" using assms by (cases s) auto
  then have "\<not> isspace c" "c \<noteq> CHR ''-''" "c \<noteq> CHR ''+''"
    by (auto simp: ctype_defs split: if_splits)
  then show ?thesis
    using no_prefix s by (simp add: signed_hex_def Let_def)
qed

end
