(* ===== verification/Linux_Debugger.thy ===== *)
theory Linux_Debugger
  imports Debugger_Host
begin

text \<open>
  \<^verbatim>\<open>debugger_src/test_6502_linux.cpp\<close>: the class \<open>LinuxDebugger\<close> and what its main loop draws. \<open>emuMutex\<close> is a
  \<open>std::mutex\<close>, which is not recursive: a thread that locks it again waits for itself for ever, which is the flag
  \<open>blocked\<close>, after which nothing of that thread runs. The calls of the ncurses library are kept as a list.
\<close>

section \<open>The class\<close>

record linux_ui =
  running :: bool
  emuMutex :: bool
  previousPcs :: "uint16 list"
  blocked :: bool

type_synonym LinuxDebugger = "linux_ui Debugger"

text \<open>A \<open>lock_guard\<close> in the thread that may hold the mutex already, its end, and what runs in between.\<close>

definition lock :: "LinuxDebugger \<Rightarrow> LinuxDebugger" where
  "lock P = (if emuMutex (ui P) then with_ui (\<lambda>u. u\<lparr>blocked := True\<rparr>) P
     else with_ui (\<lambda>u. u\<lparr>emuMutex := True\<rparr>) P)"

definition unless_blocked :: "(LinuxDebugger \<Rightarrow> LinuxDebugger) \<Rightarrow> LinuxDebugger \<Rightarrow> LinuxDebugger" where
  "unless_blocked f P = (if blocked (ui P) then P else f P)"

definition unlock :: "LinuxDebugger \<Rightarrow> LinuxDebugger" where
  "unlock = unless_blocked (with_ui (\<lambda>u. u\<lparr>emuMutex := False\<rparr>))"

definition push_pc :: "uint16 \<Rightarrow> uint16 list \<Rightarrow> uint16 list" where
  "push_pc pc h = (let h = pc # h in if 10 < length h then butlast h else h)"

definition stopCallback :: "LinuxDebugger \<Rightarrow> LinuxDebugger" where
  "stopCallback P = with_ui (\<lambda>u. u\<lparr>running := False\<rparr>) P"

definition runCallback :: "LinuxDebugger \<Rightarrow> LinuxDebugger" where
  "runCallback P =
     (if previousPcs (ui P) ! 0 \<noteq> reg_pc (p_regs P) then
        let P = lock P;
            P = unless_blocked (with_ui (\<lambda>u. u\<lparr>previousPcs := push_pc (reg_pc (p_regs P)) (previousPcs u)\<rparr>)) P
        in unlock P
      else P)"

definition linux_env :: "uint16 set \<Rightarrow> (linux_ui hosted, uint64) DebugEnv" where
  "linux_env breakpoints = debugger_env runCallback stopCallback breakpoints"

definition fill_history :: "LinuxDebugger \<Rightarrow> LinuxDebugger" where
  "fill_history P = with_ui (\<lambda>u. u\<lparr>previousPcs := replicate 6 (reg_pc (p_regs P))\<rparr>) P"

definition LinuxDebugger_new :: "uint8 list option \<Rightarrow> LinuxDebugger option" where
  "LinuxDebugger_new is =
     (case loadTestFile is (Memory_new 256) of
        None \<Rightarrow> None
      | Some mem \<Rightarrow>
          let u = \<lparr>running = False, emuMutex = False, previousPcs = [], blocked = False\<rparr>;
              P = Processor_new \<lparr>ho_bus = Bus_connect (Some mem) Bus_new, ho_ui = u\<rparr> Registers_zero default_clock_new
          in map_option fill_history
            (Emulator_start (DebugProcessor_run (linux_env {})) (Env.truncate (linux_env {})) False P))"

text \<open>\<open>run\<close> with the whole life of the thread it starts, when no other method is called meanwhile.\<close>

definition LinuxDebugger_run :: "uint16 set \<Rightarrow> LinuxDebugger \<Rightarrow> LinuxDebugger option" where
  "LinuxDebugger_run breakpoints P =
     (if running (ui P) then Some P
      else
        let P = with_ui (\<lambda>u. u\<lparr>running := True\<rparr>) P
        in map_option (with_ui (\<lambda>u. u\<lparr>running := False\<rparr>)) (DebugProcessor_run (linux_env breakpoints) P))"

text \<open>\<open>pause\<close> joins the thread; \<open>others\<close> is what that thread does meanwhile.\<close>

definition LinuxDebugger_pause :: "(LinuxDebugger \<Rightarrow> LinuxDebugger) \<Rightarrow> LinuxDebugger \<Rightarrow> LinuxDebugger option" where
  "LinuxDebugger_pause others P =
     map_option (with_ui (\<lambda>u. u\<lparr>running := False\<rparr>)) (while_option isRunning others (pause P))"

definition LinuxDebugger_step :: "uint16 set \<Rightarrow> LinuxDebugger \<Rightarrow> LinuxDebugger" where
  "LinuxDebugger_step breakpoints P =
     (if running (ui P) then P
      else
        let P = lock P;
            P = unless_blocked (step (Env.truncate (linux_env breakpoints))) P;
            P = unless_blocked runCallback P
        in unlock P)"

definition LinuxDebugger_reset ::
  "(LinuxDebugger \<Rightarrow> LinuxDebugger) \<Rightarrow> uint16 set \<Rightarrow> LinuxDebugger \<Rightarrow> LinuxDebugger option" where
  "LinuxDebugger_reset others breakpoints P =
     (case LinuxDebugger_pause others P of
        None \<Rightarrow> None
      | Some P \<Rightarrow>
          let P = lock P
          in if blocked (ui P) then Some P
             else map_option (\<lambda>P. unlock (fill_history P))
               (Emulator_reset (DebugProcessor_run (linux_env breakpoints)) others
                 (Env.truncate (linux_env breakpoints)) False P))"

definition LinuxDebugger_stop :: "LinuxDebugger \<Rightarrow> LinuxDebugger" where
  "LinuxDebugger_stop P = pause P"

text \<open>The key \<open>b\<close>: the text typed is an address, or nothing happens.\<close>

definition key_b :: "string \<Rightarrow> (linux_ui hosted, uint64) DebugEnv \<Rightarrow> (linux_ui hosted, uint64) DebugEnv" where
  "key_b str E =
     (case stoi16 str of
        None \<Rightarrow> E
      | Some i \<Rightarrow> snd (addBreakpoint (word_of_int i) E))"

section \<open>What is drawn\<close>

datatype attr = A_BOLD | A_REVERSE

datatype draw = Mvprintw int int string | Printw string | Attron attr | Attroff attr

definition FLAGS_NAMES :: "string list" where
  "FLAGS_NAMES = [''C'', ''Z'', ''I'', ''D'', ''B'', ''-'', ''V'', ''N'']"

definition X2 :: "uint8 \<Rightarrow> string" where
  "X2 v = setw0 2 (map toupper (show_hex (unat v)))"

definition X4 :: "uint16 \<Rightarrow> string" where
  "X4 v = setw0 4 (map toupper (show_hex (unat v)))"

definition draw_flag :: "Registers \<Rightarrow> nat \<Rightarrow> draw list" where
  "draw_flag regs i =
     (if getStatus (push_bit i 1) regs then [Attron A_BOLD] else []) @ [Printw (FLAGS_NAMES ! i)] @
     (if getStatus (push_bit i 1) regs then [Attroff A_BOLD] else []) @ [Printw '' '']"

definition draw_registers :: "LinuxDebugger \<Rightarrow> int \<Rightarrow> int \<Rightarrow> draw list" where
  "draw_registers dbg start_y start_x =
     (let regs = p_regs dbg
      in [Mvprintw start_y start_x ''Registers:'',
          Mvprintw (start_y + 1) start_x
            (''A: '' @ X2 (reg_a regs) @ ''  X: '' @ X2 (reg_x regs) @ ''  Y: '' @ X2 (reg_y regs)),
          Mvprintw (start_y + 2) start_x (''P: '' @ X4 (reg_pc regs) @ ''  S: '' @ X2 (reg_sp regs)),
          Mvprintw (start_y + 3) start_x (''F: '' @ X2 (reg_sr regs) @ '' ''),
          Printw ''[''] @
         concat (map (draw_flag regs) [7, 6, 5, 4, 3, 2, 1, 0]) @
         [Printw '']'',
          Mvprintw (start_y + 4) start_x (''Cycles: '' @ show_dec (unat (default_cycles (p_clock dbg))))])"

text \<open>The first reading of a line is overwritten by the second, which also gives the next address.\<close>

fun draw_lines :: "nat \<Rightarrow> nat \<Rightarrow> int \<Rightarrow> int \<Rightarrow> int \<Rightarrow> uint16 \<Rightarrow> Memory option \<Rightarrow> draw list \<times> Memory option" where
  "draw_lines 0 i line start_y start_x temp_pc bus = ([], bus)"
| "draw_lines (Suc n) i line start_y start_x temp_pc bus =
     (let on = (if i = 0 then [Attron A_REVERSE] else []);
          (dis, bus) = unasm_line_addr default_Bus temp_pc bus;
          temp_regs = Registers_zero\<lparr>reg_pc := temp_pc\<rparr>;
          (dis, temp_regs, bus) = unasm_line default_Bus temp_regs bus;
          off = (if i = 0 then [Attroff A_REVERSE] else []);
          (more, bus) = draw_lines n (i + 1) (line + 1) start_y start_x (reg_pc temp_regs) bus
      in (on @ [Mvprintw (start_y + line) start_x (X4 temp_pc @ '': '' @ dis)] @ off @ more, bus))"

definition draw_disassembly :: "LinuxDebugger \<Rightarrow> int \<Rightarrow> int \<Rightarrow> draw list \<times> Memory option" where
  "draw_disassembly dbg start_y start_x =
     (let (lines, bus) = draw_lines 10 0 1 start_y start_x (reg_pc (p_regs dbg)) (ho_bus (p_bus dbg))
      in (Mvprintw start_y start_x ''Disassembly:'' # lines, bus))"

definition printable :: "uint8 \<Rightarrow> char" where
  "printable v = (if 32 \<le> v \<and> v \<le> 126 then char_of (unat v) else CHR ''.'')"

definition draw_memory_row :: "LinuxDebugger \<Rightarrow> int \<Rightarrow> int \<Rightarrow> nat \<Rightarrow> draw list" where
  "draw_memory_row dbg start_y start_x r =
     (let base_addr = (of_nat (r * 16) :: uint16);
          val = (\<lambda>c. fst (Bus_read (base_addr + of_nat c) (ho_bus (p_bus dbg))))
      in [Mvprintw (start_y + 1 + int r) start_x (X4 base_addr @ '': '')] @
         map (\<lambda>c. Printw (X2 (val c) @ '' '')) [0..<16] @ [Printw '' | ''] @
         map (\<lambda>c. Printw [printable (val c)]) [0..<16])"

definition draw_memory :: "LinuxDebugger \<Rightarrow> int \<Rightarrow> int \<Rightarrow> nat \<Rightarrow> draw list" where
  "draw_memory dbg start_y start_x rows =
     Mvprintw start_y start_x ''Memory (Zero Page & Stack):'' #
     concat (map (draw_memory_row dbg start_y start_x) [0..<rows])"

text \<open>The set of breakpoints is iterated in an order of the library's, which is the argument.\<close>

definition draw_breakpoints :: "uint16 list \<Rightarrow> int \<Rightarrow> int \<Rightarrow> draw list" where
  "draw_breakpoints bps start_y start_x =
     Mvprintw start_y start_x ''Breakpoints:'' #
     map (\<lambda>(line, bp). Mvprintw (start_y + 1 + int line) start_x (''- '' @ X4 bp)) (List.enumerate 0 bps)"

definition draw_controls :: "int \<Rightarrow> draw list" where
  "draw_controls y =
     [Mvprintw y 2 ''[F6] Step  [F8] Run/Pause  [F10] Reset  [q] Quit  [b] Add Breakpoint'']"

section \<open>The history\<close>

definition record_pc :: "uint16 \<Rightarrow> uint16 list \<Rightarrow> uint16 list" where
  "record_pc pc h = (if h ! 0 \<noteq> pc then push_pc pc h else h)"

text \<open>What the history is for: the last ten program counters, newest first, without immediate repetitions.\<close>

definition trail :: "uint16 list \<Rightarrow> uint16 list \<Rightarrow> uint16 list" where
  "trail pcs h = take 10 (remdups_adj (rev pcs @ [hd h]) @ tl h)"

lemma push_pc_take: "length h \<le> 10 \<Longrightarrow> push_pc pc h = take 10 (pc # h)"
  by (cases "length h = 10") (simp_all add: push_pc_def butlast_conv_take Let_def)

lemma record_pc_trail:
  assumes "h \<noteq> []" and "length h \<le> 10"
  shows "foldl (\<lambda>h pc. record_pc pc h) h pcs = trail pcs h"
proof (induction pcs rule: rev_induct)
  case Nil
  show ?case using assms by (cases h) (simp_all add: trail_def)
next
  case (snoc pc pcs)
  define x where "x = hd (rev pcs @ [hd h])"
  define R where "R = tl (remdups_adj (rev pcs @ [hd h]))"
  have R: "remdups_adj (rev pcs @ [hd h]) = x # R"
    unfolding x_def R_def by (metis append_is_Nil_conv hd_remdups_adj list.collapse list.distinct(1) remdups_adj_Nil_iff)
  have "trail pcs h ! 0 = x" "trail pcs h = take 10 (x # R @ tl h)"
    by (simp_all add: trail_def R)
  moreover have "remdups_adj (pc # rev pcs @ [hd h]) = (if pc = x then x # R else pc # x # R)"
    using R by (cases "rev pcs @ [hd h]") (auto simp: x_def remdups_adj_Cons split: list.splits)
  moreover have "push_pc pc (trail pcs h) = take 10 (pc # trail pcs h)"
    by (rule push_pc_take) (simp add: trail_def)
  ultimately show ?case
    using snoc.IH by (simp add: record_pc_def) (simp add: trail_def min_def)
qed

section \<open>The methods\<close>

lemmas guard_defs = lock_def unlock_def unless_blocked_def

lemma runCallback_frame [simp]:
  "machine (runCallback P) = machine P" "ho_bus (p_bus (runCallback P)) = ho_bus (p_bus P)"
  "p_clock (runCallback P) = p_clock P" "m_running (runCallback P) = m_running P"
  "m_stopping (runCallback P) = m_stopping P" "p_regs (runCallback P) = p_regs P"
  by (simp_all add: runCallback_def guard_defs Let_def)

lemma runCallback_free:
  assumes "\<not> emuMutex (ui P)" and "\<not> blocked (ui P)"
  shows "ui (runCallback P) = (ui P)\<lparr>previousPcs := record_pc (reg_pc (p_regs P)) (previousPcs (ui P))\<rparr>"
  using assms by (simp add: runCallback_def guard_defs record_pc_def Let_def)

lemma runCallback_held:
  assumes "emuMutex (ui P)"
  shows "ui (runCallback P) = (if previousPcs (ui P) ! 0 = reg_pc (p_regs P) then ui P
    else (ui P)\<lparr>blocked := True\<rparr>)"
  using assms by (simp add: runCallback_def guard_defs Let_def)

lemma linux_watching: "watching_callback Hosted_Bus hosted_view (\<lambda>b. full_memory (ho_bus b))
    (Env.truncate (linux_env bps)) (\<lambda>_. False)"
  unfolding linux_env_def by (rule debugger_watching) simp_all

interpretation linux: watching_callback Hosted_Bus hosted_view "\<lambda>b. full_memory (ho_bus b)"
    "Env.truncate (linux_env bps)" "\<lambda>_. False" for bps
  by (rule linux_watching)

lemma linux_env_select [simp]:
  "v_bus (linux_env bps) = Hosted_Bus" "v_clock (linux_env bps) = default_clock"
  "p_instr_callback (linux_env bps) = Some runCallback" "p_breakp_callback (linux_env bps) = Some stopCallback"
  "m_breakpoints (linux_env bps) = bps"
  by (simp_all add: linux_env_def)

lemma linux_step_eq: "step (Env.truncate (linux_env bps)) P = runCallback (step_core (Env.truncate (linux_env bps)) P)"
  by (simp add: step_def call_back_def)

lemma linux_core:
  assumes "full_memory (ho_bus (p_bus P))"
  shows "machine (step_core (Env.truncate (linux_env bps)) P) = snd (machine_step (machine P))"
    and "full_memory (ho_bus (p_bus (step_core (Env.truncate (linux_env bps)) P)))"
    and "ui (step_core (Env.truncate (linux_env bps)) P) = ui P"
    and "reg_pc (p_regs (step_core (Env.truncate (linux_env bps)) P)) = cPC (mc_cpu (snd (machine_step (machine P))))"
  using debugger_core [of "Env.truncate (linux_env bps)" P] assms
    abs_machine_pc [of "step_core (Env.truncate (linux_env bps)) P" hosted_view]
  by simp_all

lemma linux_step_result:
  assumes "full_memory (ho_bus (p_bus P))" and "\<not> running (ui P)" and "\<not> emuMutex (ui P)" and "\<not> blocked (ui P)"
  shows "(let Q = LinuxDebugger_step bps P in
    machine Q = snd (machine_step (machine P)) \<and>
    (if cPC (mc_cpu (snd (machine_step (machine P)))) = previousPcs (ui P) ! 0 then ui Q = ui P
     else blocked (ui Q) \<and> emuMutex (ui Q)))"
proof -
  let ?L = "lock P" and ?E = "Env.truncate (linux_env bps)"
  have L: "full_memory (ho_bus (p_bus ?L))" "machine ?L = machine P"
    "ui ?L = (ui P)\<lparr>emuMutex := True\<rparr>"
    using assms by (simp_all add: lock_def)
  note c = linux_core [OF L(1), of bps]
  have held: "emuMutex (ui (step_core ?E ?L))" by (simp add: c(3) L(3))
  note s = runCallback_held [OF held]
  show ?thesis
    using assms c s L runCallback_held [of "runCallback (step_core ?E ?L)"]
    by (simp add: LinuxDebugger_step_def linux_step_eq unless_blocked_def unlock_def Let_def)
qed

text \<open>
  C38: The step key of the Linux debugger hangs. \<open>step()\<close> holds the mutex while the processor calls the
  instruction callback, and the callback locks the same mutex whenever the program counter is not the newest
  entry of the history. So a step returns only when the instruction comes back to that address; every other step
  leaves the thread waiting for itself with the mutex locked, though the instruction has been executed. A
  step that returns records nothing.
\<close>

theorem linux_step_deadlocks:
  assumes "full_memory (ho_bus (p_bus P))" and "\<not> running (ui P)" and "\<not> emuMutex (ui P)" and "\<not> blocked (ui P)"
  shows "(let Q = LinuxDebugger_step bps P in
    machine Q = snd (machine_step (machine P)) \<and>
    (if cPC (mc_cpu (snd (machine_step (machine P)))) = previousPcs (ui P) ! 0 then ui Q = ui P
     else blocked (ui Q) \<and> emuMutex (ui Q)))"
  using assms by (rule linux_step_result)

text \<open>A history of six fives, and a step over a \<open>NOP\<close>.\<close>

definition sample_debugger :: "uint16 list \<Rightarrow> LinuxDebugger" where
  "sample_debugger h = Processor_new
     \<lparr>ho_bus = Some (ram_of (\<lambda>_. 0xEA)), ho_ui = \<lparr>running = False, emuMutex = False, previousPcs = h, blocked = False\<rparr>\<rparr>
     (Registers_zero\<lparr>reg_pc := 5\<rparr>) 0"

lemma linux_step_deadlocks_witness:
  "blocked (ui (LinuxDebugger_step {} (sample_debugger (replicate 6 5))))"
proof -
  let ?P = "sample_debugger (replicate 6 5)"
  have view: "memory_view (Some (ram_of (\<lambda>_. 0xEA))) = (\<lambda>_. 0xEA)"
    by (auto simp: memory_view_def Bus_read_def ram_of_read)
  have P: "full_memory (ho_bus (p_bus ?P))" "ui ?P = \<lparr>running = False, emuMutex = False, previousPcs = replicate 6 5, blocked = False\<rparr>"
    by (simp_all add: sample_debugger_def Processor_new_def ui_def full_memory_def ram_of_def mem_ok_def MAX_BYTES_PER_PAGE_def)
  have "instr_of 0xEA = Inst NOP_Impl Null 2"
    by (simp add: instr_of_def instruction_table_def row_defs)
  then have "cPC (mc_cpu (snd (machine_step (machine ?P)))) = 6"
    by (simp add: machine_step_def take_instruction_def isa_step_def implied_def Let_def sample_debugger_def
        Processor_new_def abs_machine_def view)
  then show ?thesis
    using linux_step_deadlocks [of ?P "{}"] P by (simp add: Let_def)
qed

section \<open>A run\<close>

definition pcs_to :: "nat \<Rightarrow> machine \<Rightarrow> uint16 list" where
  "pcs_to k s = map (\<lambda>j. cPC (mc_cpu (machine_at (Suc j) s))) [0..<k]"

lemma linux_steps:
  fixes P :: LinuxDebugger
  assumes "full_memory (ho_bus (p_bus P))" and "\<not> emuMutex (ui P)" and "\<not> blocked (ui P)"
    and "previousPcs (ui P) \<noteq> []" and "length (previousPcs (ui P)) \<le> 10"
  shows "ui ((step (Env.truncate (linux_env bps)) ^^ k) P)
    = (ui P)\<lparr>previousPcs := trail (pcs_to k (machine P)) (previousPcs (ui P))\<rparr>"
proof -
  let ?E = "Env.truncate (linux_env bps)"
  let ?S = "\<lambda>k. (step ?E ^^ k) P"
  have "ui (?S k) = (ui P)\<lparr>previousPcs := foldl (\<lambda>h pc. record_pc pc h) (previousPcs (ui P)) (pcs_to k (machine P))\<rparr>"
  proof (induction k)
    case 0
    then show ?case by (simp add: pcs_to_def)
  next
    case (Suc k)
    have S: "full_memory (ho_bus (p_bus (?S k)))" "machine (?S k) = machine_at k (machine P)"
      using linux.steps_state(1,2) [OF assms(1), where bps = bps and k = k] by simp_all
    note c = linux_core [OF S(1), of bps]
    have free: "\<not> emuMutex (ui (step_core ?E (?S k)))" "\<not> blocked (ui (step_core ?E (?S k)))"
      using assms(2,3) by (simp_all add: c(3) Suc.IH)
    have "ui (?S (Suc k)) = (ui (?S k))\<lparr>previousPcs :=
        record_pc (cPC (mc_cpu (machine_at (Suc k) (machine P)))) (previousPcs (ui (?S k)))\<rparr>"
      using runCallback_free [OF free] by (simp add: linux_step_eq c(3,4) S(2) machine_at_Suc)
    then show ?case by (simp add: Suc.IH pcs_to_def)
  qed
  then show ?thesis using record_pc_trail [OF assms(4,5)] by simp
qed

lemma linux_run_result:
  fixes P :: LinuxDebugger
  assumes "full_memory (ho_bus (p_bus P))" and "\<not> running (ui P)" and "\<not> emuMutex (ui P)" and "\<not> blocked (ui P)"
    and "previousPcs (ui P) \<noteq> []" and "length (previousPcs (ui P)) \<le> 10"
  shows "if \<exists>k. cPC (mc_cpu (machine_at (Suc k) (machine P))) \<in> bps
    then \<exists>Q n. LinuxDebugger_run bps P = Some Q \<and>
      n = (LEAST k. cPC (mc_cpu (machine_at (Suc k) (machine P))) \<in> bps) \<and>
      machine Q = machine_at (Suc n) (machine P) \<and> \<not> isRunning Q \<and>
      ui Q = (ui P)\<lparr>previousPcs := trail (pcs_to (Suc n) (machine P)) (previousPcs (ui P))\<rparr> \<and>
      previousPcs (ui Q) \<noteq> [] \<and> length (previousPcs (ui Q)) \<le> 10 \<and> full_memory (ho_bus (p_bus Q))
    else LinuxDebugger_run bps P = None"
proof -
  let ?E = "Env.truncate (linux_env bps)" and ?P = "with_ui (\<lambda>u. u\<lparr>running := True\<rparr>) P"
  let ?S = "\<lambda>k. (step ?E ^^ k) (run_start ?E ?P)"
  define hit where "hit k \<longleftrightarrow> cPC (mc_cpu (machine_at (Suc k) (machine P))) \<in> bps" for k
  let ?n = "LEAST k. hit k"
  let ?Q = "?S (Suc ?n)"
  have P: "full_memory (ho_bus (p_bus ?P))" using assms(1) by simp
  have machine: "machine (?S k) = machine_at k (machine P)" for k
    using linux.run_state(2) [OF P, where bps = bps and k = k] by simp
  have bp: "at_breakpoint (linux_env bps) (?S (Suc k)) \<longleftrightarrow> hit k" for k
    unfolding at_breakpoint_def hit_def abs_machine_pc [where view = hosted_view] machine by simp
  have eq: "DebugProcessor_run (linux_env bps) ?P = (if \<exists>k. hit k
      then Some (run_end (if at_breakpoint (linux_env bps) ?Q then call_back (p_breakp_callback (linux_env bps)) ?Q else ?Q))
      else None)"
    using debug_run_eq [OF linux_watching P] by (simp only: bp Let_def simp_thms)
  have ui: "ui (?S k) = (ui ?P)\<lparr>previousPcs := trail (pcs_to k (machine P)) (previousPcs (ui P))\<rparr>" for k
    using linux_steps [of "run_start ?E ?P" k bps] assms by simp
  have hit: "at_breakpoint (linux_env bps) ?Q" if "\<exists>k. hit k"
    unfolding bp using that by (rule LeastI_ex)
  have trail: "trail pcs (previousPcs (ui P)) \<noteq> []" "length (trail pcs (previousPcs (ui P))) \<le> 10" for pcs
    by (simp_all add: trail_def)
  show ?thesis
  proof (cases "\<exists>k. hit k")
    case True
    define Q where "Q = with_ui (\<lambda>u. u\<lparr>running := False\<rparr>) (run_end (stopCallback ?Q))"
    have "LinuxDebugger_run bps P = Some Q"
      using True hit assms(2) by (simp add: LinuxDebugger_run_def eq Q_def call_back_def del: funpow.simps)
    moreover have "machine Q = machine_at (Suc ?n) (machine P)" "\<not> isRunning Q"
      using machine [of "Suc ?n"] by (simp_all add: Q_def stopCallback_def del: funpow.simps)
    moreover have "ui Q = (ui P)\<lparr>previousPcs := trail (pcs_to (Suc ?n) (machine P)) (previousPcs (ui P))\<rparr>"
      using assms(2) by (simp add: Q_def stopCallback_def ui del: funpow.simps)
    moreover have "full_memory (ho_bus (p_bus Q))"
      using linux.steps_state(2) [of "run_start ?E ?P", where bps = bps and k = "Suc ?n"] P
      by (simp add: Q_def stopCallback_def del: funpow.simps)
    ultimately show ?thesis
      using True trail unfolding hit_def [symmetric] by simp
  next
    case False
    then show ?thesis
      using assms(2) unfolding hit_def [symmetric] by (simp add: LinuxDebugger_run_def eq)
  qed
qed

text \<open>
  C37: A run of the Linux debugger stops at the first breakpoint that execution comes to after one step or more,
  or never; then the machine is at rest on it, the mutex is free, and the history has become the trail of the program
  counters of the run: newest first, without immediate repetitions, then what was there before, ten
  entries at most and never none.
\<close>

theorem linux_run_records:
  fixes P :: LinuxDebugger
  assumes "full_memory (ho_bus (p_bus P))" and "\<not> running (ui P)" and "\<not> emuMutex (ui P)" and "\<not> blocked (ui P)"
    and "previousPcs (ui P) \<noteq> []" and "length (previousPcs (ui P)) \<le> 10"
  shows "if \<exists>k. cPC (mc_cpu (machine_at (Suc k) (machine P))) \<in> bps
    then \<exists>Q n. LinuxDebugger_run bps P = Some Q \<and>
      n = (LEAST k. cPC (mc_cpu (machine_at (Suc k) (machine P))) \<in> bps) \<and>
      machine Q = machine_at (Suc n) (machine P) \<and> \<not> isRunning Q \<and>
      ui Q = (ui P)\<lparr>previousPcs := trail (pcs_to (Suc n) (machine P)) (previousPcs (ui P))\<rparr> \<and>
      previousPcs (ui Q) \<noteq> [] \<and> length (previousPcs (ui Q)) \<le> 10 \<and> full_memory (ho_bus (p_bus Q))
    else LinuxDebugger_run bps P = None"
  using assms by (rule linux_run_result)

lemma linux_run_records_witness:
  "\<exists>Q. LinuxDebugger_run {7} (sample_debugger [5]) = Some Q \<and> previousPcs (ui Q) = [7, 6, 5]"
proof -
  let ?P = "sample_debugger [5]"
  have view: "memory_view (Some (ram_of (\<lambda>_. 0xEA))) = (\<lambda>_. 0xEA)"
    by (auto simp: memory_view_def Bus_read_def ram_of_read)
  have P: "full_memory (ho_bus (p_bus ?P))" "ui ?P = \<lparr>running = False, emuMutex = False, previousPcs = [5], blocked = False\<rparr>"
    by (simp_all add: sample_debugger_def Processor_new_def ui_def full_memory_def ram_of_def mem_ok_def MAX_BYTES_PER_PAGE_def)
  have "instr_of 0xEA = Inst NOP_Impl Null 2"
    by (simp add: instr_of_def instruction_table_def row_defs)
  then have pcs: "cPC (mc_cpu (machine_at (Suc 0) (machine ?P))) = 6"
    "cPC (mc_cpu (machine_at (Suc (Suc 0)) (machine ?P))) = 7"
    by (simp_all add: machine_at_Suc machine_step_def take_instruction_def isa_step_def implied_def Let_def
        sample_debugger_def Processor_new_def abs_machine_def view)
  have "(LEAST k. cPC (mc_cpu (machine_at (Suc k) (machine ?P))) \<in> {7}) = Suc 0"
  proof (rule Least_equality)
    show "Suc 0 \<le> k" if "cPC (mc_cpu (machine_at (Suc k) (machine ?P))) \<in> {7}" for k
      using that pcs(1) by (cases k) simp_all
  qed (use pcs in simp)
  moreover have "\<exists>k. cPC (mc_cpu (machine_at (Suc k) (machine ?P))) \<in> {7}" using pcs(2) by blast
  moreover have "trail (pcs_to (Suc (Suc 0)) (machine ?P)) [5] = [7, 6, 5]"
    using pcs by (simp add: trail_def pcs_to_def)
  ultimately show ?thesis
    using linux_run_records [of ?P "{7}"] P by (auto simp del: funpow.simps)
qed

section \<open>The debugger as it starts\<close>

text \<open>The constructor succeeds and meets the assumptions of the theorems, with the reset vector as its history.\<close>

lemma LinuxDebugger_new_ready:
  obtains P where "LinuxDebugger_new is = Some P" and "full_memory (ho_bus (p_bus P))"
    and "machine P = reset_machine (hosted_view (p_bus P))"
    and "ui P = \<lparr>running = False, emuMutex = False, previousPcs = replicate 6 (cPC (mc_cpu (machine P))), blocked = False\<rparr>"
    and "\<not> isRunning P"
proof -
  define u where "u = \<lparr>running = False, emuMutex = False, previousPcs = [], blocked = False\<rparr>"
  obtain mem where mem: "loadTestFile is (Memory_new 256) = Some mem" "full_memory (Some mem)"
    by (rule loadTestFile_full)
  let ?P = "Processor_new \<lparr>ho_bus = Some mem, ho_ui = u\<rparr> Registers_zero default_clock_new"
  have "full_memory (ho_bus (p_bus ?P)) \<and> ho_ui (p_bus ?P) = u"
    using mem(2) by (simp add: Processor_new_def)
  moreover have "counting_clock (v_clock (Env.truncate (linux_env {})))"
    by (simp add: default.counting_clock_axioms)
  ultimately obtain Q where Q: "Emulator_start (DebugProcessor_run (linux_env {})) (Env.truncate (linux_env {})) False ?P = Some Q"
    "machine Q = reset_machine (hosted_view (p_bus ?P))" "full_memory (ho_bus (p_bus Q)) \<and> ho_ui (p_bus Q) = u"
    "m_running Q = m_running ?P"
    by (rule hosted_at.start_refines [rotated]) simp_all
  have view: "hosted_view (p_bus ?P) = hosted_view (p_bus Q)"
    using arg_cong [OF Q(2), of mc_mem] by (simp add: abs_machine_def reset_machine_def)
  show thesis
  proof (rule that)
    show "LinuxDebugger_new is = Some (fill_history Q)"
      using Q(1) mem(1) by (simp add: LinuxDebugger_new_def Bus_connect_def u_def Let_def)
    show "full_memory (ho_bus (p_bus (fill_history Q)))"
      using Q(3) by (simp add: fill_history_def)
    show "machine (fill_history Q) = reset_machine (hosted_view (p_bus (fill_history Q)))"
      using Q(2) view by (simp add: fill_history_def)
    show "ui (fill_history Q) = \<lparr>running = False, emuMutex = False,
        previousPcs = replicate 6 (cPC (mc_cpu (machine (fill_history Q)))), blocked = False\<rparr>"
      using Q(3) abs_machine_pc [of Q hosted_view] by (simp add: fill_history_def ui_def [of Q] u_def)
    show "\<not> isRunning (fill_history Q)"
      using Q(4) by (simp add: fill_history_def isRunning_def Processor_new_def)
  qed
qed

section \<open>The disassembly window\<close>

fun texts :: "draw list \<Rightarrow> string list" where
  "texts [] = []"
| "texts (Mvprintw y x t # ds) = t # texts ds"
| "texts (d # ds) = texts ds"

lemma texts_append [simp]: "texts (ds @ es) = texts ds @ texts es"
  by (induction ds rule: texts.induct) simp_all

lemma draw_lines_ram:
  assumes "full_memory bus" and "draw_lines n i line y x pc bus = (ds, bus')"
  shows "texts ds = map (\<lambda>a. X4 a @ '': '' @
      line_text (memory_view bus a) (memory_view bus (a + 1)) (memory_view bus (a + 2)))
      (starts (memory_view bus) n pc) \<and> memory_view bus' = memory_view bus"
  using assms
proof (induction n arbitrary: i line pc bus ds)
  case (Suc n)
  obtain t at' b where u: "unasm_at default_Bus pc bus = (t, at', b)" by (metis prod_cases3)
  note one = flat.unasm_at_ram [OF Suc.prems(1) u]
  obtain t' at'' c where v: "unasm_at default_Bus pc b = (t', at'', c)" by (metis prod_cases3)
  note two = flat.unasm_at_ram [OF one(4) v]
  obtain more where more: "draw_lines n (i + 1) (line + 1) y x at'' c = (more, bus')"
    "texts ds = (X4 pc @ '': '' @ t') # texts more"
    using Suc.prems(2) by (auto simp: unasm_line_addr_def unasm_line_def u v Let_def split: prod.splits)
  have "at'' = pc + word_of_nat (instr_len (memory_view bus pc))"
    using two(2) one(3) by (simp add: instr_len_def add.assoc)
  then show ?case
    using Suc.IH [OF two(4) more(1)] more(2) one(3) two(1,3) by simp
qed simp

text \<open>
  The disassembly window of the Linux debugger is a listing: ten lines from the program counter, each with the
  address of its instruction and the text that the disassembler prints for it, at the addresses of a listing that goes
  straight through the code. Drawing it leaves the memory alone.
\<close>

theorem linux_window_is_listing:
  assumes "full_memory (ho_bus (p_bus P))" and "draw_disassembly P y x = (ds, bus)"
    and "unasm_lines default_Bus 10 (p_regs P) (ho_bus (p_bus P)) = (ls, r, b)"
  shows "texts ds = ''Disassembly:'' #
      map2 (\<lambda>a l. X4 a @ '': '' @ l) (starts (hosted_view (p_bus P)) 10 (reg_pc (p_regs P))) ls \<and>
    memory_view bus = hosted_view (p_bus P)"
proof -
  obtain es where es: "draw_lines 10 0 1 y x (reg_pc (p_regs P)) (ho_bus (p_bus P)) = (es, bus)"
    "ds = Mvprintw y x ''Disassembly:'' # es"
    using assms(2) by (auto simp: draw_disassembly_def split: prod.splits)
  have zip: "map2 f xs (map g xs) = map (\<lambda>a. f a (g a)) xs" for f :: "uint16 \<Rightarrow> string \<Rightarrow> string" and g xs
    by (induction xs) simp_all
  show ?thesis
    using draw_lines_ram [OF assms(1) es(1)] unasm_lines_ram [OF flat.ram_bus_axioms assms(1,3)]
    by (simp add: es(2) zip)
qed

lemma linux_window_is_listing_witness:
  "memory_view (snd (draw_disassembly (sample_debugger [5]) 8 4)) = memory_view (Some (ram_of (\<lambda>_. 0xEA)))"
proof -
  let ?P = "sample_debugger [5]"
  have P: "full_memory (ho_bus (p_bus ?P))" "ho_bus (p_bus ?P) = Some (ram_of (\<lambda>_. 0xEA))"
    by (simp_all add: sample_debugger_def Processor_new_def full_memory_def ram_of_def mem_ok_def MAX_BYTES_PER_PAGE_def)
  obtain ds bus where d: "draw_disassembly ?P 8 4 = (ds, bus)" by force
  obtain ls r b where l: "unasm_lines default_Bus 10 (p_regs ?P) (ho_bus (p_bus ?P)) = (ls, r, b)"
    by (metis prod_cases3)
  show ?thesis using linux_window_is_listing [OF P(1) d l] by (simp add: d P(2))
qed

end
