(* ===== verification/Linux_Main.thy ===== *)
theory Linux_Main
  imports Linux_Debugger
begin

text \<open>
  The main loop of \<^verbatim>\<open>debugger_src/test_6502_linux.cpp\<close>: one key, what it does to the debugger, and the screen that is
  drawn under the mutex. The keys, the text typed after \<open>b\<close> and the order in which the library iterates the set of
  breakpoints are input. As in the class, a run is the whole life of its thread, so a session here is one in which no key is
  pressed during a run; \<open>None\<close> is a round that never ends. The invariant of the session is what the theorems about
  the methods assume.
\<close>

section \<open>One round of the main loop\<close>

datatype key = KEY_F nat | Char char | ERR

record input =
  in_key :: key
  in_str :: string
  in_order :: "uint16 list"

record main_state =
  quit :: bool
  bps :: "uint16 set"
  dbg :: LinuxDebugger

definition set_dbg :: "main_state \<Rightarrow> LinuxDebugger \<Rightarrow> main_state" where
  "set_dbg M P = M\<lparr>dbg := P\<rparr>"

definition on_key :: "(LinuxDebugger \<Rightarrow> LinuxDebugger) \<Rightarrow> string \<Rightarrow> key \<Rightarrow> main_state \<Rightarrow> main_state option" where
  "on_key others str ch M =
     (if ch = KEY_F 6 then Some (set_dbg M (LinuxDebugger_step (bps M) (dbg M)))
      else if ch = KEY_F 8 then
        map_option (set_dbg M)
          (if running (ui (dbg M)) then LinuxDebugger_pause others (dbg M) else LinuxDebugger_run (bps M) (dbg M))
      else if ch = KEY_F 10 then map_option (set_dbg M) (LinuxDebugger_reset others (bps M) (dbg M))
      else if ch = Char CHR ''q'' \<or> ch = Char CHR ''Q'' then Some (M\<lparr>quit := True\<rparr>)
      else if ch = Char CHR ''b'' \<or> ch = Char CHR ''B'' then
        Some (M\<lparr>bps := m_breakpoints (key_b str (linux_env (bps M)))\<rparr>)
      else Some M)"

definition draw_screen :: "uint16 list \<Rightarrow> LinuxDebugger \<Rightarrow> draw list \<times> LinuxDebugger" where
  "draw_screen order P =
     (let regs = draw_registers P 2 4;
          (dis, bus) = draw_disassembly P 8 4;
          P = P\<lparr>p_bus := (p_bus P)\<lparr>ho_bus := bus\<rparr>\<rparr>
      in (regs @ dis @ draw_breakpoints order 8 40 @ draw_memory P 2 60 16 @ draw_controls 20 @
          [Mvprintw 0 2 (if running (ui P) then '' RUNNING '' else '' PAUSED '')], P))"

definition main_round ::
  "(LinuxDebugger \<Rightarrow> LinuxDebugger) \<Rightarrow> input \<Rightarrow> main_state \<Rightarrow> (draw list \<times> main_state) option" where
  "main_round others i M =
     (case on_key others (in_str i) (in_key i) M of
        None \<Rightarrow> None
      | Some M \<Rightarrow>
          let P = unless_blocked lock (dbg M)
          in if blocked (ui P) then None
             else let (ds, P) = draw_screen (in_order i) P
               in Some (ds, set_dbg M (unlock P)))"

fun main_loop ::
  "(LinuxDebugger \<Rightarrow> LinuxDebugger) \<Rightarrow> input list \<Rightarrow> main_state \<Rightarrow> (draw list list \<times> main_state) option" where
  "main_loop others [] M = Some ([], M)"
| "main_loop others (i # is) M =
     (if quit M then Some ([], M)
      else case main_round others i M of
          None \<Rightarrow> None
        | Some (ds, M) \<Rightarrow> map_option (apfst (Cons ds)) (main_loop others is M))"

section \<open>The invariant of a session\<close>

definition ready :: "LinuxDebugger \<Rightarrow> bool" where
  "ready P \<longleftrightarrow> full_memory (ho_bus (p_bus P)) \<and> \<not> isRunning P \<and> \<not> running (ui P) \<and> \<not> emuMutex (ui P) \<and>
     \<not> blocked (ui P) \<and> previousPcs (ui P) \<noteq> [] \<and> length (previousPcs (ui P)) \<le> 10"

text \<open>The two ways in which a round does not end: the step that waits for its own mutex, and a run past no breakpoint.\<close>

definition step_hangs :: "key \<Rightarrow> LinuxDebugger \<Rightarrow> bool" where
  "step_hangs ch P \<longleftrightarrow> ch = KEY_F 6 \<and> cPC (mc_cpu (snd (machine_step (machine P)))) \<noteq> previousPcs (ui P) ! 0"

definition run_hangs :: "key \<Rightarrow> main_state \<Rightarrow> bool" where
  "run_hangs ch M \<longleftrightarrow> ch = KEY_F 8 \<and> \<not> (\<exists>k. cPC (mc_cpu (machine_at (Suc k) (machine (dbg M)))) \<in> bps M)"

lemma lock_ready: "ready P \<Longrightarrow> ui (lock P) = (ui P)\<lparr>emuMutex := True\<rparr>"
  by (simp add: ready_def lock_def)

lemma draw_lines_full:
  assumes "full_memory bus" and "draw_lines n i line y x pc bus = (ds, bus')"
  shows "full_memory bus'"
  using assms
proof (induction n arbitrary: i line pc bus ds)
  case (Suc n)
  obtain t at' b where u: "unasm_at default_Bus pc bus = (t, at', b)" by (metis prod_cases3)
  note one = flat.unasm_at_ram [OF Suc.prems(1) u]
  obtain t' at'' c where v: "unasm_at default_Bus pc b = (t', at'', c)" by (metis prod_cases3)
  note two = flat.unasm_at_ram [OF one(4) v]
  obtain more where "draw_lines n (i + 1) (line + 1) y x at'' c = (more, bus')"
    using Suc.prems(2) by (auto simp: unasm_line_addr_def unasm_line_def u v Let_def split: prod.splits)
  then show ?case using Suc.IH two(4) by blast
qed simp

lemma draw_screen_ready:
  assumes "full_memory (ho_bus (p_bus P))" and "draw_screen order P = (ds, P')"
  shows "full_memory (ho_bus (p_bus P'))" and "ui P' = ui P" and "isRunning P' = isRunning P"
    and "hosted_view (p_bus P') = hosted_view (p_bus P)"
    and "Mvprintw 0 2 (if running (ui P) then '' RUNNING '' else '' PAUSED '') \<in> set ds"
proof -
  obtain es bus where es: "draw_lines 10 0 1 8 4 (reg_pc (p_regs P)) (ho_bus (p_bus P)) = (es, bus)" by force
  note full = draw_lines_full [OF assms(1) es] draw_lines_ram [OF assms(1) es]
  show "full_memory (ho_bus (p_bus P'))" "ui P' = ui P" "isRunning P' = isRunning P"
    "hosted_view (p_bus P') = hosted_view (p_bus P)"
    "Mvprintw 0 2 (if running (ui P) then '' RUNNING '' else '' PAUSED '') \<in> set ds"
    using assms(2) full
    by (auto simp: draw_screen_def draw_disassembly_def es ui_def isRunning_def Let_def)
qed

section \<open>The keys keep the invariant\<close>

lemma step_ready:
  assumes "ready P"
  shows "if step_hangs (KEY_F 6) P then blocked (ui (LinuxDebugger_step D P)) else ready (LinuxDebugger_step D P)"
proof -
  have P: "full_memory (ho_bus (p_bus P))" "\<not> running (ui P)" "\<not> emuMutex (ui P)" "\<not> blocked (ui P)"
    using assms by (simp_all add: ready_def)
  let ?L = "lock P" and ?E = "Env.truncate (linux_env D)"
  have L: "full_memory (ho_bus (p_bus ?L))" "m_running ?L = m_running P"
    using P by (simp_all add: lock_def)
  have "full_memory (ho_bus (p_bus (LinuxDebugger_step D P)))" "isRunning (LinuxDebugger_step D P) = isRunning P"
    using P L linux_core(2) [OF L(1), of D]
    by (simp_all add: LinuxDebugger_step_def linux_step_eq unless_blocked_def unlock_def isRunning_def Let_def)
  then show ?thesis
    using linux_step_result [OF P, of D] assms by (simp add: ready_def step_hangs_def Let_def split: if_splits)
qed

lemma run_ready:
  assumes "ready (dbg M)"
  shows "if run_hangs (KEY_F 8) M then LinuxDebugger_run (bps M) (dbg M) = None
    else \<exists>Q. LinuxDebugger_run (bps M) (dbg M) = Some Q \<and> ready Q"
proof -
  have P: "full_memory (ho_bus (p_bus (dbg M)))" "\<not> running (ui (dbg M))" "\<not> emuMutex (ui (dbg M))"
    "\<not> blocked (ui (dbg M))" "previousPcs (ui (dbg M)) \<noteq> []" "length (previousPcs (ui (dbg M))) \<le> 10"
    using assms by (simp_all add: ready_def)
  show ?thesis
  proof (cases "run_hangs (KEY_F 8) M")
    case True
    then show ?thesis using linux_run_result [OF P, of "bps M"] by (simp add: run_hangs_def del: not_ex)
  next
    case False
    then obtain Q where "LinuxDebugger_run (bps M) (dbg M) = Some Q" "\<not> isRunning Q" "full_memory (ho_bus (p_bus Q))"
      "previousPcs (ui Q) \<noteq> []" "length (previousPcs (ui Q)) \<le> 10" "\<exists>h. ui Q = (ui (dbg M))\<lparr>previousPcs := h\<rparr>"
      using linux_run_result [OF P, of "bps M"] by (auto simp: run_hangs_def)
    then show ?thesis using False P by (auto simp: ready_def)
  qed
qed

lemma reset_ready:
  assumes "ready P"
  obtains Q where "LinuxDebugger_reset others D P = Some Q" and "ready Q"
    and "machine Q = reset_machine (hosted_view (p_bus P))"
proof -
  define L where "L = lock (with_ui (\<lambda>u. u\<lparr>running := False\<rparr>) (pause P))"
  have P: "LinuxDebugger_pause others P = Some (with_ui (\<lambda>u. u\<lparr>running := False\<rparr>) (pause P))"
    using assms by (simp add: LinuxDebugger_pause_def while_option_unfold ready_def isRunning_def)
  have L: "ui L = (ui P)\<lparr>emuMutex := True\<rparr>" "ho_bus (p_bus L) = ho_bus (p_bus P)" "m_running L = m_running P"
    using assms by (simp_all add: L_def lock_def ready_def)
  then have stop: "Emulator_stop others L = Some (pause L)"
    using assms by (simp add: stop_idle ready_def isRunning_def)
  have "full_memory (ho_bus (p_bus (pause L))) \<and> ho_ui (p_bus (pause L)) = ui L"
    using L(2) assms by (simp add: ready_def ui_def pause_def)
  moreover have "counting_clock (v_clock (Env.truncate (linux_env D)))"
    by (simp add: default.counting_clock_axioms)
  ultimately obtain Q where Q: "Emulator_start (DebugProcessor_run (linux_env D)) (Env.truncate (linux_env D)) False (pause L) = Some Q"
    "machine Q = reset_machine (hosted_view (p_bus (pause L)))" "full_memory (ho_bus (p_bus Q)) \<and> ho_ui (p_bus Q) = ui L"
    "m_running Q = m_running (pause L)"
    by (rule hosted_at.start_refines [rotated]) simp_all
  show thesis
  proof (rule that)
    show "LinuxDebugger_reset others D P = Some (unlock (fill_history Q))"
      using P stop Q(1) L(1) assms
      by (simp add: LinuxDebugger_reset_def Emulator_reset_def L_def [symmetric] ready_def Let_def)
    have "ui (fill_history Q) = (ui P)\<lparr>emuMutex := True, previousPcs := replicate 6 (reg_pc (p_regs Q))\<rparr>"
      using Q(3) L(1) by (simp add: fill_history_def ui_def [of Q])
    then show "ready (unlock (fill_history Q))"
      using Q(3,4) L(3) assms by (simp add: ready_def unlock_def unless_blocked_def isRunning_def fill_history_def)
    show "machine (unlock (fill_history Q)) = reset_machine (hosted_view (p_bus P))"
      using Q(2) L(2) by (simp add: unlock_def unless_blocked_def fill_history_def)
  qed
qed

definition hangs :: "input \<Rightarrow> main_state \<Rightarrow> bool" where
  "hangs i M \<longleftrightarrow> step_hangs (in_key i) (dbg M) \<or> run_hangs (in_key i) M"

definition quits :: "input \<Rightarrow> bool" where
  "quits i \<longleftrightarrow> in_key i = Char CHR ''q'' \<or> in_key i = Char CHR ''Q''"

definition paused_screen :: "draw list \<Rightarrow> bool" where
  "paused_screen ds \<longleftrightarrow> Mvprintw 0 2 '' PAUSED '' \<in> set ds"

lemma set_dbg_select [simp]:
  "dbg (set_dbg M P) = P" "bps (set_dbg M P) = bps M" "quit (set_dbg M P) = quit M"
  by (simp_all add: set_dbg_def)

text \<open>A key either ends in a state that is ready for the next, or hangs.\<close>

lemma key_result:
  assumes "ready (dbg M)"
  shows "if hangs i M then \<forall>M'. on_key others (in_str i) (in_key i) M = Some M' \<longrightarrow> blocked (ui (dbg M'))
    else \<exists>M'. on_key others (in_str i) (in_key i) M = Some M' \<and> ready (dbg M') \<and> bps M \<subseteq> bps M' \<and>
      (quit M' \<longleftrightarrow> quit M \<or> quits i)"
proof -
  have r: "\<not> running (ui (dbg M))" using assms by (simp add: ready_def)
  consider (step) "in_key i = KEY_F 6" | (run) "in_key i = KEY_F 8" | (reset) "in_key i = KEY_F 10"
    | (other) "in_key i \<noteq> KEY_F 6" "in_key i \<noteq> KEY_F 8" "in_key i \<noteq> KEY_F 10" by blast
  then show ?thesis
  proof cases
    case step
    then show ?thesis
      using step_ready [OF assms, of "bps M"] by (simp add: hangs_def run_hangs_def on_key_def quits_def)
  next
    case run
    then show ?thesis
      using run_ready [OF assms] r by (auto simp: hangs_def step_hangs_def on_key_def quits_def)
  next
    case reset
    obtain Q where "LinuxDebugger_reset others (bps M) (dbg M) = Some Q" "ready Q"
      by (rule reset_ready [OF assms])
    then show ?thesis
      using reset by (simp add: hangs_def step_hangs_def run_hangs_def on_key_def quits_def)
  next
    case other
    then show ?thesis
      using assms by (auto simp: hangs_def step_hangs_def run_hangs_def on_key_def quits_def key_b_def addBreakpoint_def
          split: option.splits)
  qed
qed

lemma round_result:
  assumes "ready (dbg M)"
  shows "if hangs i M then main_round others i M = None
    else \<exists>ds M'. main_round others i M = Some (ds, M') \<and> ready (dbg M') \<and> paused_screen ds \<and>
      (quit M' \<longleftrightarrow> quit M \<or> quits i)"
proof (cases "hangs i M")
  case True
  then show ?thesis
    using key_result [OF assms, of i others] by (auto simp: main_round_def unless_blocked_def split: option.splits)
next
  case False
  then obtain M1 where M1: "on_key others (in_str i) (in_key i) M = Some M1" "ready (dbg M1)"
    "quit M1 \<longleftrightarrow> quit M \<or> quits i"
    using key_result [OF assms, of i others] by auto
  let ?L = "lock (dbg M1)"
  have L: "ui ?L = (ui (dbg M1))\<lparr>emuMutex := True\<rparr>" "full_memory (ho_bus (p_bus ?L))" "isRunning ?L = isRunning (dbg M1)"
    using M1(2) by (simp_all add: lock_def ready_def)
  obtain ds P' where d: "draw_screen (in_order i) ?L = (ds, P')" by force
  note scr = draw_screen_ready [OF L(2) d]
  have "main_round others i M = Some (ds, set_dbg M1 (unlock P'))"
    using M1(1,2) L(1) d by (simp add: main_round_def unless_blocked_def ready_def Let_def)
  moreover have "ready (unlock P')"
    using M1(2) scr L by (simp add: ready_def unlock_def unless_blocked_def)
  moreover have "paused_screen ds" using scr(5) L(1) M1(2) by (simp add: paused_screen_def ready_def)
  ultimately show ?thesis using False M1(3) by simp
qed

section \<open>A session\<close>

lemma loop_result:
  assumes "ready (dbg M)" and "\<not> quit M"
  shows "case main_loop others is M of
      Some (screens, M') \<Rightarrow> ready (dbg M') \<and> list_all paused_screen screens \<and> (quit M' \<longleftrightarrow> list_ex quits is)
    | None \<Rightarrow> \<exists>done i rest screens M'. is = done @ i # rest \<and> main_loop others done M = Some (screens, M') \<and>
        ready (dbg M') \<and> \<not> quit M' \<and> hangs i M'"
  using assms
proof (induction "is" arbitrary: M)
  case (Cons i "is")
  show ?case
  proof (cases "hangs i M")
    case True
    then have "main_round others i M = None" using round_result [OF Cons.prems(1)] by auto
    moreover have "i # is = [] @ i # is \<and> main_loop others [] M = Some ([], M)" by simp
    ultimately show ?thesis using True Cons.prems by (simp, blast)
  next
    case False
    then obtain ds M1 where M1: "main_round others i M = Some (ds, M1)" "ready (dbg M1)" "paused_screen ds"
      "quit M1 \<longleftrightarrow> quits i"
      using round_result [OF Cons.prems(1), of i others] Cons.prems(2) by auto
    have first: "main_loop others (i # js) M = map_option (apfst (Cons ds)) (main_loop others js M1)" for js
      using M1(1) Cons.prems(2) by simp
    show ?thesis
    proof (cases "quit M1")
      case True
      then have "main_loop others is M1 = Some ([], M1)" by (cases "is") simp_all
      then show ?thesis using True M1 by (simp add: first del: main_loop.simps(2))
    next
      case False
      note IH = Cons.IH [OF M1(2) False]
      show ?thesis
      proof (cases "main_loop others is M1")
        case None
        with IH obtain "done" j rest screens M' where j: "is = done @ j # rest" "main_loop others done M1 = Some (screens, M')"
          "ready (dbg M')" "\<not> quit M'" "hangs j M'" by auto
        have "main_loop others (i # is) M = None" using None by (simp add: first del: main_loop.simps(2))
        moreover have "main_loop others (i # done) M = Some (ds # screens, M')"
          using j(2) by (simp add: first del: main_loop.simps(2))
        moreover have "i # is = (i # done) @ j # rest" using j(1) by simp
        ultimately show ?thesis using j(3-5) by (simp only: option.case) blast
      next
        case (Some r)
        with IH False M1(3,4) show ?thesis by (auto simp: first simp del: main_loop.simps(2))
      qed
    qed
  qed
qed simp

definition opened :: "LinuxDebugger \<Rightarrow> main_state" where
  "opened P = \<lparr>quit = False, bps = {}, dbg = P\<rparr>"


end
