(* ===== verification/Windows_Debugger.thy ===== *)
theory Windows_Debugger
  imports Debugger_Host
begin

text \<open>
  \<^verbatim>\<open>debugger_src/test_6502.cpp\<close>: the class \<open>TestWindowMan\<close> of the Windows debugger and its breakpoint dialog. The windows
  are their state: a button is enabled or not, a view has a text. The messages are in
  \<open>Windows_Main\<close>; creating and moving windows is not modelled. An output stream is its text and whether it prints numbers in hexadecimal, because the manipulator
  \<open>hex\<close> stays in force for all that follows on the same stream.
\<close>

section \<open>Streams\<close>

type_synonym stream = "string \<times> bool"

definition emits :: "string \<Rightarrow> stream \<Rightarrow> stream" where
  "emits t ss = (fst ss @ t, snd ss)"

definition hex :: "stream \<Rightarrow> stream" where
  "hex ss = (fst ss, True)"

definition number :: "nat \<Rightarrow> nat \<Rightarrow> stream \<Rightarrow> stream" where
  "number w n ss = emits (setw0 w (if snd ss then show_hex n else show_dec n)) ss"

definition FLAG_LABELS :: "string list" where
  "FLAG_LABELS = [''C'', ''Z'', ''I'', ''D'', ''B'', ''-'', ''V'', ''N'']"

definition crlf :: string where
  "crlf = [CHR 0x0D, CHR 0x0A]"

definition printFlags :: "uint8 \<Rightarrow> stream \<Rightarrow> stream" where
  "printFlags v ss =
     (let ss = fold (\<lambda>i. emits (''    '' @ FLAG_LABELS ! i)) [0..<8] ss;
          ss = emits (crlf @ '' '') ss
      in fold (\<lambda>i. emits (''    '' @ (if drop_bit i v AND 1 \<noteq> 0 then ''1'' else ''0''))) [0..<8] ss)"

definition printReg8 :: "uint8 \<Rightarrow> string \<Rightarrow> stream \<Rightarrow> stream" where
  "printReg8 v lb ss = number 2 (unat v) (hex (emits (''    '' @ lb @ '': '') ss))"

definition printReg16 :: "uint16 \<Rightarrow> string \<Rightarrow> stream \<Rightarrow> stream" where
  "printReg16 v lb ss = number 4 (unat v) (hex (emits (''    '' @ lb @ '': '') ss))"

definition printCycles :: "uint64 \<Rightarrow> stream \<Rightarrow> stream" where
  "printCycles cycles ss = number 10 (unat cycles) (emits ''  Counter: '' ss)"

section \<open>The views\<close>

definition regs_text :: "Registers \<Rightarrow> uint64 \<Rightarrow> string" where
  "regs_text regs clock =
     (let ss = emits (''Registers:'' @ crlf) ([], False);
          ss = printReg8 (reg_a regs) ''A'' ss;
          ss = printReg8 (reg_x regs) ''X'' ss;
          ss = printReg8 (reg_y regs) ''Y'' ss;
          ss = printReg8 (reg_sr regs) ''F'' ss;
          ss = emits crlf ss;
          ss = printReg8 (reg_sp regs) ''S'' ss;
          ss = printReg16 (reg_pc regs) ''P'' ss;
          ss = printCycles (default_cycles clock) ss;
          ss = emits (crlf @ ''Flags:'' @ crlf @ '' '') ss
      in fst (printFlags (reg_sr regs) ss))"

definition shown_char :: "uint8 \<Rightarrow> char" where
  "shown_char ch =
     (if ch < 32 \<or> ch = 0x9d \<or> ch = 0x98 \<or> ch = 0x8f \<or> ch = 0x8d \<or> ch = 0x81 \<or> ch = 0x7f \<or> ch = 0x90
      then CHR ''.'' else char_of (unat ch))"

definition mvcols :: nat where
  "mvcols = 0x10"

definition memory_cell :: "Memory option \<Rightarrow> nat \<Rightarrow> string" where
  "memory_cell bus i =
     (let byte = (\<lambda>k. fst (Bus_read (word_of_nat k) bus))
      in (if i mod mvcols = 0 then ''  '' @ setw0 4 (show_hex i) else []) @
         ''  '' @ setw0 2 (show_hex (unat (byte i))) @
         (if i mod mvcols = mvcols - 1
          then ''  '' @ map (\<lambda>j. shown_char (byte (j + (i div mvcols) * mvcols))) [0..<mvcols] @ crlf
          else []))"

definition memory_text :: "Memory option \<Rightarrow> string" where
  "memory_text bus = concat (map (memory_cell bus) [0..<0x10000])"

text \<open>An \<open>int\<close> printed in hexadecimal is its 32-bit pattern. The reads of the plain bus do not change it.\<close>

definition past_line :: "Memory option \<Rightarrow> int \<Rightarrow> string" where
  "past_line bus pc = setw0 4 (show_hex (nat (pc mod 2 ^ 32))) @ ''    '' @
     fst (unasm_line_addr default_Bus (word_of_int pc) bus)"

fun next_lines :: "nat \<Rightarrow> Memory option \<Rightarrow> Registers \<Rightarrow> string list" where
  "next_lines 0 bus regs2 = []"
| "next_lines (Suc n) bus regs2 =
     (let pc = reg_pc regs2;
          (line, regs2, bus) = unasm_line default_Bus regs2 bus
      in (setw0 4 (show_hex (unat pc)) @ ''    '' @ line) # next_lines n bus regs2)"

definition code_lines :: "int list \<Rightarrow> Registers \<Rightarrow> Memory option \<Rightarrow> string list" where
  "code_lines previousPcs regs bus =
     (let first = map (\<lambda>i. past_line bus (previousPcs ! (5 - i))) [0..<6];
          (line, regs2, bus) = unasm_line default_Bus regs bus
      in first @ next_lines 5 bus regs2)"

text \<open>The cycle counter comes after the registers on the same stream, and so is printed in hexadecimal.\<close>

lemma counter_in_hex:
  "\<exists>before after. regs_text regs clock = before @ ''  Counter: '' @ setw0 10 (show_hex (unat clock)) @ after"
proof -
  have flags: "\<exists>t. fst (printFlags v ss) = fst ss @ t" for v ss
  proof -
    have emit: "\<exists>t. fst (fold (\<lambda>i. emits (f i)) xs ss) = fst ss @ t" for f :: "nat \<Rightarrow> string" and xs ss
      by (induction xs arbitrary: ss) (auto simp: emits_def, metis append.assoc)
    obtain a where a: "fst (fold (\<lambda>i. emits (''    '' @ FLAG_LABELS ! i)) [0..<8] ss) = fst ss @ a"
      by (rule exE [OF emit])
    obtain b where b: "fst (printFlags v ss) = fst (emits (crlf @ '' '')
        (fold (\<lambda>i. emits (''    '' @ FLAG_LABELS ! i)) [0..<8] ss)) @ b"
      unfolding printFlags_def Let_def by (rule exE [OF emit])
    have "fst (printFlags v ss) = fst ss @ (a @ crlf @ '' '' @ b)"
      unfolding b emits_def [of "crlf @ '' ''"] fst_conv a append.assoc ..
    then show ?thesis ..
  qed
  obtain ss where ss: "snd ss" "regs_text regs clock =
      fst (printFlags (reg_sr regs) (emits (crlf @ ''Flags:'' @ crlf @ '' '') (number 10 (unat clock) (emits ''  Counter: '' ss))))"
  proof (rule that)
    show "snd (printReg16 v lb ss')" for v lb ss'
      by (simp add: printReg16_def number_def emits_def hex_def)
  qed (simp only: regs_text_def printCycles_def default_cycles_def Let_def)
  have "fst (number 10 (unat clock) (emits ''  Counter: '' ss))
      = fst ss @ ''  Counter: '' @ setw0 10 (show_hex (unat clock))"
    using ss(1) by (simp add: number_def emits_def)
  moreover obtain t where "regs_text regs clock = (fst (number 10 (unat clock) (emits ''  Counter: '' ss)) @
      crlf @ ''Flags:'' @ crlf @ '' '') @ t"
    using flags [of "reg_sr regs" "emits (crlf @ ''Flags:'' @ crlf @ '' '')
      (number 10 (unat clock) (emits ''  Counter: '' ss))"] ss(2) by (auto simp: emits_def)
  ultimately show ?thesis by (metis append.assoc)
qed

section \<open>The window manager\<close>

record win_ui =
  runBtn :: bool
  stepBtn :: bool
  pauseBtn :: bool
  resetBtn :: bool
  memoryVew :: string
  regsView :: string
  codeViews :: "string list"
  breaksView :: "string list"
  win_previousPcs :: "int list"

type_synonym TestWindowMan = "win_ui Debugger"

definition updateMemoryView :: "TestWindowMan \<Rightarrow> TestWindowMan" where
  "updateMemoryView P = with_ui (\<lambda>u. u\<lparr>memoryVew := memory_text (ho_bus (p_bus P))\<rparr>) P"

definition updateRegsView :: "TestWindowMan \<Rightarrow> TestWindowMan" where
  "updateRegsView P = with_ui (\<lambda>u. u\<lparr>regsView := regs_text (p_regs P) (p_clock P)\<rparr>) P"

definition upateUnasm :: "TestWindowMan \<Rightarrow> TestWindowMan" where
  "upateUnasm P =
     with_ui (\<lambda>u. u\<lparr>codeViews := code_lines (win_previousPcs u) (p_regs P) (ho_bus (p_bus P))\<rparr>) P"

definition setupStop :: "TestWindowMan \<Rightarrow> TestWindowMan" where
  "setupStop P =
     (let P = updateMemoryView P;
          P = updateRegsView P;
          P = upateUnasm P
      in with_ui (\<lambda>u. u\<lparr>runBtn := True, stepBtn := True, pauseBtn := False, resetBtn := True\<rparr>) P)"

text \<open>The array moves up by one and takes the program counter in front.\<close>

definition move_pcs :: "uint16 \<Rightarrow> int list \<Rightarrow> int list" where
  "move_pcs pc p =
     (let p = fold (\<lambda>i p. p[i := p ! (i - 1)]) [5, 4, 3, 2, 1] p
      in p[0 := uint pc])"

definition win_runCallback :: "TestWindowMan \<Rightarrow> TestWindowMan" where
  "win_runCallback P =
     (if win_previousPcs (ui P) ! 0 = uint (reg_pc (p_regs P)) then setupStop (pause P)
      else with_ui (\<lambda>u. u\<lparr>win_previousPcs := move_pcs (reg_pc (p_regs P)) (win_previousPcs u)\<rparr>) P)"

definition win_env :: "uint16 set \<Rightarrow> (win_ui hosted, uint64) DebugEnv" where
  "win_env breakpoints = debugger_env win_runCallback setupStop breakpoints"

definition TestWindowMan_new :: "uint8 list option \<Rightarrow> TestWindowMan option" where
  "TestWindowMan_new is =
     (case loadTestFile is (Memory_new 256) of
        None \<Rightarrow> None
      | Some mem \<Rightarrow>
          let u = \<lparr>runBtn = True, stepBtn = True, pauseBtn = False, resetBtn = True, memoryVew = [], regsView = [],
                codeViews = replicate 11 ''.'', breaksView = [], win_previousPcs = replicate 6 0\<rparr>;
              P = Processor_new \<lparr>ho_bus = Bus_connect (Some mem) Bus_new, ho_ui = u\<rparr> Registers_zero default_clock_new
          in map_option
            (\<lambda>P. let pc = uint (reg_pc (p_regs P))
               in with_ui (\<lambda>u. u\<lparr>win_previousPcs := [pc, pc - 1, pc - 2, pc - 3, pc - 4, pc - 5]\<rparr>) P)
            (Emulator_start (DebugProcessor_run (win_env {})) (Env.truncate (win_env {})) False P))"

text \<open>The run button, with the whole life of the thread it starts; the step, pause and reset buttons.\<close>

definition runToBreakpoint :: "uint16 set \<Rightarrow> TestWindowMan \<Rightarrow> TestWindowMan option" where
  "runToBreakpoint breakpoints P =
     DebugProcessor_run (win_env breakpoints)
       (with_ui (\<lambda>u. u\<lparr>runBtn := False, stepBtn := False, pauseBtn := True, resetBtn := False\<rparr>) P)"

definition win_step :: "uint16 set \<Rightarrow> TestWindowMan \<Rightarrow> TestWindowMan" where
  "win_step breakpoints P = step (Env.truncate (win_env breakpoints)) P"

definition on_create :: "TestWindowMan \<Rightarrow> TestWindowMan" where
  "on_create P = setupStop P"

definition on_step :: "uint16 set \<Rightarrow> TestWindowMan \<Rightarrow> TestWindowMan" where
  "on_step breakpoints P = setupStop (win_step breakpoints P)"

definition on_pause :: "TestWindowMan \<Rightarrow> TestWindowMan" where
  "on_pause P = setupStop (pause P)"

definition win_reset ::
  "(TestWindowMan \<Rightarrow> TestWindowMan) \<Rightarrow> uint16 set \<Rightarrow> TestWindowMan \<Rightarrow> TestWindowMan option" where
  "win_reset others breakpoints P =
     map_option
       (\<lambda>P. setupStop (with_ui (\<lambda>u. u\<lparr>win_previousPcs := move_pcs (reg_pc (p_regs P)) (win_previousPcs u)\<rparr>) P))
       (Emulator_reset (DebugProcessor_run (win_env breakpoints)) others
         (Env.truncate (win_env breakpoints)) False P)"

section \<open>The breakpoint dialog\<close>

text \<open>\<open>None\<close> is the exception of \<open>stoul\<close>, which nobody catches.\<close>

definition win_addBreakpoint ::
  "string \<Rightarrow> (win_ui hosted, uint64) DebugEnv \<Rightarrow> TestWindowMan \<Rightarrow> ((win_ui hosted, uint64) DebugEnv \<times> TestWindowMan) option"
  where
  "win_addBreakpoint address E P =
     (case stoul16 address of
        None \<Rightarrow> None
      | Some i \<Rightarrow>
          let ad = word_of_int i;
              (added, E) = addBreakpoint ad E
          in Some (E, if added then with_ui (\<lambda>u. u\<lparr>breaksView := breaksView u @ [address]\<rparr>) P else P))"

definition hex_char :: "char \<Rightarrow> bool" where
  "hex_char ch \<longleftrightarrow>
     (let c = (of_char ch :: nat)
      in (48 \<le> c \<and> c \<le> 57) \<or> (97 \<le> c \<and> c \<le> 102) \<or> (65 \<le> c \<and> c \<le> 70))"

datatype dialog = Invalid_address | Uncaught | Closed "(win_ui hosted, uint64) DebugEnv" TestWindowMan

text \<open>The buffer has five bytes, so that at most four characters of the text are copied and a zero ends it.\<close>

definition AddBreakDialogProc ::
  "string \<Rightarrow> (win_ui hosted, uint64) DebugEnv \<Rightarrow> TestWindowMan \<Rightarrow> dialog" where
  "AddBreakDialogProc text E P =
     (let len = length text;
          buf = take 4 text @ replicate (5 - length (take 4 text)) (char_of (0 :: nat));
          error = (4 < len \<or> \<not> list_all (\<lambda>i. hex_char (buf ! i)) [0..<min len 5])
      in if error then Invalid_address
         else
           case win_addBreakpoint (takeWhile (\<lambda>c. c \<noteq> char_of (0 :: nat)) buf) E P of
             None \<Rightarrow> Uncaught
           | Some (E, P) \<Rightarrow> Closed E P)"

section \<open>A run\<close>

lemma setupStop_frame [simp]:
  "machine (setupStop P) = machine P" "ho_bus (p_bus (setupStop P)) = ho_bus (p_bus P)"
  "p_clock (setupStop P) = p_clock P" "m_running (setupStop P) = m_running P"
  "m_stopping (setupStop P) = m_stopping P" "p_regs (setupStop P) = p_regs P"
  "win_previousPcs (ui (setupStop P)) = win_previousPcs (ui P)"
  by (simp_all add: setupStop_def updateMemoryView_def updateRegsView_def upateUnasm_def Let_def)

lemma win_runCallback_frame [simp]:
  "machine (win_runCallback P) = machine P" "ho_bus (p_bus (win_runCallback P)) = ho_bus (p_bus P)"
  "p_clock (win_runCallback P) = p_clock P" "m_running (win_runCallback P) = m_running P"
  "m_stopping (win_runCallback P) \<longleftrightarrow> m_stopping P \<or> win_previousPcs (ui P) ! 0 = uint (reg_pc (p_regs P))"
  "p_regs (win_runCallback P) = p_regs P"
  by (simp_all add: win_runCallback_def)

lemma win_watching: "watching_callback Hosted_Bus hosted_view (\<lambda>b. full_memory (ho_bus b))
    (Env.truncate (win_env bps)) (\<lambda>P. win_previousPcs (ui P) ! 0 = uint (reg_pc (p_regs P)))"
  unfolding win_env_def by (rule debugger_watching) simp_all

interpretation win: watching_callback Hosted_Bus hosted_view "\<lambda>b. full_memory (ho_bus b)"
    "Env.truncate (win_env bps)" "\<lambda>P. win_previousPcs (ui P) ! 0 = uint (reg_pc (p_regs P))" for bps
  by (rule win_watching)

lemma win_env_select [simp]:
  "v_bus (win_env bps) = Hosted_Bus" "v_clock (win_env bps) = default_clock"
  "p_instr_callback (win_env bps) = Some win_runCallback" "p_breakp_callback (win_env bps) = Some setupStop"
  "m_breakpoints (win_env bps) = bps"
  by (simp_all add: win_env_def)

text \<open>The newest entry of the history is the program counter.\<close>

definition in_sync :: "TestWindowMan \<Rightarrow> bool" where
  "in_sync P \<longleftrightarrow> length (win_previousPcs (ui P)) = 6 \<and> win_previousPcs (ui P) ! 0 = uint (reg_pc (p_regs P))"

lemma move_pcs_head:
  assumes "length p = 6"
  shows "length (move_pcs pc p) = 6" and "move_pcs pc p ! 0 = uint pc"
    and "move_pcs pc p = uint pc # butlast p"
proof -
  obtain a b c d e f where p: "p = [a, b, c, d, e, f]"
    using assms by (auto simp: numeral_eq_Suc length_Suc_conv)
  show "length (move_pcs pc p) = 6" "move_pcs pc p ! 0 = uint pc" "move_pcs pc p = uint pc # butlast p"
    by (simp_all add: p move_pcs_def numeral_eq_Suc Let_def)
qed

lemma win_core:
  assumes "full_memory (ho_bus (p_bus P))"
  shows "machine (step_core (Env.truncate (win_env bps)) P) = snd (machine_step (machine P))"
    and "ui (step_core (Env.truncate (win_env bps)) P) = ui P"
  using debugger_core [of "Env.truncate (win_env bps)" P] assms by simp_all

lemma win_step_sync:
  assumes "in_sync P" and "full_memory (ho_bus (p_bus P))"
  shows "in_sync (step (Env.truncate (win_env bps)) P)"
  using assms(1) win_core(2) [OF assms(2), of bps]
  by (simp add: step_def call_back_def in_sync_def win_runCallback_def move_pcs_head)

definition at_rest :: "TestWindowMan \<Rightarrow> bool" where
  "at_rest P \<longleftrightarrow> runBtn (ui P) \<and> stepBtn (ui P) \<and> \<not> pauseBtn (ui P) \<and> resetBtn (ui P) \<and>
     memoryVew (ui P) = memory_text (ho_bus (p_bus P)) \<and> regsView (ui P) = regs_text (p_regs P) (p_clock P) \<and>
     codeViews (ui P) = code_lines (win_previousPcs (ui P)) (p_regs P) (ho_bus (p_bus P))"

lemma setupStop_rest: "at_rest (setupStop P)"
  by (simp add: at_rest_def setupStop_def updateMemoryView_def updateRegsView_def upateUnasm_def Let_def)

lemma windows_run_result:
  fixes P :: TestWindowMan
  assumes "full_memory (ho_bus (p_bus P))" and "in_sync P"
  shows "if \<exists>k. cPC (mc_cpu (machine_at (Suc k) (machine P))) \<in> insert (cPC (mc_cpu (machine_at k (machine P)))) bps
    then \<exists>Q n. runToBreakpoint bps P = Some Q \<and>
      n = (LEAST k. cPC (mc_cpu (machine_at (Suc k) (machine P))) \<in> insert (cPC (mc_cpu (machine_at k (machine P)))) bps) \<and>
      machine Q = machine_at (Suc n) (machine P) \<and> \<not> isRunning Q \<and> at_rest Q \<and> in_sync Q \<and> full_memory (ho_bus (p_bus Q))
    else runToBreakpoint bps P = None"
proof -
  let ?E = "Env.truncate (win_env bps)"
    and ?P = "with_ui (\<lambda>u. u\<lparr>runBtn := False, stepBtn := False, pauseBtn := True, resetBtn := False\<rparr>) P"
  define S where "S k = (step ?E ^^ k) (run_start ?E ?P)" for k
  define ends where "ends k \<longleftrightarrow> cPC (mc_cpu (machine_at (Suc k) (machine P)))
      \<in> insert (cPC (mc_cpu (machine_at k (machine P)))) bps" for k
  let ?Q = "S (Suc (LEAST k. ends k))"
  have P: "full_memory (ho_bus (p_bus ?P))" using assms(1) by simp
  have S: "machine (S k) = machine_at k (machine P)" "full_memory (ho_bus (p_bus (S k)))" for k
    using win.run_state(2) [OF P, where bps = bps and k = k]
      win.steps_state(2) [of "run_start ?E ?P" k bps] assms(1) by (simp_all add: S_def)
  have Suc: "S (Suc k) = win_runCallback (step_core ?E (S k))" for k
    by (simp add: S_def step_def call_back_def)
  have pc: "reg_pc (p_regs (S k)) = cPC (mc_cpu (machine_at k (machine P)))" for k
    using abs_machine_pc [of "S k" hosted_view] S(1) by simp
  have sync: "in_sync (S k)" for k
  proof (induction k)
    case 0
    then show ?case using assms(2) by (simp add: S_def in_sync_def)
  next
    case (Suc k)
    then show ?case using win_step_sync [OF Suc S(2)] by (simp add: S_def)
  qed
  have watch: "win_previousPcs (ui (step_core ?E (S k))) ! 0 = uint (reg_pc (p_regs (step_core ?E (S k)))) \<longleftrightarrow>
      cPC (mc_cpu (machine_at (Suc k) (machine P))) = cPC (mc_cpu (machine_at k (machine P)))" for k
    using sync [of k] pc [of k] pc [of "Suc k"] win_core(2) [OF S(2), of bps k] 
    by (simp add: in_sync_def Suc flip: word_uint_eq_iff) auto
  have bp: "at_breakpoint (win_env bps) (S (Suc k)) \<longleftrightarrow> cPC (mc_cpu (machine_at (Suc k) (machine P))) \<in> bps" for k
    by (simp add: at_breakpoint_def pc)
  have eq: "runToBreakpoint bps P = (if \<exists>k. ends k
      then Some (run_end (if at_breakpoint (win_env bps) ?Q then setupStop ?Q else ?Q)) else None)"
  proof -
    have "(at_breakpoint (win_env bps) (S (Suc k)) \<or>
        win_previousPcs (ui (step_core ?E (S k))) ! 0 = uint (reg_pc (p_regs (step_core ?E (S k))))) \<longleftrightarrow> ends k" for k
      unfolding bp watch ends_def by blast
    moreover have "(step ?E ^^ k) (run_start ?E ?P) = S k" for k by (simp add: S_def)
    moreover have "call_back (p_breakp_callback (win_env bps)) R = setupStop R" for R
      by (simp add: call_back_def)
    ultimately show ?thesis
      using debug_run_eq [OF win_watching P] by (simp only: runToBreakpoint_def Let_def)
  qed
  show ?thesis
  proof (cases "\<exists>k. ends k")
    case True
    define R where "R = (if at_breakpoint (win_env bps) ?Q then setupStop ?Q else ?Q)"
    have "at_rest (if at_breakpoint (win_env bps) (S (Suc k)) then setupStop (S (Suc k)) else S (Suc k))"
      if "ends k" for k
    proof (cases "at_breakpoint (win_env bps) (S (Suc k))")
      case False
      then have "win_previousPcs (ui (step_core ?E (S k))) ! 0 = uint (reg_pc (p_regs (step_core ?E (S k))))"
        using that unfolding bp ends_def watch by blast
      then have "S (Suc k) = setupStop (pause (step_core ?E (S k)))" by (simp add: Suc win_runCallback_def)
      with False show ?thesis by (simp add: setupStop_rest)
    qed (simp add: setupStop_rest)
    moreover have "ends (LEAST k. ends k)" using True by (rule LeastI_ex)
    ultimately have "at_rest R" by (simp only: R_def)
    moreover have "machine R = machine_at (Suc (LEAST k. ends k)) (machine P)" "in_sync R"
      using S(1) [of "Suc (LEAST k. ends k)"] sync [of "Suc (LEAST k. ends k)"] by (simp_all add: R_def in_sync_def)
    moreover have "full_memory (ho_bus (p_bus R))" using S(2) [of "Suc (LEAST k. ends k)"] by (simp add: R_def)
    moreover have "at_rest (run_end R) = at_rest R" "in_sync (run_end R) = in_sync R"
      by (simp_all add: at_rest_def in_sync_def)
    ultimately show ?thesis
      using True eq unfolding ends_def [symmetric] R_def [symmetric] by simp
  next
    case False
    then show ?thesis unfolding ends_def [symmetric] by (simp add: eq)
  qed
qed

text \<open>
  C36: A run of the Windows debugger returns at the first instruction that reaches a breakpoint or
  leaves the program counter where it was, whichever comes first, and never without one. Then the machine is in that state and
  no longer running, run, step and reset are enabled and pause is not, the three views show that very
  state, and the newest address of the code view is the program counter again, so that the next run starts in
  step.
\<close>

theorem windows_run_stops:
  fixes P :: TestWindowMan
  assumes "full_memory (ho_bus (p_bus P))" and "in_sync P"
  shows "if \<exists>k. cPC (mc_cpu (machine_at (Suc k) (machine P))) \<in> insert (cPC (mc_cpu (machine_at k (machine P)))) bps
    then \<exists>Q n. runToBreakpoint bps P = Some Q \<and>
      n = (LEAST k. cPC (mc_cpu (machine_at (Suc k) (machine P))) \<in> insert (cPC (mc_cpu (machine_at k (machine P)))) bps) \<and>
      machine Q = machine_at (Suc n) (machine P) \<and> \<not> isRunning Q \<and> at_rest Q \<and> in_sync Q \<and> full_memory (ho_bus (p_bus Q))
    else runToBreakpoint bps P = None"
  using assms by (rule windows_run_result)

text \<open>A debugger whose program is a \<open>KIL\<close>, which stays where it is.\<close>

definition sample_window :: TestWindowMan where
  "sample_window = Processor_new
     \<lparr>ho_bus = Some (ram_of (\<lambda>_. 0x02)), ho_ui =
       \<lparr>runBtn = True, stepBtn = True, pauseBtn = False, resetBtn = True, memoryVew = [], regsView = [],
        codeViews = [], breaksView = [], win_previousPcs = [5, 4, 3, 2, 1, 0]\<rparr>\<rparr>
     (Registers_zero\<lparr>reg_pc := 5\<rparr>) 0"

lemma windows_run_stops_witness:
  "\<exists>Q. runToBreakpoint {} sample_window = Some Q \<and> at_rest Q"
proof -
  have view: "memory_view (Some (ram_of (\<lambda>_. 0x02))) = (\<lambda>_. 0x02)"
    by (auto simp: memory_view_def Bus_read_def ram_of_read)
  have P: "full_memory (ho_bus (p_bus sample_window))" "in_sync sample_window"
    by (simp_all add: sample_window_def Processor_new_def in_sync_def ui_def full_memory_def ram_of_def mem_ok_def
        MAX_BYTES_PER_PAGE_def)
  have "instr_of 0x02 = Inst KIL_Impl Null 3"
    by (simp add: instr_of_def instruction_table_def row_defs)
  then have "cPC (mc_cpu (machine_at (Suc 0) (machine sample_window))) = cPC (mc_cpu (machine_at 0 (machine sample_window)))"
    by (simp add: machine_at_Suc machine_step_def take_instruction_def isa_step_def implied_def Let_def
        sample_window_def Processor_new_def abs_machine_def view)
  then have "\<exists>k. cPC (mc_cpu (machine_at (Suc k) (machine sample_window)))
      \<in> insert (cPC (mc_cpu (machine_at k (machine sample_window)))) {}"
    by blast
  from windows_run_stops [OF P, of "{}", unfolded if_P [OF this]] show ?thesis by blast
qed

section \<open>The window as it starts\<close>

lemma TestWindowMan_new_ready:
  obtains P where "TestWindowMan_new is = Some P" and "full_memory (ho_bus (p_bus P))"
    and "machine P = reset_machine (hosted_view (p_bus P))" and "in_sync P" and "\<not> isRunning P"
proof -
  define u where "u = \<lparr>runBtn = True, stepBtn = True, pauseBtn = False, resetBtn = True, memoryVew = [], regsView = [],
    codeViews = replicate 11 ''.'', breaksView = [], win_previousPcs = replicate 6 0\<rparr>"
  obtain mem where mem: "loadTestFile is (Memory_new 256) = Some mem" "full_memory (Some mem)"
    by (rule loadTestFile_full)
  let ?P = "Processor_new \<lparr>ho_bus = Some mem, ho_ui = u\<rparr> Registers_zero default_clock_new"
  have "full_memory (ho_bus (p_bus ?P)) \<and> ho_ui (p_bus ?P) = u"
    using mem(2) by (simp add: Processor_new_def)
  moreover have "counting_clock (v_clock (Env.truncate (win_env {})))"
    by (simp add: default.counting_clock_axioms)
  ultimately obtain Q where Q: "Emulator_start (DebugProcessor_run (win_env {})) (Env.truncate (win_env {})) False ?P = Some Q"
    "machine Q = reset_machine (hosted_view (p_bus ?P))" "full_memory (ho_bus (p_bus Q)) \<and> ho_ui (p_bus Q) = u"
    "m_running Q = m_running ?P"
    by (rule hosted_at.start_refines [rotated]) simp_all
  have view: "hosted_view (p_bus ?P) = hosted_view (p_bus Q)"
    using arg_cong [OF Q(2), of mc_mem] by (simp add: abs_machine_def reset_machine_def)
  show thesis
  proof (rule that)
    let ?W = "with_ui (\<lambda>u. let pc = uint (reg_pc (p_regs Q))
        in u\<lparr>win_previousPcs := [pc, pc - 1, pc - 2, pc - 3, pc - 4, pc - 5]\<rparr>) Q"
    show "TestWindowMan_new is = Some ?W"
      using Q(1) mem(1) by (simp add: TestWindowMan_new_def Bus_connect_def u_def Let_def)
    show "full_memory (ho_bus (p_bus ?W))" "in_sync ?W" using Q(3) by (simp_all add: in_sync_def Let_def)
    show "machine ?W = reset_machine (hosted_view (p_bus ?W))"
      using Q(2) view by simp
    show "\<not> isRunning ?W" using Q(4) by (simp add: isRunning_def Processor_new_def)
  qed
qed

section \<open>The dialog\<close>

lemma hex_char_xdigit: "hex_char c \<longleftrightarrow> isxdigit c"
  by (auto simp: hex_char_def ctype_defs Let_def)

lemma read_four:
  assumes "length s \<le> 4" and "list_all isxdigit s"
  shows "read_digits 16 isxdigit s < 65536"
proof -
  have digit: "digit_value c < 16" if "isxdigit c" for c
    using that by (auto simp: digit_value_def ctype_defs split: if_splits)
  have bound: "foldl (\<lambda>n c. n * 16 + digit_value c) n s < (n + 1) * 16 ^ length s" if "list_all isxdigit s" for n s
    using that
  proof (induction s arbitrary: n)
    case (Cons c s)
    have "foldl (\<lambda>n c. n * 16 + digit_value c) n (c # s) < (n * 16 + digit_value c + 1) * 16 ^ length s"
      using Cons.IH Cons.prems by simp
    also have "\<dots> \<le> ((n + 1) * 16) * 16 ^ length s"
      using digit [of c] Cons.prems by (intro mult_right_mono) simp_all
    also have "\<dots> = (n + 1) * 16 ^ length (c # s)" by (simp add: algebra_simps)
    finally show ?case .
  qed simp
  have all: "takeWhile isxdigit s = s" using assms(2) by (simp add: takeWhile_all list_all_iff)
  have "read_digits 16 isxdigit s < 16 ^ length s"
    unfolding read_digits_def all using bound [OF assms(2), of 0] by simp
  also have "(16 :: nat) ^ length s \<le> 16 ^ 4" using assms(1) by (intro power_increasing) simp_all
  finally show ?thesis by simp
qed

lemma dialog_result:
  "AddBreakDialogProc text E P =
     (if text = [] then Uncaught
      else if length text \<le> 4 \<and> list_all isxdigit text then
        let ad = word_of_nat (read_digits 16 isxdigit text)
        in Closed (snd (addBreakpoint ad E))
             (if ad \<in> m_breakpoints E then P else with_ui (\<lambda>u. u\<lparr>breaksView := breaksView u @ [text]\<rparr>) P)
      else Invalid_address) \<and>
   read_digits 16 isxdigit (setw0 4 (show_hex (unat (v :: uint16)))) = unat v \<and>
   list_all isxdigit (setw0 4 (show_hex (unat v))) \<and> length (setw0 4 (show_hex (unat v))) = 4"
proof (intro conjI)
  let ?zero = "char_of (0 :: nat)"
  let ?buf = "take 4 text @ replicate (5 - length (take 4 text)) ?zero"
  have zero: "\<not> hex_char ?zero" by (simp add: hex_char_def)
  have digits: "list_all (\<lambda>i. hex_char (?buf ! i)) [0..<min (length text) 5] \<longleftrightarrow> list_all isxdigit text"
    if "length text \<le> 4"
  proof -
    have "list_all (\<lambda>i. hex_char (?buf ! i)) [0..<min (length text) 5] \<longleftrightarrow> (\<forall>i < length text. isxdigit (text ! i))"
      using that by (auto simp: list_all_iff nth_append hex_char_xdigit)
    then show ?thesis by (simp only: list_all_length)
  qed
  have copied: "takeWhile (\<lambda>c. c \<noteq> ?zero) ?buf = text" if "length text \<le> 4" "list_all isxdigit text"
  proof -
    have "\<forall>c \<in> set text. c \<noteq> ?zero"
      using that(2) zero by (auto simp: list_all_iff hex_char_xdigit)
    then show ?thesis using that(1) by (simp add: takeWhile_append2 takeWhile_replicate)
  qed
  let ?n = "read_digits 16 isxdigit text"
  have converted: "stoul16 text = Some (int ?n)" if "text \<noteq> []" "length text \<le> 4" "list_all isxdigit text"
    using signed_hex_digits [OF that(1,3)] read_four [OF that(2,3)] by (simp add: stoul16_def)
  show "AddBreakDialogProc text E P =
     (if text = [] then Uncaught
      else if length text \<le> 4 \<and> list_all isxdigit text then
        let ad = word_of_nat ?n
        in Closed (snd (addBreakpoint ad E))
             (if ad \<in> m_breakpoints E then P else with_ui (\<lambda>u. u\<lparr>breaksView := breaksView u @ [text]\<rparr>) P)
      else Invalid_address)"
  proof -
    have error: "(4 < length text \<or> \<not> list_all (\<lambda>i. hex_char (?buf ! i)) [0..<min (length text) 5])
        \<longleftrightarrow> \<not> (length text \<le> 4 \<and> list_all isxdigit text)"
      using digits by auto
    show ?thesis
    proof (cases "length text \<le> 4 \<and> list_all isxdigit text")
      case True
      note eq = AddBreakDialogProc_def Let_def error copied [OF conjunct1 [OF True] conjunct2 [OF True]]
      show ?thesis
      proof (cases "text = []")
        case True
        then show ?thesis
          by (simp add: AddBreakDialogProc_def win_addBreakpoint_def stoul16_def signed_hex_def hex_prefix_def)
      next
        case False
        with True converted show ?thesis
          unfolding eq by (simp add: win_addBreakpoint_def addBreakpoint_def)
      qed
    next
      case False
      then have "text \<noteq> []" by auto
      with False show ?thesis unfolding AddBreakDialogProc_def Let_def error by simp
    qed
  qed
next
  have "setw0 4 (show_hex (unat v)) = [hex_digit (unat v div 4096), hex_digit (unat v div 256 mod 16),
      hex_digit (unat v div 16 mod 16), hex_digit (unat v mod 16)]"
    using unat16_less [of v] by (intro hex_word) simp
  moreover have "unat v div 4096 < 16"
    using unat16_less [of v] by (intro div_less_iff_less_mult [THEN iffD2]) simp_all
  moreover have "int (read_digits 16 isxdigit (setw0 4 (show_hex (unat v)))) = int (unat v)"
    using strtoul16_word [of "unat v"] unat16_less [of v] uint_lt2p [of v] calculation(1)
    by (simp add: strtoul16_def min_def split: if_splits)
  ultimately show "read_digits 16 isxdigit (setw0 4 (show_hex (unat v))) = unat v"
    "list_all isxdigit (setw0 4 (show_hex (unat v)))" "length (setw0 4 (show_hex (unat v))) = 4"
    by (simp_all only: of_nat_eq_iff) simp_all
qed


end
