(* ===== verification/Windows_Main.thy ===== *)
theory Windows_Main
  imports Windows_Debugger
begin

text \<open>
  The messages of \<^verbatim>\<open>debugger_src/test_6502.cpp\<close>: \<open>windowProc\<close> for the messages that reach the emulator, and the modal breakpoint
  dialog. A message of the system is input. As in the class, a run is the whole life of its thread, so a session here is
  one in which no message comes during a run; \<open>None\<close> is a message whose handling never ends. What Windows documents of
  \<open>WM_COMMAND\<close> is that the high half of \<open>wParam\<close> is 0 for a click on a button and 1 for a key of the accelerator table, and
  the low half the identifier.
\<close>

section \<open>The identifiers\<close>

definition ID_BTN_RUN :: nat where
  "ID_BTN_RUN = 101"

definition ID_BTN_STEP :: nat where
  "ID_BTN_STEP = 102"

definition ID_BTN_PAUSE :: nat where
  "ID_BTN_PAUSE = 103"

definition ID_BTN_ADDBRK :: nat where
  "ID_BTN_ADDBRK = 104"

definition ID_BTN_RESET :: nat where
  "ID_BTN_RESET = 107"

lemmas id_defs = ID_BTN_RUN_def ID_BTN_STEP_def ID_BTN_PAUSE_def ID_BTN_ADDBRK_def ID_BTN_RESET_def

section \<open>The window procedure\<close>

text \<open>Messages about size, colours and destruction do not touch the emulator and are \<open>WM_OTHER\<close>.\<close>

datatype message = WM_CREATE | WM_COMMAND nat | WM_CLOSE | WM_OTHER

definition accelerator :: "nat \<Rightarrow> message" where
  "accelerator i = WM_COMMAND (65536 + i)"

record win_state =
  w_bps :: "uint16 set"
  w_man :: TestWindowMan

text \<open>
  What is done in the dialog: a text and OK, or Cancel. An invalid text leaves it open; \<open>None\<close> is the exception
  that nothing catches.
\<close>

datatype entry = OK string | Cancel

fun DialogBox :: "entry list \<Rightarrow> win_state \<Rightarrow> win_state option" where
  "DialogBox [] W = Some W"
| "DialogBox (Cancel # es) W = Some W"
| "DialogBox (OK t # es) W =
     (case AddBreakDialogProc t (win_env (w_bps W)) (w_man W) of
        Invalid_address \<Rightarrow> DialogBox es W
      | Uncaught \<Rightarrow> None
      | Closed E P \<Rightarrow> Some (W\<lparr>w_bps := m_breakpoints E, w_man := P\<rparr>))"

datatype outcome = Terminated | Handled win_state

definition windowProc ::
  "(TestWindowMan \<Rightarrow> TestWindowMan) \<Rightarrow> entry list \<Rightarrow> message \<Rightarrow> win_state \<Rightarrow> outcome option" where
  "windowProc others es m W =
     (let P = w_man W;
          handled = (\<lambda>P. Handled (W\<lparr>w_man := P\<rparr>))
      in case m of
           WM_CREATE \<Rightarrow> Some (handled (on_create P))
         | WM_COMMAND wParam \<Rightarrow>
             if wParam = ID_BTN_STEP then Some (handled (on_step (w_bps W) P))
             else if wParam = ID_BTN_RUN then map_option handled (runToBreakpoint (w_bps W) P)
             else if wParam = ID_BTN_PAUSE then Some (handled (on_pause P))
             else if wParam = ID_BTN_RESET then map_option handled (win_reset others (w_bps W) P)
             else if wParam = ID_BTN_ADDBRK then
               Some (case DialogBox es W of None \<Rightarrow> Terminated | Some W \<Rightarrow> Handled W)
             else Some (Handled W)
         | WM_CLOSE \<Rightarrow> map_option handled (Emulator_stop others P)
         | WM_OTHER \<Rightarrow> Some (Handled W))"

fun messages ::
  "(TestWindowMan \<Rightarrow> TestWindowMan) \<Rightarrow> (message \<times> entry list) list \<Rightarrow> win_state \<Rightarrow> outcome option" where
  "messages others [] W = Some (Handled W)"
| "messages others ((m, es) # ms) W =
     (case windowProc others es m W of
        Some (Handled W) \<Rightarrow> messages others ms W
      | r \<Rightarrow> r)"

section \<open>The invariant of a session\<close>

definition sound :: "TestWindowMan \<Rightarrow> bool" where
  "sound P \<longleftrightarrow> full_memory (ho_bus (p_bus P)) \<and> in_sync P \<and> \<not> isRunning P"

text \<open>The two ways out: a run that comes to no breakpoint and no self-jump, and an empty address.\<close>

definition runs_on :: "message \<Rightarrow> win_state \<Rightarrow> bool" where
  "runs_on m W \<longleftrightarrow> m = WM_COMMAND ID_BTN_RUN \<and>
     \<not> (\<exists>k. cPC (mc_cpu (machine_at (Suc k) (machine (w_man W))))
       \<in> insert (cPC (mc_cpu (machine_at k (machine (w_man W))))) (w_bps W))"

fun enters_nothing :: "entry list \<Rightarrow> bool" where
  "enters_nothing [] = False"
| "enters_nothing (Cancel # es) = False"
| "enters_nothing (OK t # es) \<longleftrightarrow> t = [] \<or> (\<not> (length t \<le> 4 \<and> list_all isxdigit t) \<and> enters_nothing es)"

lemma sound_frame:
  "sound (setupStop P) = sound P" "sound (pause P) = sound P"
  by (simp_all add: sound_def in_sync_def isRunning_def)

lemma step_sound:
  assumes "sound P"
  shows "sound (win_step D P)"
proof -
  have P: "full_memory (ho_bus (p_bus P))" "in_sync P" using assms by (simp_all add: sound_def)
  have "full_memory (ho_bus (p_bus (step (Env.truncate (win_env D)) P)))"
    "m_running (step (Env.truncate (win_env D)) P) = m_running P"
    using win.step_state(2,4) [OF P(1), where bps = D] by simp_all
  then show ?thesis
    using win_step_sync [OF P(2,1), of D] assms by (simp add: sound_def win_step_def isRunning_def)
qed

lemma reset_sound:
  assumes "sound P"
  obtains Q where "win_reset others D P = Some (setupStop Q)" and "sound Q"
proof -
  have "Emulator_stop others P = Some (pause P)"
    using assms by (simp add: stop_idle sound_def isRunning_def)
  moreover have "full_memory (ho_bus (p_bus (pause P))) \<and> ho_ui (p_bus (pause P)) = ui P"
    using assms by (simp add: sound_def ui_def pause_def)
  moreover have "counting_clock (v_clock (Env.truncate (win_env D)))"
    by (simp add: default.counting_clock_axioms)
  ultimately obtain Q where Q: "Emulator_reset (DebugProcessor_run (win_env D)) others (Env.truncate (win_env D)) False P = Some Q"
    "full_memory (ho_bus (p_bus Q)) \<and> ho_ui (p_bus Q) = ui P" "m_running Q = m_running P"
    using hosted_at.start_refines [of "Env.truncate (win_env D)" "pause P" "ui P" "DebugProcessor_run (win_env D)"]
    by (auto simp: Emulator_reset_def)
  let ?R = "with_ui (\<lambda>u. u\<lparr>win_previousPcs := move_pcs (reg_pc (p_regs Q)) (win_previousPcs u)\<rparr>) Q"
  show thesis
  proof (rule that)
    show "win_reset others D P = Some (setupStop ?R)" by (simp add: win_reset_def Q(1))
    show "sound ?R"
      using Q(2,3) assms by (simp add: sound_def in_sync_def move_pcs_head isRunning_def ui_def [of Q])
  qed
qed

lemma dialog_sound:
  assumes "sound (w_man W)" and "at_rest (w_man W)"
  shows "if enters_nothing es then DialogBox es W = None
    else \<exists>W'. DialogBox es W = Some W' \<and> sound (w_man W') \<and> at_rest (w_man W') \<and> w_bps W \<subseteq> w_bps W'"
proof (induction es rule: enters_nothing.induct)
  case (3 t es)
  have "sound (with_ui (\<lambda>u. u\<lparr>breaksView := v u\<rparr>) (w_man W)) \<and> at_rest (with_ui (\<lambda>u. u\<lparr>breaksView := v u\<rparr>) (w_man W))"
    for v :: "win_ui \<Rightarrow> string list"
    using assms by (simp add: sound_def in_sync_def at_rest_def)
  then show ?case
    using 3 assms conjunct1 [OF dialog_result [of t "win_env (w_bps W)" "w_man W"]]
    by (auto simp: addBreakpoint_def Let_def)
qed (use assms in simp_all)

definition idle :: "win_state \<Rightarrow> bool" where
  "idle W \<longleftrightarrow> sound (w_man W) \<and> at_rest (w_man W)"

definition crashes :: "message \<Rightarrow> entry list \<Rightarrow> bool" where
  "crashes m es \<longleftrightarrow> m = WM_COMMAND ID_BTN_ADDBRK \<and> enters_nothing es"

text \<open>Closing stops a processor that is at rest already, and leaves the views alone.\<close>

lemma close_idle:
  assumes "idle W"
  shows "Emulator_stop others (w_man W) = Some (pause (w_man W))" and "sound (pause (w_man W))"
    and "at_rest (pause (w_man W))"
proof -
  show "Emulator_stop others (w_man W) = Some (pause (w_man W))"
    using assms by (simp add: stop_idle idle_def sound_def isRunning_def)
  show "sound (pause (w_man W))" using assms by (simp add: idle_def sound_frame)
  show "at_rest (pause (w_man W))" using assms by (simp add: idle_def at_rest_def)
qed

lemma message_result:
  assumes "idle W"
  shows "case windowProc others es m W of
      None \<Rightarrow> runs_on m W
    | Some Terminated \<Rightarrow> crashes m es
    | Some (Handled W') \<Rightarrow> idle W' \<and> \<not> runs_on m W \<and> \<not> crashes m es"
proof -
  have s: "sound (w_man W)" "at_rest (w_man W)" using assms by (simp_all add: idle_def)
  then have P: "full_memory (ho_bus (p_bus (w_man W)))" "in_sync (w_man W)" by (simp_all add: sound_def)
  show ?thesis
  proof (cases m)
    case WM_CREATE
    then show ?thesis
      using s by (simp add: windowProc_def idle_def on_create_def sound_frame setupStop_rest runs_on_def crashes_def)
  next
    case (WM_COMMAND i)
    consider (step) "i = ID_BTN_STEP" | (run) "i = ID_BTN_RUN" | (pause) "i = ID_BTN_PAUSE" | (reset) "i = ID_BTN_RESET"
      | (add) "i = ID_BTN_ADDBRK" | (other) "i \<notin> {ID_BTN_STEP, ID_BTN_RUN, ID_BTN_PAUSE, ID_BTN_RESET, ID_BTN_ADDBRK}"
      by blast
    then show ?thesis
    proof cases
      case step
      with WM_COMMAND step_sound [OF s(1), of "w_bps W"] show ?thesis
        by (simp add: windowProc_def idle_def on_step_def sound_frame setupStop_rest runs_on_def crashes_def id_defs)
    next
      case run
      have r: "windowProc others es (WM_COMMAND ID_BTN_RUN) W = map_option (\<lambda>P. Handled (W\<lparr>w_man := P\<rparr>)) (runToBreakpoint (w_bps W) (w_man W))"
        by (simp add: windowProc_def id_defs)
      show ?thesis
      proof (cases "runs_on m W")
        case True
        then show ?thesis
          using windows_run_result [OF P, of "w_bps W"] by (simp add: r runs_on_def WM_COMMAND run del: not_ex)
      next
        case False
        then obtain Q where "runToBreakpoint (w_bps W) (w_man W) = Some Q" "\<not> isRunning Q" "at_rest Q" "in_sync Q"
          "full_memory (ho_bus (p_bus Q))"
          using windows_run_result [OF P, of "w_bps W"] by (auto simp: runs_on_def WM_COMMAND run)
        then show ?thesis using False by (simp add: r idle_def sound_def crashes_def WM_COMMAND run) (simp add: id_defs)
      qed
    next
      case pause
      with WM_COMMAND s show ?thesis
        by (simp add: windowProc_def idle_def on_pause_def sound_frame setupStop_rest runs_on_def crashes_def id_defs)
    next
      case reset
      obtain Q where "win_reset others (w_bps W) (w_man W) = Some (setupStop Q)" "sound Q"
        by (rule reset_sound [OF s(1)])
      with WM_COMMAND reset show ?thesis
        by (simp add: windowProc_def idle_def sound_frame setupStop_rest runs_on_def crashes_def id_defs)
    next
      case add
      with WM_COMMAND dialog_sound [OF s, of es] show ?thesis
        by (auto simp: windowProc_def idle_def runs_on_def crashes_def id_defs split: if_splits)
    next
      case other
      with WM_COMMAND assms show ?thesis by (simp add: windowProc_def runs_on_def crashes_def)
    qed
  next
    case WM_CLOSE
    then show ?thesis
      using close_idle(1) [OF assms, of others] close_idle(2,3) [OF assms] by (simp add: windowProc_def idle_def runs_on_def crashes_def)
  next
    case WM_OTHER
    then show ?thesis using assms by (simp add: windowProc_def runs_on_def crashes_def)
  qed
qed

section \<open>A session\<close>

lemma session_result:
  assumes "idle W"
  shows "case messages others ms W of
      None \<Rightarrow> \<exists>first m es rest W'. ms = first @ (m, es) # rest \<and> messages others first W = Some (Handled W') \<and>
        idle W' \<and> runs_on m W'
    | Some Terminated \<Rightarrow> list_ex (\<lambda>(m, es). crashes m es) ms
    | Some (Handled W') \<Rightarrow> idle W' \<and> \<not> list_ex (\<lambda>(m, es). crashes m es) ms"
  using assms
proof (induction ms arbitrary: W)
  case (Cons x ms)
  obtain m es where x: "x = (m, es)" by force
  note r = message_result [OF Cons.prems, where others = others and es = es and m = m]
  show ?case
  proof (cases "windowProc others es m W")
    case None
    then have "x # ms = [] @ (m, es) # ms \<and> messages others [] W = Some (Handled W) \<and> runs_on m W"
      using r x by simp
    moreover have "messages others (x # ms) W = None" using None x by simp
    ultimately show ?thesis using Cons.prems by (simp only: option.case) blast
  next
    case (Some o1)
    show ?thesis
    proof (cases o1)
      case Terminated
      then show ?thesis using Some r x by simp
    next
      case (Handled W1)
      have W1: "idle W1" "\<not> crashes m es" using r Some Handled by simp_all
      have first: "messages others (x # js) W = messages others js W1" for js
        using Some Handled x by simp
      note IH = Cons.IH [OF W1(1)]
      show ?thesis
      proof (cases "messages others ms W1")
        case None
        with IH obtain "first" m' es' rest W' where f: "ms = first @ (m', es') # rest"
          "messages others first W1 = Some (Handled W')" "idle W'" "runs_on m' W'" by auto
        then have "x # ms = (x # first) @ (m', es') # rest" "messages others (x # first) W = Some (Handled W')"
          using first by simp_all
        moreover have "messages others (x # ms) W = None" using None first by simp
        ultimately show ?thesis using f(3,4) by (simp only: option.case) blast
      next
        case (Some o2)
        have "messages others (x # ms) W = Some o2" using Some first by simp
        moreover have "list_ex (\<lambda>(m, es). crashes m es) (x # ms) = list_ex (\<lambda>(m, es). crashes m es) ms"
          using W1(2) x by simp
        ultimately show ?thesis using IH Some by (simp only: option.case)
      qed
    qed
  qed
qed simp


end
