(* ===== verification/Spec2Isabelle.thy ===== *)
theory Spec2Isabelle
  imports Bus_Simulation Listing Opcode_Constants Assembler_Text Loaded_System
    Cpu_Suite Test_Asm Test_Adc Test_Functional Test_Pacing
    Threads Linux_Main Windows_Main
begin

text \<open>
  A model of the 6502 emulator library \<^verbatim>\<open>emu6205cc\<close> and of its assembler and disassembler, with the theorems
  that make them correct. All paths are relative to \<^verbatim>\<open>src/\<close>.

  The program and the theories. A host creates \<open>Registers\<close>, a \<open>Memory\<close>, a \<open>Bus\<close> connected to it, a clock and a
  \<open>Processor\<close>, and usually an \<open>I6502Emulator\<close> over them. The processor fetches an opcode through the bus, looks
  it up in a table of 256 instruction objects, executes it (the object resolves its operand with an addressing
  policy, reads and writes through the bus and returns its cycles) and charges the clock. Between instructions
  it polls the interrupt lines, and after each it calls a callback of the host.

  \<^item> \<open>Prelude\<close>: bytes and words, \<open>lo8\<close>, \<open>hi8\<close>, \<open>le16\<close>, and bit lemmas.
  \<^item> \<open>CPU_Registers\<close> (\<^verbatim>\<open>include/6502cc/emu_base.h\<close>), \<open>Flat_Memory\<close> (\<^verbatim>\<open>emu_memory.h\<close>, \<^verbatim>\<open>src/Memory.cpp\<close>), \<open>System_Bus\<close>
    (\<^verbatim>\<open>emu_bus.h\<close>, \<^verbatim>\<open>src/emu_bus.cpp\<close>, the stack helpers), \<open>Emu_Clock\<close> (\<^verbatim>\<open>emu_clock.h\<close>, \<^verbatim>\<open>src/emuclock.cpp\<close>): the state.
    A class with virtual functions is a record of its functions over a state type, so a device whose reads have
    effects, or a host's own clock, is an instance.
  \<^item> \<open>Alu_Core\<close>, \<open>Instruction_Set\<close> (\<^verbatim>\<open>src/InstructionImpl.h\<close>) and \<open>Addressing_Modes\<close> (\<^verbatim>\<open>src/parameters.h\<close>): the
    arithmetic, one definition per instruction class, and the fourteen addressing policies, which are the
    template arguments of the instructions and so records passed to them. \<open>Opcode_Matrix\<close>: the table of
    \<^verbatim>\<open>src/Processor.cpp\<close>.
  \<^item> \<open>Processor_Step\<close> (\<^verbatim>\<open>emu_processor.h\<close>, \<^verbatim>\<open>src/Processor.cpp\<close>): \<open>step\<close>, \<open>run\<close>, the interrupt lines and
    \<open>DebugProcessor\<close>; \<open>Emulator\<close> (\<^verbatim>\<open>src/I6502Emulator.cpp\<close>): \<open>start\<close>, \<open>stop\<close>, \<open>reset\<close>.
    \<open>Threads\<close>: \<open>run\<close> on a thread of its own as a sequence of atomic actions, with the calls of other threads in between.
  \<^item> \<open>Text_Format\<close>, \<open>Disassembler\<close> (\<^verbatim>\<open>src/unasm.cpp\<close>), \<open>Regex\<close>, \<open>Assembler\<close> (\<^verbatim>\<open>src/Asm.cpp\<close>, \<^verbatim>\<open>asm.h\<close>,
    \<^verbatim>\<open>emul_exceptions.h\<close>), \<open>Opcode_Constants\<close> (\<^verbatim>\<open>src/Opcode.h\<close>): the text side. \<open>Regex\<close> is the backtracking
    meaning of the one ECMAScript expression of the assembler, with its capture groups.
  \<^item> \<open>Pacing\<close> (\<^verbatim>\<open>src/emuclock.cpp\<close>): \<open>chrono_clock\<close> and the platform timers behind \<open>precision_clock\<close>.
  \<^item> \<open>Debugger_Host\<close>, \<open>Linux_Debugger\<close> (\<^verbatim>\<open>debugger_src/test_6502_linux.cpp\<close>), \<open>Windows_Debugger\<close>
    (\<^verbatim>\<open>debugger_src/test_6502.cpp\<close>): the classes of the two debuggers, whose callbacks change a front end that is kept
    beside the memory, the texts they show and the breakpoint dialog. \<open>Linux_Main\<close>, \<open>Windows_Main\<close>: their main loops over keys and messages.
  \<^item> \<open>Test_Rig\<close>, \<open>Test_Cpu\<close>, \<open>Test_Cpu_Memory\<close>, \<open>Test_Cpu_Undocumented\<close>, \<open>Cpu_Suite\<close> (\<^verbatim>\<open>test_src/testCpu.cpp\<close>), \<open>Test_Asm\<close>,
    \<open>Test_Adc\<close>, \<open>Test_Functional\<close> (the other files of \<^verbatim>\<open>test_src\<close>): each test case is a definition of its name. \<open>Test_Pacing\<close>: the
    test case that measures wall-clock time, over the times that the host's clock shows.

  What is proved.

  \<^item> \<open>Abstract_CPU\<close>, \<open>Operand_Spec\<close> and \<open>Isa_Spec\<close> say what a programmer's manual says: flags as truth values, memory as
    a function, shifts as multiplication, places of operands, and the cycles. \<open>Refinement\<close> proves every
    instruction class in every mode correct for it in the locale \<open>ram_bus\<close>, the contract of a bus that behaves as
    64 KB of RAM; \<open>Step_Refinement\<close> lifts this to \<open>step\<close> with its interrupts. The locale is interpreted on the
    base bus over a memory of 256 pages and on a plain array. \<open>step_implements_machine\<close> below is the result.
  \<^item> \<open>Bus_Traffic\<close> counts the accesses on any bus, RAM or not: never more than the cycles charged, and the two
    writes of a read-modify-write. \<open>Interrupts\<close> has the behaviours of the interrupt logic over several steps.
  \<^item> \<open>Run_Loops\<close> says when the run loops return, in which state and after how many cycles; \<open>Loaded_System\<close> goes from
    assembler source to a processor at its first instruction.
  \<^item> \<open>Listing\<close> compares disassembler and processor, \<open>Assembler_Spec\<close>, \<open>Assembler_Text\<close> and \<open>Assembler_Syntax\<close>
    give the assembler's image, errors, line ends and operand grammar, and the round trip of a listing
    through the assembler.

  \<^item> \<open>Bus_Simulation\<close>: the processor sees a device through the values of its reads only; two systems whose buses
    correspond make corresponding steps and runs. The test suites are evaluated through it, on a memory that is a function.
  \<^item> \<open>Threads\<close>: alone, the atomic actions are \<open>run\<close>; a call during a step is a call before or after it; a pause in the loop ends
    it within nine actions and one instruction; a pause before the loop is lost, and a \<open>stop\<close> that comes with it never returns.
  \<^item> The suites hold on the modelled code (\<open>Cpu_Suite\<close>, \<open>Test_Asm\<close>, \<open>Test_Adc\<close>, \<open>Test_Pacing\<close>), and a verdict of the functional test, whose image is
    a download and here an argument, is a statement about the abstract machine on that image (\<open>Test_Functional\<close>).
  \<^item> \<open>Pacing\<close>: the locale \<open>pacer\<close> is the contract of both pacing clocks; neither lets the processor get ahead of time, and
    without a resynchronisation both follow an absolute schedule. The debuggers: when their runs end and what the front end
    then shows, the step key of the Linux one, which waits for its own mutex, and what holds between the keys or messages of
    any session.

  Bounds. A run loop may never end, so \<open>run\<close> is an option (\<open>while_option\<close>), and \<open>None\<close> is a run that does not
  return; the theorems say exactly when that is. The source reader is the same, and proved to end always.
  All other functions are total; no fuel is used. Integers have the width of the code: bytes and addresses
  are words, the cycle counter is a 64-bit word, \<open>int\<close> is an integer where the code keeps it small, and
  conversions of a value that may be too large are written out (\<open>cast_int\<close>).

  Times are nanoseconds below \<open>2^63\<close>. The budget of an instruction, a floating-point product in the clocks, is a parameter.

  Not modelled. Window and terminal handling: the creation, layout and colours of the windows of one debugger, the set-up of the
  terminal of the other, and \<open>setupProgram\<close>, which nothing calls. Threads: everywhere but in \<open>Threads\<close>, a call of \<open>pause\<close>, \<open>nmi\<close>
  or \<open>irq\<close> from another thread is a call between two steps, and a run of a debugger is the whole life of its thread; \<open>Threads\<close> takes
  the atomic flags as sequentially consistent, as \<open>std::atomic\<close> makes them, and an instruction callback as one action. Destructors, and callbacks that change the breakpoint
  set while a debugging run iterates.
\<close>

section \<open>The interpreter implements the abstract machine\<close>

text \<open>
  C1: One step of the processor, over any bus that behaves as RAM, is one step of the abstract
  machine: it takes the same interrupt or executes the same instruction, ends in the same registers,
  flags, memory and interrupt state, and charges the clock exactly the cycles the machine counts.
  This covers all 256 opcodes in all addressing modes.
\<close>

theorem step_implements_machine:
  assumes "ram_bus (v_bus E) view ok" and "ok (p_bus P)"
  shows "abs_machine view (step_core E P) = snd (machine_step (abs_machine view P))
    \<and> p_clock (step_core E P)
        = clk_waitCycles (v_clock E) (fst (machine_step (abs_machine view P))) (p_clock P)
    \<and> ok (p_bus (step_core E P))"
  using ram_bus.step_core_refines [OF assms(1) refl assms(2)] by (auto simp: step_result_def)

lemma step_implements_machine_witness:
  "reg_a (p_regs (step_core plain_system (booted (\<lambda>ad. if ad = 0x0200 then 0xA9 else 0x2A) 0x0200))) = 0x2A"
proof -
  let ?P = "booted (\<lambda>ad. if ad = 0x0200 then 0xA9 else 0x2A) 0x0200"
  have "instr_of 0xA9 = Inst LDA_Impl Immediate 2"
    by (simp add: instr_of_def instruction_table_def row_defs)
  then have "cA (mc_cpu (snd (machine_step (abs_machine (\<lambda>m. m) ?P)))) = 0x2A"
    by (simp add: machine_step_def take_instruction_def isa_step_def implied_def set_a_def nz_spec_def Let_def)
  then have "cA (mc_cpu (abs_machine (\<lambda>m. m) (step_core plain_system ?P))) = 0x2A"
    using step_implements_machine [OF plain_system_ram, of ?P] by simp
  then show ?thesis by simp
qed

text \<open>
  C2: No step makes more bus accesses than it charges cycles, and no step is free: on any bus,
  whatever its devices return, a step that charges \<open>k\<close> cycles makes at most \<open>k\<close> accesses, and
  \<open>k\<close> is at least 2.
\<close>

theorem step_traffic_bounded:
  fixes P :: "('b logged, 'k) Processor"
  assumes "v_bus E = Logging_Bus B"
  shows "\<exists>k. p_clock (step_core E P) = clk_waitCycles (v_clock E) k (p_clock P)
    \<and> int (accesses (p_bus (step_core E P))) - int (accesses (p_bus P)) \<le> k \<and> 2 \<le> k"
  by (rule step_core_traffic [OF assms, of P]) blast

lemma step_traffic_bounded_witness:
  "\<exists>k. p_clock (step_core logged_system (Processor_new \<lparr>lg_state = \<lambda>_. 0, lg_trace = []\<rparr> Registers_zero 0))
      = clk_waitCycles default_clock k 0 \<and> 2 \<le> k"
  using step_traffic_bounded [of logged_system array_Bus
      "Processor_new \<lparr>lg_state = \<lambda>_. 0, lg_trace = []\<rparr> Registers_zero 0"]
  by (auto simp: logged_system_def Processor_new_def)

section \<open>Reset\<close>

text \<open>
  C26: \<open>start(false)\<close> puts the processor into the reset state over RAM: A, X, Y zero, SP $FD, I the
  only flag set, PC loaded from the vector at $FFFC, memory unchanged, no interrupt pending and
  none delayed, and exactly 7 cycles on the clock. The chip option is reset too: a processor set up
  without decimal circuitry has it after a reset.
\<close>

theorem start_resets:
  assumes "ram_bus (v_bus E) view ok" and "ok (p_bus P)" and "counting_clock (v_clock E)"
  shows "\<exists>P'. Emulator_start virtual_run E False P = Some P'
    \<and> abs_machine view P' = reset_machine (view (p_bus P))
    \<and> clk_cycles (v_clock E) (p_clock P') = 7 \<and> \<not> decimalDisabled (p_regs P')"
proof -
  obtain P' where P': "Emulator_start virtual_run E False P = Some P'"
    "abs_machine view P' = reset_machine (view (p_bus P))" "clk_cycles (v_clock E) (p_clock P') = 7"
    by (rule ram_bus.start_refines [OF assms(1) refl assms(2,3)]) blast
  moreover have "\<not> decimalDisabled (p_regs P')"
    using arg_cong [OF P'(2), of "\<lambda>s. cBCD (mc_cpu s)"] by (simp add: reset_machine_def reset_cpu_def)
  ultimately show ?thesis by blast
qed

lemma start_resets_witness:
  "\<exists>P'. Emulator_start Some plain_system False (booted (\<lambda>_. 0) 0x1234) = Some P'
    \<and> abs_machine (\<lambda>m. m) P' = reset_machine (\<lambda>_. 0)"
proof -
  have "counting_clock (v_clock plain_system)"
    by (simp add: plain_system_def default.counting_clock_axioms)
  from start_resets [OF plain_system_ram _ this, where P = "booted (\<lambda>_. 0) 0x1234" and virtual_run = Some]
  show ?thesis by auto
qed

section \<open>The test suites\<close>


end
